theory Spec2Isabelle
  imports Main "HOL-Library.Sublist"
begin

section \<open>Values and records of the backup add-on\<close>

text \<open>
  A file-system path is the list of its components, so that
  \<^verbatim>\<open>path.join(tmpDirData.name, 'app', 'sql', backupSQLDumpFile)\<close> is
  \<open>name @ [''app'', ''sql'', backupSQLDumpFile]\<close> and "at or inside the directory d" is
  \<open>prefix d\<close>.
\<close>

type_synonym fpath = "string list"

text \<open>A value that is thrown or that rejects a promise. It is an object, hence truthy.\<close>

datatype js_error = Error string | TypeError string

datatype Providers = Drive | Dropbox

record Site =
  site_id :: string
  site_name :: string
  site_path :: fpath
  site_domain :: string
  site_mysql_database :: "string option"
  site_localBackupRepoID :: "string option"

record BackupSite =
  bs_id :: nat
  bs_uuid :: string
  bs_password :: string

text \<open>The \<^verbatim>\<open>DirResult\<close> of the tmp package: the directory's name; its
  \<^verbatim>\<open>removeCallback\<close> is the function \<open>removeCallback\<close> below.\<close>

record DirResult =
  dir_name :: fpath

text \<open>
  What an invoked service resolves with (the \<^verbatim>\<open>event.data\<close> of its done event),
  or the value it rejected with (the \<^verbatim>\<open>event.data\<close> of its error event).
\<close>

record credentials =
  cr_encryptionPassword :: string
  cr_localBackupRepoID :: string
  cr_backupSiteID :: nat

datatype event_data =
    Undefined
  | CredentialsData credentials
  | TmpDirData DirResult
  | DestinationSiteData Site
  | ErrorData js_error

record banner =
  b_siteID :: string
  b_id :: string
  b_variant :: string
  b_icon :: string
  b_title :: string
  b_message :: string

datatype ipc_event =
    BACKUP_STARTED
  | BACKUP_COMPLETED
  | UpdateSiteStatus string string
  | UpdateSiteMessage string string
  | ShowSiteBanner banner
  | GoToRoute string
  | SelectSite string bool bool
  | DeleteSite "Site option" bool

datatype log_entry =
    Info string
  | InfoRemoving "fpath list"
  | InfoMoved fpath fpath
  | Warn string
  | ErrorLog event_data

text \<open>
  The three query texts of \<^verbatim>\<open>importDatabase\<close>:
  \<^verbatim>\<open>SELECT @@SQL_MODE;\<close>, \<^verbatim>\<open>SET GLOBAL SQL_MODE='m';\<close> and
  \<^verbatim>\<open>SET names 'utf8'; DROP DATABASE d; CREATE DATABASE IF NOT EXISTS d;\<close>.
\<close>

datatype sql_query =
    SELECT_SQL_MODE
  | SET_GLOBAL_SQL_MODE string
  | DROP_CREATE_DATABASE string

datatype sql_cmd = RunQuery sql_query | ImportSQLFile fpath

text \<open>The database server of one site: its global SQL mode and the content of the
  site's database (empty after it was dropped and created again).\<close>

record db_state =
  sql_mode :: string
  db_contents :: "string list"

text \<open>The value of \<^verbatim>\<open>serviceState.inProgressStateMachine\<close>: the running
  interpreter, or null. The slot is shared with the sibling backup service.\<close>

datatype service_handle = BackupService | RestoreService | CloneService

text \<open>
  Everything outside the two services that they read or change:
  the in-progress slot, the site registry (\<^verbatim>\<open>siteData\<close>, read back with
  \<^verbatim>\<open>getSiteDataFromDisk\<close>), the paths that exist on disk, each site's database
  server with the commands it was sent, the events sent with \<^verbatim>\<open>sendIPCEvent\<close>,
  the logger's lines, the error boxes shown and the calls of the process manager and of
  the provisioner.
\<close>

record world =
  inProgressStateMachine :: "service_handle option"
  sites :: "(string \<times> Site) list"
  fs :: "fpath list"
  db :: "string \<Rightarrow> db_state"
  sql_log :: "(string \<times> sql_cmd) list"
  ipc :: "ipc_event list"
  logs :: "log_entry list"
  dialogs :: "(string \<times> string) list"
  restarts :: "Site list"
  provisioned :: "Site list"

text \<open>
  The collaborators: what each external call answers. A call that can fail answers
  with the value it throws or rejects with. \<open>formatSiteNicename\<close>, \<open>formatHomePath\<close>,
  \<open>camelCaseToSentence\<close>, the constant \<open>backupSQLDumpFile\<close> and
  \<open>shortid_generate\<close> are not part of the two services and are taken as given.
  \<open>glob_magic\<close> is what the glob library answers for a pattern whose directory part holds
  a character of the pattern syntax. \<open>fs_remove_done\<close> says which paths are already gone
  when the first of several concurrent removals fails, \<open>emptyDirSync_done\<close> which
  paths are already gone when \<^verbatim>\<open>fs.emptyDirSync\<close> throws, \<open>fs_copySync_done\<close> which
  paths are already written when \<^verbatim>\<open>fs.copySync\<close> throws, and
  \<open>restoreResticBackup_partial\<close> which files of the snapshot are already written when
  the snapshot tool fails.
\<close>

record env =
  formatSiteNicename :: "string \<Rightarrow> string"
  formatHomePath :: "fpath \<Rightarrow> fpath"
  camelCaseToSentence :: "string \<Rightarrow> string"
  backupSQLDumpFile :: string
  shortid_generate :: string
  getBackupSite :: "string option \<Rightarrow> js_error + BackupSite"
  getSiteStatus :: "Site \<Rightarrow> string"
  tmp_dirSync :: "js_error + fpath"
  restoreResticBackup :: "Site \<Rightarrow> Providers \<Rightarrow> string option \<Rightarrow> string \<Rightarrow> js_error + fpath list"
  fs_remove_error :: "fpath \<Rightarrow> js_error option"
  fs_copySync_error :: "fpath \<Rightarrow> fpath \<Rightarrow> js_error option"
  runSiteSQLCmd_error :: "Site \<Rightarrow> sql_query \<Rightarrow> js_error option"
  importSQLFile_result :: "Site \<Rightarrow> fpath \<Rightarrow> js_error + string list"
  provision_error :: "Site \<Rightarrow> js_error option"
  waitForDB_error :: "Site \<Rightarrow> js_error option"
  changeSiteDomainToHost_error :: "Site \<Rightarrow> js_error option"
  restart_error :: "Site \<Rightarrow> js_error option"
  glob_magic :: "fpath \<Rightarrow> string \<Rightarrow> fpath list \<Rightarrow> fpath list"
  fs_remove_done :: "fpath \<Rightarrow> bool"
  emptyDirSync_error :: "fpath \<Rightarrow> js_error option"
  emptyDirSync_done :: "fpath \<Rightarrow> bool"
  removeCallback_error :: "fpath \<Rightarrow> js_error option"
  fs_copySync_done :: "fpath \<Rightarrow> bool"
  restoreResticBackup_partial :: "fpath list"

section \<open>The collaborators' operations on the world\<close>

definition logger :: "log_entry \<Rightarrow> world \<Rightarrow> world" where
  "logger e w = w\<lparr>logs := logs w @ [e]\<rparr>"

definition sendIPCEvent :: "ipc_event \<Rightarrow> world \<Rightarrow> world" where
  "sendIPCEvent e w = w\<lparr>ipc := ipc w @ [e]\<rparr>"

definition existsSync :: "world \<Rightarrow> fpath \<Rightarrow> bool" where
  "existsSync w p = (p \<in> set (fs w))"

text \<open>\<^verbatim>\<open>fs.remove(p)\<close> deletes p and everything inside it.\<close>

definition fs_remove :: "fpath \<Rightarrow> fpath list \<Rightarrow> fpath list" where
  "fs_remove p ps = filter (\<lambda>q. \<not> prefix p q) ps"

text \<open>
  \<^verbatim>\<open>fs.emptyDirSync(d)\<close> deletes everything inside d and keeps d; a directory that
  does not exist is created. When it throws, some of the entries inside d may be gone
  already.
\<close>

definition emptyDirSync :: "env \<Rightarrow> fpath \<Rightarrow> fpath list \<Rightarrow> js_error option \<times> fpath list" where
  "emptyDirSync env d ps =
     (case emptyDirSync_error env d of
        Some e \<Rightarrow>
          (Some e, filter (\<lambda>q. \<not> (strict_prefix d q \<and> emptyDirSync_done env q)) ps)
      | None \<Rightarrow>
          (None, if d \<in> set ps then filter (\<lambda>q. \<not> strict_prefix d q) ps
                 else List.insert d ps))"

text \<open>\<^verbatim>\<open>tmpDirData.removeCallback()\<close> removes the directory; it throws, and removes
  nothing, when the directory is not empty or cannot be removed.\<close>

definition removeCallback :: "env \<Rightarrow> fpath \<Rightarrow> fpath list \<Rightarrow> js_error option \<times> fpath list" where
  "removeCallback env d ps =
     (if list_ex (strict_prefix d) ps then
        (Some (Error ''ENOTEMPTY: directory not empty''), ps)
      else
        (case removeCallback_error env d of
           Some e \<Rightarrow> (Some e, ps)
         | None \<Rightarrow> (None, removeAll d ps)))"

text \<open>\<^verbatim>\<open>fs.copySync(src, dst)\<close> writes, for every path at or inside src, the same
  path at or inside dst. When it throws, some of these paths may be written already.\<close>

definition copySync :: "fpath \<Rightarrow> fpath \<Rightarrow> fpath list \<Rightarrow> fpath list" where
  "copySync src dst ps =
     List.union ps (map (\<lambda>q. dst @ drop (length src) q) (filter (prefix src) ps))"

definition copySync_partial :: "env \<Rightarrow> fpath \<Rightarrow> fpath \<Rightarrow> fpath list \<Rightarrow> fpath list" where
  "copySync_partial env src dst ps =
     List.union ps
       (filter (fs_copySync_done env)
          (map (\<lambda>q. dst @ drop (length src) q) (filter (prefix src) ps)))"

text \<open>Modelled from the spec: \<^verbatim>\<open>getSiteDataFromDisk\<close> of the utilities module is
  the registry's \<^verbatim>\<open>readSiteFromDisk(id) -> descriptor\<close>; an unknown id gives
  undefined.\<close>

definition getSiteDataFromDisk :: "world \<Rightarrow> string \<Rightarrow> Site option" where
  "getSiteDataFromDisk w i = map_of (sites w) i"

definition addSite :: "string \<Rightarrow> Site \<Rightarrow> world \<Rightarrow> world" where
  "addSite i s w = w\<lparr>sites := (i, s) # sites w\<rparr>"

text \<open>\<^verbatim>\<open>runSiteSQLCmd({ site, query })\<close>: the command is recorded; when it does not
  fail it takes effect and, for the SELECT, answers the server's mode.\<close>

definition apply_query :: "sql_query \<Rightarrow> db_state \<Rightarrow> db_state" where
  "apply_query q d =
     (case q of
        SELECT_SQL_MODE \<Rightarrow> d
      | SET_GLOBAL_SQL_MODE m \<Rightarrow> d\<lparr>sql_mode := m\<rparr>
      | DROP_CREATE_DATABASE n \<Rightarrow> d\<lparr>db_contents := []\<rparr>)"

definition runSiteSQLCmd :: "env \<Rightarrow> Site \<Rightarrow> sql_query \<Rightarrow> world \<Rightarrow> (js_error + string) \<times> world" where
  "runSiteSQLCmd env site q w =
     (let w1 = w\<lparr>sql_log := sql_log w @ [(site_id site, RunQuery q)]\<rparr> in
      case runSiteSQLCmd_error env site q of
        Some e \<Rightarrow> (Inl e, w1)
      | None \<Rightarrow>
          (Inr (sql_mode (db w (site_id site))),
           w1\<lparr>db := (db w)(site_id site := apply_query q (db w (site_id site)))\<rparr>))"

definition importSQLFile :: "env \<Rightarrow> Site \<Rightarrow> fpath \<Rightarrow> world \<Rightarrow> (js_error + unit) \<times> world" where
  "importSQLFile env site f w =
     (let w1 = w\<lparr>sql_log := sql_log w @ [(site_id site, ImportSQLFile f)]\<rparr> in
      case importSQLFile_result env site f of
        Inl e \<Rightarrow> (Inl e, w1)
      | Inr rows \<Rightarrow>
          (Inr (),
           w1\<lparr>db := (db w)(site_id site := (db w (site_id site))\<lparr>db_contents := rows\<rparr>)\<rparr>))"

definition siteProcessManager_restart :: "env \<Rightarrow> Site \<Rightarrow> world \<Rightarrow> (js_error + unit) \<times> world" where
  "siteProcessManager_restart env site w =
     (let w1 = w\<lparr>restarts := restarts w @ [site]\<rparr> in
      case restart_error env site of Some e \<Rightarrow> (Inl e, w1) | None \<Rightarrow> (Inr (), w1))"

section \<open>The interpreter of a state machine\<close>

datatype event = DoneInvoke event_data | ErrorPlatform js_error

fun event_data_of :: "event \<Rightarrow> event_data" where
  "event_data_of (DoneInvoke d) = d"
| "event_data_of (ErrorPlatform e) = ErrorData e"

text \<open>
  An action takes the context and the event and gives the context (changed by an
  \<^verbatim>\<open>assign\<close>) and the world (changed by an effect). A state of the two machines
  is either a state that invokes a promise service, with the target and the actions of
  its \<^verbatim>\<open>onDone\<close> and of its \<^verbatim>\<open>onError\<close> transition, or a final state with
  its entry actions. A transition is its target and its actions.
\<close>

type_synonym 'c action = "'c \<Rightarrow> event \<Rightarrow> world \<Rightarrow> 'c \<times> world"

type_synonym ('s, 'c) transition = "'s \<times> 'c action list"

datatype ('s, 'c) state_node =
    Invoke "'c \<Rightarrow> world \<Rightarrow> (js_error + event_data) \<times> world"
           "('s, 'c) transition" "('s, 'c) transition"
  | Final "'c action list"

type_synonym ('s, 'c) machine = "'s \<Rightarrow> ('s, 'c) state_node"

type_synonym ('s, 'c) config = "'s \<times> 'c \<times> world"

fun exec_actions :: "'c action list \<Rightarrow> event \<Rightarrow> 'c \<times> world \<Rightarrow> 'c \<times> world" where
  "exec_actions [] ev cw = cw"
| "exec_actions (a # as) ev (c, w) = exec_actions as ev (a c ev w)"

definition is_final :: "('s, 'c) machine \<Rightarrow> 's \<Rightarrow> bool" where
  "is_final m s = (case m s of Final _ \<Rightarrow> True | Invoke _ _ _ \<Rightarrow> False)"

text \<open>
  Entering a state: the entry actions of a final state run, then the listener given to
  \<^verbatim>\<open>onTransition\<close> is called with the new state. (The interpreter calls the
  listener after it has started the service of the state entered; the records the
  listener makes are kept at the state's entry here, before those of the service. Only
  the order, in the list of events and in the log, of the listener's two records and of
  what that service records before its first \<^verbatim>\<open>await\<close> depends on this.)
\<close>

definition enter :: "('s, 'c) machine \<Rightarrow> ('s \<Rightarrow> world \<Rightarrow> world) \<Rightarrow> 's \<Rightarrow> event \<Rightarrow> 'c \<times> world
                      \<Rightarrow> ('s, 'c) config" where
  "enter m onTransition t ev cw =
     (case (case m t of Final acts \<Rightarrow> exec_actions acts ev cw | Invoke _ _ _ \<Rightarrow> cw) of
        (c, w) \<Rightarrow> (t, c, onTransition t w))"

text \<open>
  One step of the interpreter in a state that invokes a service: the service runs to
  its end on the current context and world; its done or error event selects the
  transition, whose actions run in order; then the target is entered.
\<close>

definition step :: "('s, 'c) machine \<Rightarrow> ('s \<Rightarrow> world \<Rightarrow> world) \<Rightarrow> ('s, 'c) config
                      \<Rightarrow> ('s, 'c) config" where
  "step m onTransition cfg =
     (case cfg of (s, c, w) \<Rightarrow>
        (case m s of
           Final _ \<Rightarrow> (s, c, w)
         | Invoke src onDone onError \<Rightarrow>
             (case src c w of
                (Inr d, w1) \<Rightarrow>
                  enter m onTransition (fst onDone) (DoneInvoke d)
                    (exec_actions (snd onDone) (DoneInvoke d) (c, w1))
              | (Inl e, w1) \<Rightarrow>
                  enter m onTransition (fst onError) (ErrorPlatform e)
                    (exec_actions (snd onError) (ErrorPlatform e) (c, w1)))))"

text \<open>
  The interpreter runs until a final state is reached and gives every configuration
  it went through, the final one last. A machine that never reaches a final state gives
  \<open>None\<close>: its \<^verbatim>\<open>onDone\<close> and \<^verbatim>\<open>onStop\<close> listeners are never called.
\<close>

partial_function (option) interpret_machine ::
  "('s, 'c) machine \<Rightarrow> ('s \<Rightarrow> world \<Rightarrow> world) \<Rightarrow> ('s, 'c) config \<Rightarrow> ('s, 'c) config list option"
where
  "interpret_machine m onTransition cfg =
     (if is_final m (fst cfg) then Some [cfg]
      else Option.bind (interpret_machine m onTransition (step m onTransition cfg))
             (\<lambda>rest. Some (cfg # rest)))"

declare interpret_machine.simps [code]

text \<open>\<^verbatim>\<open>service.start()\<close> enters the initial state.\<close>

definition start :: "('s, 'c) machine \<Rightarrow> ('s \<Rightarrow> world \<Rightarrow> world) \<Rightarrow> 's \<Rightarrow> 'c \<Rightarrow> world
                      \<Rightarrow> ('s, 'c) config" where
  "start m onTransition initial c w = enter m onTransition initial (DoneInvoke Undefined) (c, w)"

text \<open>
  The state object of the interpreter (\<^verbatim>\<open>service._state\<close>) has the properties
  \<^verbatim>\<open>value\<close> and \<^verbatim>\<open>context\<close> (and others that the services do not read).
\<close>

record ('s, 'c) State =
  st_value :: 's
  st_context :: 'c

definition state_of :: "('s, 'c) config \<Rightarrow> ('s, 'c) State" where
  "state_of cfg = \<lparr>st_value = fst cfg, st_context = fst (snd cfg)\<rparr>"

text \<open>
  A promise and the value it settles with. \<^verbatim>\<open>resolve\<close> settles a pending promise
  and does nothing to a settled one.
\<close>

datatype js_value = JSUndefined | JSNull | ErrorObject event_data

datatype promise = Pending | Resolved js_value | Rejected js_error

definition resolve :: "js_value \<Rightarrow> promise \<Rightarrow> promise" where
  "resolve v p = (case p of Pending \<Rightarrow> Resolved v | _ \<Rightarrow> p)"

section \<open>Shared steps\<close>

text \<open>
  \<^verbatim>\<open>getFilteredSiteFiles\<close> (helpers/ignoreFilesPattern.ts) is the concatenation of two
  globs below the site's path. The site's path is pasted into both patterns, so it is
  read as a pattern itself. A component without any of the characters
  \<^verbatim>\<open>* ? [ { (\<close> and the backslash stands for itself; then
  \<^verbatim>\<open>${sitePath}/!(conf)\<close> matches the entries directly inside the site's path whose
  name is none of \<open>excludePatterns\<close> (a glob wildcard does not match a name that starts
  with a dot), and \<^verbatim>\<open>${sitePath}/.*\<close> matches the entries directly inside the
  site's path whose name starts with a dot. For a path with such a character the answer
  is the library's (\<open>glob_magic\<close>, given the directory part, the last component of the
  pattern and the paths that exist).
\<close>

definition excludePatterns :: "string list" where
  "excludePatterns = [''conf'']"

definition dotfile :: "string \<Rightarrow> bool" where
  "dotfile n = (case n of [] \<Rightarrow> False | c # _ \<Rightarrow> c = CHR ''.'')"

definition hasMagic :: "string \<Rightarrow> bool" where
  "hasMagic n =
     list_ex (\<lambda>c. c \<in> set [CHR ''*'', CHR ''?'', CHR ''['', CHR ''{'', CHR ''('', CHR 0x5C]) n"

text \<open>\<^verbatim>\<open>excludePatterns.join('|')\<close>.\<close>

fun join_bar :: "string list \<Rightarrow> string" where
  "join_bar [] = []"
| "join_bar [x] = x"
| "join_bar (x # y # ys) = x @ ''|'' @ join_bar (y # ys)"

definition glob_sync :: "env \<Rightarrow> fpath list \<Rightarrow> fpath \<Rightarrow> string \<Rightarrow> (string \<Rightarrow> bool)
                          \<Rightarrow> fpath list" where
  "glob_sync env ps dir pattern matches =
     (if list_ex hasMagic dir then glob_magic env dir pattern ps
      else filter (\<lambda>q. length q = Suc (length dir) \<and> prefix dir q \<and> matches (last q)) ps)"

definition getFilteredSiteFiles :: "env \<Rightarrow> world \<Rightarrow> Site \<Rightarrow> fpath list" where
  "getFilteredSiteFiles env w site =
     (let sitePath = formatHomePath env (site_path site) in
      glob_sync env (fs w) sitePath (''!('' @ join_bar excludePatterns @ '')'')
        (\<lambda>n. n \<notin> set excludePatterns \<and> \<not> dotfile n)
      @ glob_sync env (fs w) sitePath ''.*'' dotfile)"

text \<open>
  \<^verbatim>\<open>createTmpDir\<close> (the same in both services): \<^verbatim>\<open>tmp.dirSync()\<close> creates the
  directory.
\<close>

definition createTmpDir :: "env \<Rightarrow> world \<Rightarrow> (js_error + event_data) \<times> world" where
  "createTmpDir env w =
     (case tmp_dirSync env of
        Inl e \<Rightarrow> (Inl e, w)
      | Inr d \<Rightarrow> (Inr (TmpDirData \<lparr>dir_name = d\<rparr>), w\<lparr>fs := List.insert d (fs w)\<rparr>))"

text \<open>
  The body of \<^verbatim>\<open>importDatabase\<close>, which the two services share word for word but
  for the site they build the model of: the restored site, or the destination site.
  Reading \<^verbatim>\<open>tmpDirData.name\<close> of a missing \<^verbatim>\<open>tmpDirData\<close>, and
  \<^verbatim>\<open>site.mysql.database\<close> of a site with no database, throws.
\<close>

definition importDatabase :: "env \<Rightarrow> Site \<Rightarrow> DirResult option \<Rightarrow> world
                               \<Rightarrow> (js_error + event_data) \<times> world" where
  "importDatabase env site tmpDirData w =
     (case tmpDirData of
        None \<Rightarrow> (Inl (TypeError ''Cannot read property name of null''), w)
      | Some tmp \<Rightarrow>
     (let sqlFile = dir_name tmp @ [''app'', ''sql'', backupSQLDumpFile env] in
      if \<not> existsSync w sqlFile then
        (Inr Undefined,
         logger (Warn ''No SQL file found in this backup: continuing without database restore'') w)
      else
        (case runSiteSQLCmd env site SELECT_SQL_MODE w of
           (Inl e, w1) \<Rightarrow> (Inl e, w1)
         | (Inr existingSqlMode, w1) \<Rightarrow>
        (case runSiteSQLCmd env site (SET_GLOBAL_SQL_MODE ''NO_AUTO_VALUE_ON_ZERO'') w1 of
           (Inl e, w2) \<Rightarrow> (Inl e, w2)
         | (Inr _, w2) \<Rightarrow>
        (case site_mysql_database site of
           None \<Rightarrow> (Inl (TypeError ''Cannot read property database of undefined''), w2)
         | Some database \<Rightarrow>
        (case runSiteSQLCmd env site (DROP_CREATE_DATABASE database) w2 of
           (Inl e, w3) \<Rightarrow> (Inl e, w3)
         | (Inr _, w3) \<Rightarrow>
        (case importSQLFile env site sqlFile w3 of
           (Inl e, w4) \<Rightarrow> (Inl e, w4)
         | (Inr _, w4) \<Rightarrow>
        (case runSiteSQLCmd env site (SET_GLOBAL_SQL_MODE existingSqlMode) w4 of
           (Inl e, w5) \<Rightarrow> (Inl e, w5)
         | (Inr _, w5) \<Rightarrow> (Inr Undefined, w5)))))))))"

text \<open>
  \<^verbatim>\<open>removeTmpDir\<close> (the same in both services) is an async function used as an
  action: what it throws rejects a promise that nobody reads, so that the machine is
  finished all the same. When \<^verbatim>\<open>fs.emptyDirSync\<close> throws, the callback is not
  called.
\<close>

definition removeTmpDir :: "env \<Rightarrow> DirResult option \<Rightarrow> world \<Rightarrow> world" where
  "removeTmpDir env tmpDirData w =
     (case tmpDirData of
        None \<Rightarrow> w
      | Some tmp \<Rightarrow>
          (case emptyDirSync env (dir_name tmp) (fs w) of
             (Some e, ps) \<Rightarrow> w\<lparr>fs := ps\<rparr>
           | (None, ps) \<Rightarrow> w\<lparr>fs := snd (removeCallback env (dir_name tmp) ps)\<rparr>))"

text \<open>
  The snapshot tool writes the snapshot's files (paths relative to the snapshot's root)
  into the directory it restores to. When it fails, some files may be written already.
\<close>

definition restic_restore :: "env \<Rightarrow> Site \<Rightarrow> Providers \<Rightarrow> string option \<Rightarrow> string \<Rightarrow> fpath
                               \<Rightarrow> world \<Rightarrow> (js_error + event_data) \<times> world" where
  "restic_restore env site provider encryptionPassword snapshotID restoreDir w =
     (case restoreResticBackup env site provider encryptionPassword snapshotID of
        Inl e \<Rightarrow>
          (Inl e,
           w\<lparr>fs := List.union (fs w)
                    (map (\<lambda>f. restoreDir @ f) (restoreResticBackup_partial env))\<rparr>)
      | Inr files \<Rightarrow>
          (Inr Undefined, w\<lparr>fs := List.union (fs w) (map (\<lambda>f. restoreDir @ f) files)\<rparr>))"

text \<open>
  \<^verbatim>\<open>Promise.all\<close> over the removals, which are all started before it is awaited.
  When no removal fails, every item is gone with everything inside it. When one fails,
  the promise rejects at once (here: with the error of the first one in the list that
  fails) and the other removals are not waited for: of the paths at or inside the items,
  those that \<open>fs_remove_done\<close> names are gone by then.
\<close>

definition remove_items :: "env \<Rightarrow> fpath list \<Rightarrow> fpath list \<Rightarrow> fpath list" where
  "remove_items env items ps =
     (if list_all (\<lambda>p. fs_remove_error env p = None) items then fold fs_remove items ps
      else filter (\<lambda>q. \<not> (list_ex (\<lambda>p. prefix p q) items \<and> fs_remove_done env q)) ps)"

definition remove_items_error :: "env \<Rightarrow> fpath list \<Rightarrow> js_error option" where
  "remove_items_error env items =
     (case filter (\<lambda>p. fs_remove_error env p \<noteq> None) items of
        [] \<Rightarrow> None
      | p # _ \<Rightarrow> fs_remove_error env p)"

section \<open>The restore service\<close>

text \<open>The \<^verbatim>\<open>BackupMachineContext\<close> of the restore service; a field that is null or
  undefined is \<open>None\<close>.\<close>

record RestoreContext =
  r_site :: Site
  r_initialSiteStatus :: string
  r_provider :: Providers
  r_snapshotID :: string
  r_encryptionPassword :: "string option"
  r_backupSiteID :: "nat option"
  r_localBackupRepoID :: "string option"
  r_tmpDirData :: "DirResult option"
  r_error :: "event_data option"

datatype restore_state =
    R_gettingBackupCredentials
  | R_creatingTmpDir
  | R_restoringBackup
  | R_movingSiteFromTmpDir
  | R_restoringDatabase
  | R_finished
  | R_failed

fun restore_state_value :: "restore_state \<Rightarrow> string" where
  "restore_state_value R_gettingBackupCredentials = ''gettingBackupCredentials''"
| "restore_state_value R_creatingTmpDir = ''creatingTmpDir''"
| "restore_state_value R_restoringBackup = ''restoringBackup''"
| "restore_state_value R_movingSiteFromTmpDir = ''movingSiteFromTmpDir''"
| "restore_state_value R_restoringDatabase = ''restoringDatabase''"
| "restore_state_value R_finished = ''finished''"
| "restore_state_value R_failed = ''failed''"

definition getCredentials_restore :: "env \<Rightarrow> RestoreContext \<Rightarrow> world
                                       \<Rightarrow> (js_error + event_data) \<times> world" where
  "getCredentials_restore env context w =
     (case getSiteDataFromDisk w (site_id (r_site context)) of
        None \<Rightarrow> (Inl (TypeError ''Cannot destructure property localBackupRepoID''), w)
      | Some onDisk \<Rightarrow>
          (case getBackupSite env (site_localBackupRepoID onDisk) of
             Inl e \<Rightarrow> (Inl e, w)
           | Inr b \<Rightarrow>
               (Inr (CredentialsData
                  \<lparr>cr_encryptionPassword = bs_password b,
                   cr_localBackupRepoID = bs_uuid b,
                   cr_backupSiteID = bs_id b\<rparr>), w)))"

definition restoreBackup :: "env \<Rightarrow> RestoreContext \<Rightarrow> world \<Rightarrow> (js_error + event_data) \<times> world" where
  "restoreBackup env context w =
     (case r_tmpDirData context of
        None \<Rightarrow> (Inl (TypeError ''Cannot read property name of null''), w)
      | Some tmp \<Rightarrow>
          restic_restore env (r_site context) (r_provider context)
            (r_encryptionPassword context) (r_snapshotID context) (dir_name tmp) w)"

text \<open>
  \<^verbatim>\<open>moveSiteFromTmpDir\<close> of the restore service. The copy is not attempted when a
  removal failed, and throws at once when the staging directory does not exist.
\<close>

definition moveSiteFromTmpDir_restore :: "env \<Rightarrow> RestoreContext \<Rightarrow> world
                                           \<Rightarrow> (js_error + event_data) \<times> world" where
  "moveSiteFromTmpDir_restore env context w =
     (let sitePath = formatHomePath env (site_path (r_site context));
          itemsToDelete = getFilteredSiteFiles env w (r_site context);
          w1 = logger (InfoRemoving itemsToDelete) w;
          w2 = w1\<lparr>fs := remove_items env itemsToDelete (fs w1)\<rparr>
      in case remove_items_error env itemsToDelete of
           Some e \<Rightarrow> (Inl e, w2)
         | None \<Rightarrow>
        (case r_tmpDirData context of
           None \<Rightarrow> (Inl (TypeError ''Cannot read property name of null''), w2)
         | Some tmp \<Rightarrow>
           if \<not> existsSync w2 (dir_name tmp) then
             (Inl (Error ''ENOENT: no such file or directory''), w2)
           else
             (case fs_copySync_error env (dir_name tmp) sitePath of
                Some e \<Rightarrow>
                  (Inl e, w2\<lparr>fs := copySync_partial env (dir_name tmp) sitePath (fs w2)\<rparr>)
              | None \<Rightarrow>
                  (Inr Undefined,
                   logger (InfoMoved (dir_name tmp) sitePath)
                     (w2\<lparr>fs := copySync (dir_name tmp) sitePath (fs w2)\<rparr>)))))"

definition importDatabase_restore :: "env \<Rightarrow> RestoreContext \<Rightarrow> world
                                       \<Rightarrow> (js_error + event_data) \<times> world" where
  "importDatabase_restore env context w =
     importDatabase env (r_site context) (r_tmpDirData context) w"

definition removeTmpDir_restore :: "env \<Rightarrow> RestoreContext action" where
  "removeTmpDir_restore env context ev w = (context, removeTmpDir env (r_tmpDirData context) w)"

definition setErrorOnContext_restore :: "RestoreContext action" where
  "setErrorOnContext_restore context ev w = (context\<lparr>r_error := Some (event_data_of ev)\<rparr>, w)"

definition logError_restore :: "RestoreContext action" where
  "logError_restore context ev w = (context, logger (ErrorLog (event_data_of ev)) w)"

text \<open>\<^verbatim>\<open>setErroredStatus\<close> of the restore service; the restart is not awaited.\<close>

definition setErroredStatus_restore :: "env \<Rightarrow> RestoreContext action" where
  "setErroredStatus_restore env context ev w =
     (let site = r_site context;
          w1 = sendIPCEvent (UpdateSiteStatus (site_id site) (r_initialSiteStatus context)) w;
          w2 = sendIPCEvent (ShowSiteBanner
                 \<lparr>b_siteID = site_id site,
                  b_id = ''site-errored-backup'',
                  b_variant = ''error'',
                  b_icon = ''warning'',
                  b_title = ''Backup errored!'',
                  b_message = ''There was an error while restoring your backup.''\<rparr>) w1
      in (context, snd (siteProcessManager_restart env site w2)))"

definition onErrorFactory_restore :: "env \<Rightarrow> (restore_state, RestoreContext) transition" where
  "onErrorFactory_restore env =
     (R_failed, [setErrorOnContext_restore, logError_restore, setErroredStatus_restore env])"

text \<open>The two \<^verbatim>\<open>assign\<close> actions of the done transitions.\<close>

definition assign_credentials_restore :: "RestoreContext action" where
  "assign_credentials_restore context ev w =
     (case event_data_of ev of
        CredentialsData cr \<Rightarrow>
          (context\<lparr>r_encryptionPassword := Some (cr_encryptionPassword cr),
                   r_backupSiteID := Some (cr_backupSiteID cr),
                   r_localBackupRepoID := Some (cr_localBackupRepoID cr)\<rparr>, w)
      | _ \<Rightarrow>
          (context\<lparr>r_encryptionPassword := None, r_backupSiteID := None,
                   r_localBackupRepoID := None\<rparr>, w))"

definition assign_tmpDirData_restore :: "RestoreContext action" where
  "assign_tmpDirData_restore context ev w =
     (case event_data_of ev of
        TmpDirData tmp \<Rightarrow> (context\<lparr>r_tmpDirData := Some tmp\<rparr>, w)
      | _ \<Rightarrow> (context\<lparr>r_tmpDirData := None\<rparr>, w))"

definition restoreMachine :: "env \<Rightarrow> (restore_state, RestoreContext) machine" where
  "restoreMachine env s =
     (case s of
        R_gettingBackupCredentials \<Rightarrow>
          Invoke (getCredentials_restore env)
            (R_creatingTmpDir, [assign_credentials_restore])
            (onErrorFactory_restore env)
      | R_creatingTmpDir \<Rightarrow>
          Invoke (\<lambda>context. createTmpDir env)
            (R_restoringBackup, [assign_tmpDirData_restore])
            (onErrorFactory_restore env)
      | R_restoringBackup \<Rightarrow>
          Invoke (restoreBackup env)
            (R_movingSiteFromTmpDir, [])
            (onErrorFactory_restore env)
      | R_movingSiteFromTmpDir \<Rightarrow>
          Invoke (moveSiteFromTmpDir_restore env)
            (R_restoringDatabase, [])
            (onErrorFactory_restore env)
      | R_restoringDatabase \<Rightarrow>
          Invoke (importDatabase_restore env)
            (R_finished, [])
            (onErrorFactory_restore env)
      | R_finished \<Rightarrow> Final [removeTmpDir_restore env]
      | R_failed \<Rightarrow> Final [])"

text \<open>
  The listeners of \<^verbatim>\<open>restoreFromBackup\<close>. The stop listener reads the property
  \<^verbatim>\<open>error\<close> of the interpreter's state object. That object has no such property
  (the error that \<^verbatim>\<open>setErrorOnContext\<close> assigns is a property of its
  \<^verbatim>\<open>context\<close>), so the destructuring gives undefined.
\<close>

definition State_error :: "('s, 'c) State \<Rightarrow> event_data" where
  "State_error st = Undefined"

definition truthy :: "event_data \<Rightarrow> bool" where
  "truthy d = (d \<noteq> Undefined)"

definition onTransition_restore :: "env \<Rightarrow> restore_state \<Rightarrow> world \<Rightarrow> world" where
  "onTransition_restore env state w =
     logger (Info (camelCaseToSentence env (restore_state_value state)))
       (sendIPCEvent BACKUP_STARTED w)"

definition onStop :: "('s, 'c) config \<Rightarrow> promise \<Rightarrow> promise \<times> world" where
  "onStop cfg p =
     (let w1 = (snd (snd cfg))\<lparr>inProgressStateMachine := None\<rparr>;
          error = State_error (state_of cfg);
          w2 = sendIPCEvent BACKUP_COMPLETED w1;
          p1 = (if truthy error then resolve (ErrorObject error) p else p)
      in (resolve JSNull p1, w2))"

record restore_opts =
  ro_site :: Site
  ro_provider :: Providers
  ro_snapshotID :: string

definition restore_initial_context :: "env \<Rightarrow> restore_opts \<Rightarrow> RestoreContext" where
  "restore_initial_context env opts =
     \<lparr>r_site = ro_site opts,
      r_initialSiteStatus = getSiteStatus env (ro_site opts),
      r_provider = ro_provider opts,
      r_snapshotID = ro_snapshotID opts,
      r_encryptionPassword = None,
      r_backupSiteID = None,
      r_localBackupRepoID = None,
      r_tmpDirData = None,
      r_error = None\<rparr>"

text \<open>
  The configurations a restore goes through once it is admitted: the slot is set, then
  the service is started.
\<close>

definition restore_run :: "env \<Rightarrow> restore_opts \<Rightarrow> world
                            \<Rightarrow> (restore_state, RestoreContext) config list option" where
  "restore_run env opts w =
     interpret_machine (restoreMachine env) (onTransition_restore env)
       (start (restoreMachine env) (onTransition_restore env) R_gettingBackupCredentials
          (restore_initial_context env opts)
          (w\<lparr>inProgressStateMachine := Some RestoreService\<rparr>))"

text \<open>
  \<^verbatim>\<open>restoreFromBackup\<close>: the promise it returns and the world it leaves;
  \<open>None\<close> when the machine never stops, so that the promise stays pending.
\<close>

definition restoreFromBackup :: "env \<Rightarrow> restore_opts \<Rightarrow> world \<Rightarrow> (promise \<times> world) option" where
  "restoreFromBackup env opts w =
     (if inProgressStateMachine w \<noteq> None then
        Some (Resolved JSUndefined,
              logger (Warn ''Restore process aborted: only one backup or restore process is allowed at one time and a backup or restore is already in progress.'') w)
      else
        (case restore_run env opts w of
           None \<Rightarrow> None
         | Some cfgs \<Rightarrow> Some (onStop (last cfgs) Pending)))"

section \<open>The clone service\<close>

record CloneContext =
  c_baseSite :: Site
  c_destinationSite :: "Site option"
  c_provider :: Providers
  c_snapshotHash :: string
  c_encryptionPassword :: "string option"
  c_backupSiteID :: "nat option"
  c_localBackupRepoID :: "string option"
  c_tmpDirData :: "DirResult option"
  c_error :: "event_data option"
  c_newSiteName :: string

datatype clone_state =
    C_gettingBackupCredentials
  | C_setupDestinationSite
  | C_creatingTmpDir
  | C_cloningBackup
  | C_movingSiteFromTmpDir
  | C_provisioningSite
  | C_restoringDatabase
  | C_searchReplaceDomain
  | C_finished
  | C_failed

fun clone_state_value :: "clone_state \<Rightarrow> string" where
  "clone_state_value C_gettingBackupCredentials = ''gettingBackupCredentials''"
| "clone_state_value C_setupDestinationSite = ''setupDestinationSite''"
| "clone_state_value C_creatingTmpDir = ''creatingTmpDir''"
| "clone_state_value C_cloningBackup = ''cloningBackup''"
| "clone_state_value C_movingSiteFromTmpDir = ''movingSiteFromTmpDir''"
| "clone_state_value C_provisioningSite = ''provisioningSite''"
| "clone_state_value C_restoringDatabase = ''restoringDatabase''"
| "clone_state_value C_searchReplaceDomain = ''searchReplaceDomain''"
| "clone_state_value C_finished = ''finished''"
| "clone_state_value C_failed = ''failed''"

definition siteDomainTakenError :: string where
  "siteDomainTakenError = ''Site name is already taken by another site!''"

definition getCredentials_clone :: "env \<Rightarrow> CloneContext \<Rightarrow> world
                                     \<Rightarrow> (js_error + event_data) \<times> world" where
  "getCredentials_clone env context w =
     (case getSiteDataFromDisk w (site_id (c_baseSite context)) of
        None \<Rightarrow> (Inl (TypeError ''Cannot destructure property localBackupRepoID''), w)
      | Some onDisk \<Rightarrow>
          (case getBackupSite env (site_localBackupRepoID onDisk) of
             Inl e \<Rightarrow> (Inl e, w)
           | Inr b \<Rightarrow>
               (Inr (CredentialsData
                  \<lparr>cr_encryptionPassword = bs_password b,
                   cr_localBackupRepoID = bs_uuid b,
                   cr_backupSiteID = bs_id b\<rparr>), w)))"

text \<open>\<^verbatim>\<open>toLowerCase\<close>, on the letters A to Z.\<close>

definition toLowerCase :: "string \<Rightarrow> string" where
  "toLowerCase str =
     map (\<lambda>c. case map_of (zip ''ABCDEFGHIJKLMNOPQRSTUVWXYZ'' ''abcdefghijklmnopqrstuvwxyz'') c of
                 None \<Rightarrow> c
               | Some l \<Rightarrow> l) str"

text \<open>
  Modelled from the spec: \<^verbatim>\<open>checkForDuplicateSiteName\<close> of the helpers is not among
  the sources. The requested name collides with an existing site's name when the two
  are equal without regard to case, or have the same normalized (formatted) form.
\<close>

definition checkForDuplicateSiteName :: "env \<Rightarrow> world \<Rightarrow> string \<Rightarrow> string \<Rightarrow> bool" where
  "checkForDuplicateSiteName env w newSiteName formattedSiteName =
     list_ex (\<lambda>entry.
        toLowerCase (site_name (snd entry)) = toLowerCase newSiteName
        \<or> toLowerCase (formatSiteNicename env (site_name (snd entry)))
            = toLowerCase formattedSiteName) (sites w)"

definition showErrorBox :: "string \<Rightarrow> string \<Rightarrow> world \<Rightarrow> world" where
  "showErrorBox title content w = w\<lparr>dialogs := dialogs w @ [(title, content)]\<rparr>"

text \<open>
  \<^verbatim>\<open>path.join(dir, name)\<close>: the name is cut at its slashes; an empty component and
  \<^verbatim>\<open>.\<close> are dropped and \<^verbatim>\<open>..\<close> goes up one directory.
\<close>

fun path_segments :: "string \<Rightarrow> string list" where
  "path_segments [] = [[]]"
| "path_segments (c # cs) =
     (if c = CHR ''/'' then [] # path_segments cs
      else (case path_segments cs of
              [] \<Rightarrow> [[c]]
            | seg # segs \<Rightarrow> (c # seg) # segs))"

definition path_join :: "fpath \<Rightarrow> string \<Rightarrow> fpath" where
  "path_join dir name =
     fold (\<lambda>seg acc. if seg = [] \<or> seg = ''.'' then acc
                      else if seg = ''..'' then butlast acc
                      else acc @ [seg])
       (path_segments name) dir"

text \<open>\<^verbatim>\<open>setupDestinationSite\<close>; \<^verbatim>\<open>path.dirname\<close> drops the last component.\<close>

definition setupDestinationSite :: "env \<Rightarrow> CloneContext \<Rightarrow> world
                                     \<Rightarrow> (js_error + event_data) \<times> world" where
  "setupDestinationSite env context w =
     (let baseSite = c_baseSite context;
          newSiteName = c_newSiteName context;
          formattedSiteName = formatSiteNicename env newSiteName;
          duplicateSiteName = checkForDuplicateSiteName env w newSiteName formattedSiteName
      in if duplicateSiteName then
           (Inl (Error siteDomainTakenError),
            showErrorBox ''Invalid Site Name''
              (newSiteName @ '' is already taken by another site. Please choose a different name.'') w)
         else
           (let dupID = shortid_generate env;
                localSitesDir = butlast (site_path baseSite);
                dupSite = baseSite\<lparr>site_id := dupID,
                                   site_name := newSiteName,
                                   site_domain := formattedSiteName @ ''.local'',
                                   site_path := path_join localSitesDir formattedSiteName\<rparr>;
                w1 = addSite (site_id dupSite) dupSite w
            in case getSiteDataFromDisk w1 (site_id dupSite) of
                 None \<Rightarrow>
                   (Inl (TypeError ''Cannot read property id of undefined''),
                    sendIPCEvent (SelectSite (site_id dupSite) True True) w1)
               | Some destinationSite \<Rightarrow>
                   (Inr (DestinationSiteData destinationSite),
                    sendIPCEvent (UpdateSiteMessage (site_id destinationSite)
                                    ''Restoring your site backup'')
                      (sendIPCEvent (UpdateSiteStatus (site_id destinationSite) ''provisioning'')
                         (sendIPCEvent (SelectSite (site_id dupSite) True True) w1)))))"

definition provisionSite :: "env \<Rightarrow> CloneContext \<Rightarrow> world \<Rightarrow> (js_error + event_data) \<times> world" where
  "provisionSite env context w =
     (case c_destinationSite context of
        None \<Rightarrow> (Inl (TypeError ''Cannot read properties of null''), w)
      | Some siteToProvision \<Rightarrow>
          (let w1 = w\<lparr>provisioned := provisioned w @ [siteToProvision]\<rparr> in
           case provision_error env siteToProvision of
             Some e \<Rightarrow> (Inl e, w1)
           | None \<Rightarrow> (Inr Undefined, w1)))"

definition importDatabase_clone :: "env \<Rightarrow> CloneContext \<Rightarrow> world
                                     \<Rightarrow> (js_error + event_data) \<times> world" where
  "importDatabase_clone env context w =
     (case c_destinationSite context of
        None \<Rightarrow> (Inl (TypeError ''Cannot read properties of null''), w)
      | Some site \<Rightarrow> importDatabase env site (c_tmpDirData context) w)"

definition searchReplace :: "env \<Rightarrow> CloneContext \<Rightarrow> world \<Rightarrow> (js_error + event_data) \<times> world" where
  "searchReplace env context w =
     (case c_destinationSite context of
        None \<Rightarrow> (Inl (TypeError ''Cannot read properties of null''), w)
      | Some siteToSearchReplace \<Rightarrow>
          (let w1 = sendIPCEvent (UpdateSiteStatus (site_id siteToSearchReplace) ''provisioning'') w;
               w2 = sendIPCEvent (UpdateSiteMessage (site_id siteToSearchReplace)
                                    ''Changing site domain'') w1
           in case waitForDB_error env siteToSearchReplace of
                Some e \<Rightarrow> (Inl e, w2)
              | None \<Rightarrow>
             (case changeSiteDomainToHost_error env siteToSearchReplace of
                Some e \<Rightarrow> (Inl e, w2)
              | None \<Rightarrow>
             (case siteProcessManager_restart env siteToSearchReplace w2 of
                (Inl e, w3) \<Rightarrow> (Inl e, w3)
              | (Inr _, w3) \<Rightarrow> (Inr Undefined, w3)))))"

text \<open>\<^verbatim>\<open>moveSiteFromTmpDir\<close> of the clone service: no removal, only the copy.\<close>

definition moveSiteFromTmpDir_clone :: "env \<Rightarrow> CloneContext \<Rightarrow> world
                                         \<Rightarrow> (js_error + event_data) \<times> world" where
  "moveSiteFromTmpDir_clone env context w =
     (case c_destinationSite context of
        None \<Rightarrow> (Inl (TypeError ''Cannot read property path of null''), w)
      | Some destinationSite \<Rightarrow>
     (let sitePath = formatHomePath env (site_path destinationSite) in
      case c_tmpDirData context of
        None \<Rightarrow> (Inl (TypeError ''Cannot read property name of null''), w)
      | Some tmp \<Rightarrow>
        if \<not> existsSync w (dir_name tmp) then
          (Inl (Error ''ENOENT: no such file or directory''), w)
        else
          (case fs_copySync_error env (dir_name tmp) sitePath of
             Some e \<Rightarrow>
               (Inl e, w\<lparr>fs := copySync_partial env (dir_name tmp) sitePath (fs w)\<rparr>)
           | None \<Rightarrow>
               (Inr Undefined,
                logger (InfoMoved (dir_name tmp) sitePath)
                  (w\<lparr>fs := copySync (dir_name tmp) sitePath (fs w)\<rparr>)))))"

definition cloneBackup :: "env \<Rightarrow> CloneContext \<Rightarrow> world \<Rightarrow> (js_error + event_data) \<times> world" where
  "cloneBackup env context w =
     (case c_tmpDirData context of
        None \<Rightarrow> (Inl (TypeError ''Cannot read property name of null''), w)
      | Some tmp \<Rightarrow>
          restic_restore env (c_baseSite context) (c_provider context)
            (c_encryptionPassword context) (c_snapshotHash context) (dir_name tmp) w)"

definition removeTmpDir_clone :: "env \<Rightarrow> CloneContext action" where
  "removeTmpDir_clone env context ev w = (context, removeTmpDir env (c_tmpDirData context) w)"

definition setErrorOnContext_clone :: "CloneContext action" where
  "setErrorOnContext_clone context ev w = (context\<lparr>c_error := Some (event_data_of ev)\<rparr>, w)"

definition logError_clone :: "CloneContext action" where
  "logError_clone context ev w = (context, logger (ErrorLog (event_data_of ev)) w)"

definition setErroredBaseSite :: "CloneContext action" where
  "setErroredBaseSite context ev w =
     (let baseSite = c_baseSite context;
          w1 = sendIPCEvent (GoToRoute (''/main/site-info/'' @ site_id baseSite)) w
      in (context,
          sendIPCEvent (ShowSiteBanner
             \<lparr>b_siteID = site_id baseSite,
              b_id = ''site-errored-backup-cloning'',
              b_variant = ''error'',
              b_icon = ''warning'',
              b_title = ''Cloning errored!'',
              b_message = ''There was an error while cloning your backup!''\<rparr>) w1))"

definition setErroredStatus_clone :: "CloneContext action" where
  "setErroredStatus_clone context ev w =
     (let destinationSite = c_destinationSite context;
          baseSite = c_baseSite context;
          w1 = sendIPCEvent (DeleteSite destinationSite True) w;
          w2 = sendIPCEvent (GoToRoute (''/main/site-info/'' @ site_id baseSite)) w1
      in (context,
          sendIPCEvent (ShowSiteBanner
             \<lparr>b_siteID = site_id baseSite,
              b_id = ''site-errored-backup-cloning'',
              b_variant = ''error'',
              b_icon = ''warning'',
              b_title = ''Cloning from backup errored!'',
              b_message = ''There was an error while restoring your backup. Check your Local log for more details.''\<rparr>) w2))"

definition onBaseSiteErrorFactory :: "(clone_state, CloneContext) transition" where
  "onBaseSiteErrorFactory =
     (C_failed, [setErrorOnContext_clone, logError_clone, setErroredBaseSite])"

definition onErrorFactory_clone :: "(clone_state, CloneContext) transition" where
  "onErrorFactory_clone =
     (C_failed, [setErrorOnContext_clone, logError_clone, setErroredStatus_clone])"

definition assign_credentials_clone :: "CloneContext action" where
  "assign_credentials_clone context ev w =
     (case event_data_of ev of
        CredentialsData cr \<Rightarrow>
          (context\<lparr>c_encryptionPassword := Some (cr_encryptionPassword cr),
                   c_backupSiteID := Some (cr_backupSiteID cr),
                   c_localBackupRepoID := Some (cr_localBackupRepoID cr)\<rparr>, w)
      | _ \<Rightarrow>
          (context\<lparr>c_encryptionPassword := None, c_backupSiteID := None,
                   c_localBackupRepoID := None\<rparr>, w))"

definition assign_destinationSite :: "CloneContext action" where
  "assign_destinationSite context ev w =
     (case event_data_of ev of
        DestinationSiteData site \<Rightarrow> (context\<lparr>c_destinationSite := Some site\<rparr>, w)
      | _ \<Rightarrow> (context\<lparr>c_destinationSite := None\<rparr>, w))"

definition assign_tmpDirData_clone :: "CloneContext action" where
  "assign_tmpDirData_clone context ev w =
     (case event_data_of ev of
        TmpDirData tmp \<Rightarrow> (context\<lparr>c_tmpDirData := Some tmp\<rparr>, w)
      | _ \<Rightarrow> (context\<lparr>c_tmpDirData := None\<rparr>, w))"

definition cloneMachine :: "env \<Rightarrow> (clone_state, CloneContext) machine" where
  "cloneMachine env s =
     (case s of
        C_gettingBackupCredentials \<Rightarrow>
          Invoke (getCredentials_clone env)
            (C_setupDestinationSite, [assign_credentials_clone])
            onBaseSiteErrorFactory
      | C_setupDestinationSite \<Rightarrow>
          Invoke (setupDestinationSite env)
            (C_creatingTmpDir, [assign_destinationSite])
            onBaseSiteErrorFactory
      | C_creatingTmpDir \<Rightarrow>
          Invoke (\<lambda>context. createTmpDir env)
            (C_cloningBackup, [assign_tmpDirData_clone])
            onErrorFactory_clone
      | C_cloningBackup \<Rightarrow>
          Invoke (cloneBackup env)
            (C_movingSiteFromTmpDir, [])
            onErrorFactory_clone
      | C_movingSiteFromTmpDir \<Rightarrow>
          Invoke (moveSiteFromTmpDir_clone env)
            (C_provisioningSite, [])
            onErrorFactory_clone
      | C_provisioningSite \<Rightarrow>
          Invoke (provisionSite env)
            (C_restoringDatabase, [])
            onErrorFactory_clone
      | C_restoringDatabase \<Rightarrow>
          Invoke (importDatabase_clone env)
            (C_searchReplaceDomain, [])
            onErrorFactory_clone
      | C_searchReplaceDomain \<Rightarrow>
          Invoke (searchReplace env)
            (C_finished, [])
            onErrorFactory_clone
      | C_finished \<Rightarrow> Final [removeTmpDir_clone env]
      | C_failed \<Rightarrow> Final [])"

definition onTransition_clone :: "env \<Rightarrow> clone_state \<Rightarrow> world \<Rightarrow> world" where
  "onTransition_clone env state w =
     logger (Info (camelCaseToSentence env (clone_state_value state)))
       (sendIPCEvent BACKUP_STARTED w)"

record clone_opts =
  co_baseSite :: Site
  co_provider :: Providers
  co_snapshotHash :: string
  co_newSiteName :: string

definition clone_initial_context :: "clone_opts \<Rightarrow> CloneContext" where
  "clone_initial_context opts =
     \<lparr>c_baseSite = co_baseSite opts,
      c_destinationSite = None,
      c_provider = co_provider opts,
      c_snapshotHash = co_snapshotHash opts,
      c_encryptionPassword = None,
      c_backupSiteID = None,
      c_localBackupRepoID = None,
      c_tmpDirData = None,
      c_error = None,
      c_newSiteName = co_newSiteName opts\<rparr>"

definition clone_run :: "env \<Rightarrow> clone_opts \<Rightarrow> world
                          \<Rightarrow> (clone_state, CloneContext) config list option" where
  "clone_run env opts w =
     interpret_machine (cloneMachine env) (onTransition_clone env)
       (start (cloneMachine env) (onTransition_clone env) C_gettingBackupCredentials
          (clone_initial_context opts)
          (w\<lparr>inProgressStateMachine := Some CloneService\<rparr>))"

definition cloneFromBackup :: "env \<Rightarrow> clone_opts \<Rightarrow> world \<Rightarrow> (promise \<times> world) option" where
  "cloneFromBackup env opts w =
     (if inProgressStateMachine w \<noteq> None then
        Some (Resolved JSUndefined,
              logger (Warn ''Restore process aborted: only one backup or restore process is allowed at one time and a backup or restore is already in progress.'') w)
      else
        (case clone_run env opts w of
           None \<Rightarrow> None
         | Some cfgs \<Rightarrow> Some (onStop (last cfgs) Pending)))"

section \<open>Notions used to state the properties\<close>

text \<open>
  The documented order of the steps, in the state names of the two machines:
  gettingCredentials is \<^verbatim>\<open>gettingBackupCredentials\<close>, settingUpDestination is
  \<^verbatim>\<open>setupDestinationSite\<close>, creatingStagingDir is \<^verbatim>\<open>creatingTmpDir\<close>,
  transferringSnapshot is \<^verbatim>\<open>restoringBackup\<close> or \<^verbatim>\<open>cloningBackup\<close>,
  applyingFilesystem is \<^verbatim>\<open>movingSiteFromTmpDir\<close>, provisioning is
  \<^verbatim>\<open>provisioningSite\<close>, applyingDatabase is \<^verbatim>\<open>restoringDatabase\<close> and
  rewritingDomain is \<^verbatim>\<open>searchReplaceDomain\<close>.
\<close>

definition restore_order :: "restore_state list" where
  "restore_order = [R_gettingBackupCredentials, R_creatingTmpDir, R_restoringBackup,
                    R_movingSiteFromTmpDir, R_restoringDatabase]"

definition clone_order :: "clone_state list" where
  "clone_order = [C_gettingBackupCredentials, C_setupDestinationSite, C_creatingTmpDir,
                  C_cloningBackup, C_movingSiteFromTmpDir, C_provisioningSite,
                  C_restoringDatabase, C_searchReplaceDomain]"

text \<open>
  The states a run visited follow an order: either all of them and then the finished
  state, or a non-empty initial part of them and then the failed state.
\<close>

definition follows_order :: "'s list \<Rightarrow> 's \<Rightarrow> 's \<Rightarrow> 's list \<Rightarrow> bool" where
  "follows_order order fin fl visited =
     (visited = order @ [fin] \<or> (\<exists>p. p \<noteq> [] \<and> prefix p order \<and> visited = p @ [fl]))"

text \<open>Two worlds that differ at most in the logger's lines.\<close>

definition eq_upto_logs :: "world \<Rightarrow> world \<Rightarrow> bool" where
  "eq_upto_logs w w' = (w'\<lparr>logs := []\<rparr> = w\<lparr>logs := []\<rparr>)"

definition eq_config_upto_logs :: "('s, 'c) config \<Rightarrow> ('s, 'c) config \<Rightarrow> bool" where
  "eq_config_upto_logs a b =
     (fst a = fst b \<and> fst (snd a) = fst (snd b) \<and> eq_upto_logs (snd (snd a)) (snd (snd b)))"

fun is_DeleteSite :: "ipc_event \<Rightarrow> bool" where
  "is_DeleteSite (DeleteSite _ _) = True"
| "is_DeleteSite _ = False"

definition busy_warning :: log_entry where
  "busy_warning = Warn ''Restore process aborted: only one backup or restore process is allowed at one time and a backup or restore is already in progress.''"

definition no_sql_warning :: log_entry where
  "no_sql_warning = Warn ''No SQL file found in this backup: continuing without database restore''"

text \<open>The configuration the error transition of the restore machine leads to, and
  those of the two error transitions of the clone machine.\<close>

definition restore_failure :: "env \<Rightarrow> js_error \<Rightarrow> RestoreContext \<Rightarrow> world
                                \<Rightarrow> (restore_state, RestoreContext) config" where
  "restore_failure env e c w =
     (R_failed, c\<lparr>r_error := Some (ErrorData e)\<rparr>,
      onTransition_restore env R_failed
        (snd (setErroredStatus_restore env (c\<lparr>r_error := Some (ErrorData e)\<rparr>) (ErrorPlatform e)
           (logger (ErrorLog (ErrorData e)) w))))"

definition clone_base_failure :: "env \<Rightarrow> js_error \<Rightarrow> CloneContext \<Rightarrow> world
                                   \<Rightarrow> (clone_state, CloneContext) config" where
  "clone_base_failure env e c w =
     (C_failed, c\<lparr>c_error := Some (ErrorData e)\<rparr>,
      onTransition_clone env C_failed
        (snd (setErroredBaseSite (c\<lparr>c_error := Some (ErrorData e)\<rparr>) (ErrorPlatform e)
           (logger (ErrorLog (ErrorData e)) w))))"

definition clone_failure :: "env \<Rightarrow> js_error \<Rightarrow> CloneContext \<Rightarrow> world
                              \<Rightarrow> (clone_state, CloneContext) config" where
  "clone_failure env e c w =
     (C_failed, c\<lparr>c_error := Some (ErrorData e)\<rparr>,
      onTransition_clone env C_failed
        (snd (setErroredStatus_clone (c\<lparr>c_error := Some (ErrorData e)\<rparr>) (ErrorPlatform e)
           (logger (ErrorLog (ErrorData e)) w))))"

text \<open>
  The dump file exists and the three queries that come before the import succeed: the
  mode is read, the permissive mode is set, the database is dropped and created.
\<close>

definition sqlFile_of :: "env \<Rightarrow> DirResult \<Rightarrow> fpath" where
  "sqlFile_of env tmp = dir_name tmp @ [''app'', ''sql'', backupSQLDumpFile env]"

definition database_reset_succeeds :: "env \<Rightarrow> Site \<Rightarrow> DirResult \<Rightarrow> string \<Rightarrow> world \<Rightarrow> bool" where
  "database_reset_succeeds env site tmp database w =
     (existsSync w (sqlFile_of env tmp)
      \<and> runSiteSQLCmd_error env site SELECT_SQL_MODE = None
      \<and> runSiteSQLCmd_error env site (SET_GLOBAL_SQL_MODE ''NO_AUTO_VALUE_ON_ZERO'') = None
      \<and> site_mysql_database site = Some database
      \<and> runSiteSQLCmd_error env site (DROP_CREATE_DATABASE database) = None)"

definition commands_up_to_import :: "env \<Rightarrow> Site \<Rightarrow> DirResult \<Rightarrow> string \<Rightarrow> (string \<times> sql_cmd) list" where
  "commands_up_to_import env site tmp database =
     [(site_id site, RunQuery SELECT_SQL_MODE),
      (site_id site, RunQuery (SET_GLOBAL_SQL_MODE ''NO_AUTO_VALUE_ON_ZERO'')),
      (site_id site, RunQuery (DROP_CREATE_DATABASE database)),
      (site_id site, ImportSQLFile (sqlFile_of env tmp))]"

text \<open>A run failed in the state s: the last state visited is the failed state and the
  one before it is s.\<close>

definition failed_in :: "'s \<Rightarrow> 's \<Rightarrow> 's list \<Rightarrow> bool" where
  "failed_in fl s visited =
     (2 \<le> length visited \<and> last visited = fl \<and> visited ! (length visited - 2) = s)"

text \<open>The service a state of a machine invokes.\<close>

definition service_of :: "('s, 'c) machine \<Rightarrow> 's
                           \<Rightarrow> ('c \<Rightarrow> world \<Rightarrow> (js_error + event_data) \<times> world) option" where
  "service_of m s = (case m s of Invoke src _ _ \<Rightarrow> Some src | Final _ \<Rightarrow> None)"

text \<open>The three error banners, for the site with the given id.\<close>

definition errored_banner_restore :: "string \<Rightarrow> banner" where
  "errored_banner_restore i =
     \<lparr>b_siteID = i, b_id = ''site-errored-backup'', b_variant = ''error'', b_icon = ''warning'',
      b_title = ''Backup errored!'',
      b_message = ''There was an error while restoring your backup.''\<rparr>"

definition errored_banner_clone :: "string \<Rightarrow> banner" where
  "errored_banner_clone i =
     \<lparr>b_siteID = i, b_id = ''site-errored-backup-cloning'', b_variant = ''error'',
      b_icon = ''warning'', b_title = ''Cloning from backup errored!'',
      b_message = ''There was an error while restoring your backup. Check your Local log for more details.''\<rparr>"

definition errored_banner_base :: "string \<Rightarrow> banner" where
  "errored_banner_base i =
     \<lparr>b_siteID = i, b_id = ''site-errored-backup-cloning'', b_variant = ''error'',
      b_icon = ''warning'', b_title = ''Cloning errored!'',
      b_message = ''There was an error while cloning your backup!''\<rparr>"

text \<open>The states of a clone that come after the set-up of the destination site, and
  those that come after the creation of the staging directory; the states of a restore
  that come after the creation of the staging directory.\<close>

definition after_setup :: "clone_state set" where
  "after_setup = {C_creatingTmpDir, C_cloningBackup, C_movingSiteFromTmpDir, C_provisioningSite,
                  C_restoringDatabase, C_searchReplaceDomain}"

definition after_staging :: "clone_state set" where
  "after_staging = {C_cloningBackup, C_movingSiteFromTmpDir, C_provisioningSite,
                    C_restoringDatabase, C_searchReplaceDomain}"

definition after_staging_restore :: "restore_state set" where
  "after_staging_restore = {R_restoringBackup, R_movingSiteFromTmpDir, R_restoringDatabase}"

text \<open>The removals of a restore's file-system step spare the path d: d is not at or
  inside one of the paths chosen in the world w.\<close>

definition spared :: "env \<Rightarrow> fpath \<Rightarrow> Site \<Rightarrow> world \<Rightarrow> bool" where
  "spared env d site w = list_all (\<lambda>p. \<not> prefix p d) (getFilteredSiteFiles env w site)"

definition staging_spared :: "env \<Rightarrow> fpath \<Rightarrow> (restore_state, RestoreContext) config \<Rightarrow> bool" where
  "staging_spared env d cfg =
     (fst cfg = R_movingSiteFromTmpDir \<longrightarrow> spared env d (r_site (fst (snd cfg))) (snd (snd cfg)))"

text \<open>While a restore goes on, from the state that follows the creation of the staging
  directory, the context names the directory and the directory exists.\<close>

definition staged_restore :: "Site \<Rightarrow> fpath \<Rightarrow> (restore_state, RestoreContext) config \<Rightarrow> bool" where
  "staged_restore site d cfg =
     (r_site (fst (snd cfg)) = site
      \<and> (fst cfg \<in> {R_restoringBackup, R_movingSiteFromTmpDir, R_restoringDatabase} \<longrightarrow>
           r_tmpDirData (fst (snd cfg)) = Some \<lparr>dir_name = d\<rparr> \<and> d \<in> set (fs (snd (snd cfg)))))"

text \<open>
  While a clone goes on, from the state that follows the set-up of the destination
  site, the context holds the destination site and the registry holds it under its
  id; from the state that follows the creation of the staging directory, the context
  names the directory and the directory exists; up to the set-up of the destination
  site, the registry and the disk are as they were and no site was asked to be deleted.
\<close>

definition set_up_clone :: "(clone_state, CloneContext) config \<Rightarrow> bool" where
  "set_up_clone cfg =
     (fst cfg \<in> after_setup \<longrightarrow>
        (\<exists>dest. c_destinationSite (fst (snd cfg)) = Some dest
               \<and> map_of (sites (snd (snd cfg))) (site_id dest) = Some dest))"

definition staged_clone :: "env \<Rightarrow> (clone_state, CloneContext) config \<Rightarrow> bool" where
  "staged_clone env cfg =
     (fst cfg \<in> after_staging \<longrightarrow>
        (\<exists>d. tmp_dirSync env = Inr d \<and> c_tmpDirData (fst (snd cfg)) = Some \<lparr>dir_name = d\<rparr>
            \<and> d \<in> set (fs (snd (snd cfg)))))"

definition untouched_clone :: "world \<Rightarrow> (clone_state, CloneContext) config \<Rightarrow> bool" where
  "untouched_clone w0 cfg =
     (fst cfg \<in> {C_gettingBackupCredentials, C_setupDestinationSite} \<longrightarrow>
        c_destinationSite (fst (snd cfg)) = None \<and> c_tmpDirData (fst (snd cfg)) = None
        \<and> sites (snd (snd cfg)) = sites w0 \<and> fs (snd (snd cfg)) = fs w0
        \<and> provisioned (snd (snd cfg)) = provisioned w0
        \<and> filter is_DeleteSite (ipc (snd (snd cfg))) = filter is_DeleteSite (ipc w0))"

text \<open>Nothing was created for a clone: the machine is in one of its first two states
  or has failed, the registry, the disk and the provisioner are as they were, and the
  context holds neither a destination site nor a staging directory.\<close>

definition nothing_created :: "world \<Rightarrow> (clone_state, CloneContext) config \<Rightarrow> bool" where
  "nothing_created w0 cfg =
     (fst cfg \<in> {C_gettingBackupCredentials, C_setupDestinationSite, C_failed}
      \<and> sites (snd (snd cfg)) = sites w0 \<and> fs (snd (snd cfg)) = fs w0
      \<and> provisioned (snd (snd cfg)) = provisioned w0
      \<and> c_destinationSite (fst (snd cfg)) = None \<and> c_tmpDirData (fst (snd cfg)) = None)"

subsection \<open>A concrete site, its collaborators and its world\<close>

text \<open>The paths of the example hold no character of the pattern syntax, so that
  \<open>glob_magic\<close> is not consulted; where a call fails, nothing was removed or written
  ahead of the failure.\<close>

definition ex_site :: Site where
  "ex_site = \<lparr>site_id = ''s1'', site_name = ''Blog'', site_path = [''sites'', ''blog''],
              site_domain = ''blog.local'', site_mysql_database = Some ''local'',
              site_localBackupRepoID = Some ''repo1''\<rparr>"

definition ex_env :: env where
  "ex_env =
     \<lparr>formatSiteNicename = toLowerCase,
      formatHomePath = (\<lambda>p. p),
      camelCaseToSentence = (\<lambda>s. s),
      backupSQLDumpFile = ''dump.sql'',
      shortid_generate = ''n1'',
      getBackupSite = (\<lambda>r. case r of
                         None \<Rightarrow> Inl (Error ''no repository'')
                       | Some u \<Rightarrow> Inr \<lparr>bs_id = 7, bs_uuid = u, bs_password = ''pw''\<rparr>),
      getSiteStatus = (\<lambda>s. ''running''),
      tmp_dirSync = Inr [''tmp'', ''t1''],
      restoreResticBackup =
        (\<lambda>s p e h. Inr [[''app''], [''app'', ''sql''], [''app'', ''sql'', ''dump.sql'']]),
      fs_remove_error = (\<lambda>p. None),
      fs_copySync_error = (\<lambda>p q. None),
      runSiteSQLCmd_error = (\<lambda>s q. None),
      importSQLFile_result = (\<lambda>s f. Inr [''new'']),
      provision_error = (\<lambda>s. None),
      waitForDB_error = (\<lambda>s. None),
      changeSiteDomainToHost_error = (\<lambda>s. None),
      restart_error = (\<lambda>s. None),
      glob_magic = (\<lambda>dir pattern ps. []),
      fs_remove_done = (\<lambda>p. False),
      emptyDirSync_error = (\<lambda>d. None),
      emptyDirSync_done = (\<lambda>p. False),
      removeCallback_error = (\<lambda>d. None),
      fs_copySync_done = (\<lambda>p. False),
      restoreResticBackup_partial = []\<rparr>"

definition ex_world :: world where
  "ex_world =
     \<lparr>inProgressStateMachine = None,
      sites = [(''s1'', ex_site)],
      fs = [[''sites'', ''blog''], [''sites'', ''blog'', ''conf''],
            [''sites'', ''blog'', ''app''], [''sites'', ''blog'', ''.htaccess'']],
      db = (\<lambda>i. \<lparr>sql_mode = ''STRICT'', db_contents = [''old'']\<rparr>),
      sql_log = [], ipc = [], logs = [], dialogs = [], restarts = [], provisioned = []\<rparr>"

definition ex_restore_opts :: restore_opts where
  "ex_restore_opts = \<lparr>ro_site = ex_site, ro_provider = Drive, ro_snapshotID = ''snap''\<rparr>"

definition ex_clone_opts :: clone_opts where
  "ex_clone_opts = \<lparr>co_baseSite = ex_site, co_provider = Drive, co_snapshotHash = ''snap'',
                     co_newSiteName = ''Copy''\<rparr>"

text \<open>The same world while a restore is in flight.\<close>

definition ex_world_busy :: world where
  "ex_world_busy = ex_world\<lparr>inProgressStateMachine := Some RestoreService\<rparr>"

text \<open>The same, with a hub that cannot be reached, with an import that fails, with a
  snapshot that holds no dump, and a clone under a name that is taken.\<close>

definition ex_env_no_hub :: env where
  "ex_env_no_hub = ex_env\<lparr>getBackupSite := (\<lambda>r. Inl (Error ''hub unreachable''))\<rparr>"

definition ex_env_import_fails :: env where
  "ex_env_import_fails = ex_env\<lparr>importSQLFile_result := (\<lambda>s f. Inl (Error ''import failed''))\<rparr>"

definition ex_env_no_dump :: env where
  "ex_env_no_dump = ex_env\<lparr>restoreResticBackup := (\<lambda>s p e h. Inr [[''app'']])\<rparr>"

text \<open>The same, with a clean-up that throws, and with a staging directory that is
  created inside the directory of the site.\<close>

definition ex_env_cleanup_fails :: env where
  "ex_env_cleanup_fails =
     ex_env\<lparr>emptyDirSync_error := (\<lambda>d. Some (Error ''EPERM: operation not permitted''))\<rparr>"

definition ex_env_tmp_in_site :: env where
  "ex_env_tmp_in_site = ex_env\<lparr>tmp_dirSync := Inr [''sites'', ''blog'', ''t1'']\<rparr>"

definition ex_clone_opts_taken :: clone_opts where
  "ex_clone_opts_taken = ex_clone_opts\<lparr>co_newSiteName := ''BLOG''\<rparr>"

text \<open>A context and a world of the database step: the staging directory exists and
  holds no dump, or holds one.\<close>

definition ex_restore_context :: RestoreContext where
  "ex_restore_context =
     (restore_initial_context ex_env ex_restore_opts)\<lparr>r_tmpDirData := Some \<lparr>dir_name = [''tmp'', ''t1'']\<rparr>\<rparr>"

definition ex_clone_context :: CloneContext where
  "ex_clone_context =
     (clone_initial_context ex_clone_opts)
       \<lparr>c_tmpDirData := Some \<lparr>dir_name = [''tmp'', ''t1'']\<rparr>,
        c_destinationSite := Some (ex_site\<lparr>site_id := ''n1''\<rparr>)\<rparr>"

definition ex_world_staged :: world where
  "ex_world_staged = ex_world\<lparr>fs := [''tmp'', ''t1''] # fs ex_world\<rparr>"

definition ex_world_staged_dump :: world where
  "ex_world_staged_dump =
     ex_world\<lparr>fs := [''tmp'', ''t1'', ''app'', ''sql'', ''dump.sql''] # [''tmp'', ''t1''] # fs ex_world\<rparr>"

definition ex_env_mode_fails :: env where
  "ex_env_mode_fails =
     ex_env\<lparr>runSiteSQLCmd_error :=
       (\<lambda>s q. if q = SET_GLOBAL_SQL_MODE ''STRICT'' then Some (Error ''mode not set'') else None)\<rparr>"

section \<open>Facts about the interpreter\<close>

lemma interpret_final:
  "is_final m (fst cfg) \<Longrightarrow> interpret_machine m L cfg = Some [cfg]"
  by (subst interpret_machine.simps) simp

lemma interpret_step:
  "\<not> is_final m (fst cfg) \<Longrightarrow>
   interpret_machine m L cfg =
     Option.bind (interpret_machine m L (step m L cfg)) (\<lambda>rest. Some (cfg # rest))"
  by (subst interpret_machine.simps) simp

lemma fst_enter: "fst (enter m L t ev cw) = t"
  by (simp add: enter_def split: prod.splits state_node.splits)

lemma fst_step:
  "fst (step m L (s, c, w)) =
     (case m s of
        Final _ \<Rightarrow> s
      | Invoke src onDone onError \<Rightarrow>
          (case fst (src c w) of Inr _ \<Rightarrow> fst onDone | Inl _ \<Rightarrow> fst onError))"
  by (simp add: step_def fst_enter split: state_node.splits prod.splits sum.splits)

lemma interpret_Some_cases:
  assumes "interpret_machine m L cfg = Some cfgs"
  shows "(is_final m (fst cfg) \<and> cfgs = [cfg])
         \<or> (\<not> is_final m (fst cfg)
             \<and> (\<exists>rest. cfgs = cfg # rest \<and> interpret_machine m L (step m L cfg) = Some rest))"
proof (cases "is_final m (fst cfg)")
  case True
  with assms show ?thesis by (simp add: interpret_final)
next
  case False
  with assms show ?thesis by (auto simp: interpret_step bind_eq_Some_conv)
qed

text \<open>A run is a chain of steps from the configuration it starts in to a final one.\<close>

lemma interpret_chain:
  "interpret_machine m L cfg = Some cfgs \<Longrightarrow>
   cfgs \<noteq> [] \<and> hd cfgs = cfg \<and> is_final m (fst (last cfgs))
   \<and> (\<forall>i. Suc i < length cfgs \<longrightarrow>
         \<not> is_final m (fst (cfgs ! i)) \<and> cfgs ! Suc i = step m L (cfgs ! i))"
proof (induction cfgs arbitrary: cfg)
  case Nil
  from interpret_Some_cases [OF Nil] show ?case by simp
next
  case (Cons x rest)
  from interpret_Some_cases [OF Cons.prems]
  consider (fin) "is_final m (fst cfg)" "x # rest = [cfg]"
    | (stp) "\<not> is_final m (fst cfg)" "x = cfg" "interpret_machine m L (step m L cfg) = Some rest"
    by auto
  then show ?case
  proof cases
    case fin
    then show ?thesis by simp
  next
    case stp
    from Cons.IH [OF stp(3)]
    have ih: "rest \<noteq> []" "hd rest = step m L cfg" "is_final m (fst (last rest))"
      "\<And>i. Suc i < length rest \<Longrightarrow>
            \<not> is_final m (fst (rest ! i)) \<and> rest ! Suc i = step m L (rest ! i)"
      by auto
    have "\<not> is_final m (fst ((x # rest) ! i)) \<and> (x # rest) ! Suc i = step m L ((x # rest) ! i)"
      if "Suc i < length (x # rest)" for i
    proof (cases i)
      case 0
      with stp ih(1,2) show ?thesis by (simp add: hd_conv_nth)
    next
      case (Suc k)
      with that ih(4) [of k] show ?thesis by simp
    qed
    with ih(1,3) stp(2) show ?thesis by simp
  qed
qed

text \<open>What holds at the start and is kept by every step holds all along a run.\<close>

lemma interpret_invariant:
  assumes run: "interpret_machine m L cfg = Some cfgs"
    and init: "P cfg"
    and pres: "\<And>cfg. P cfg \<Longrightarrow> \<not> is_final m (fst cfg) \<Longrightarrow> P (step m L cfg)"
  shows "list_all P cfgs"
proof -
  from interpret_chain [OF run]
  have ne: "cfgs \<noteq> []" and h: "hd cfgs = cfg"
    and ch: "\<And>i. Suc i < length cfgs \<Longrightarrow>
               \<not> is_final m (fst (cfgs ! i)) \<and> cfgs ! Suc i = step m L (cfgs ! i)"
    by auto
  have "i < length cfgs \<Longrightarrow> P (cfgs ! i)" for i
  proof (induction i)
    case 0
    with ne h init show ?case by (simp add: hd_conv_nth)
  next
    case (Suc i)
    then have "P (cfgs ! i)" by simp
    with ch [OF Suc.prems] pres show ?case by simp
  qed
  then show ?thesis by (simp add: list_all_length)
qed

lemma follows_order_Cons:
  "follows_order rest fin fl vs \<Longrightarrow> follows_order (s # rest) fin fl (s # vs)"
  unfolding follows_order_def
  by (metis Cons_prefix_Cons append_Cons list.distinct(1))

lemma follows_order_fail: "follows_order (s # rest) fin fl [s, fl]"
  unfolding follows_order_def
  by (rule disjI2, rule exI [of _ "[s]"]) simp

lemma follows_order_last: "follows_order [s] fin fl [s, fin]"
  unfolding follows_order_def by simp

text \<open>
  A machine whose table sends every state of an order to the next one when its service
  is done (the last to the finished state) and to the failed state on its error stops,
  from every state of the order, and visits what is left of the order.
\<close>

lemma interpret_follows_order:
  assumes table: "\<And>i. i < length order \<Longrightarrow>
             \<exists>src acts eacts. m (order ! i) = Invoke src ((order @ [fin]) ! Suc i, acts) (fl, eacts)"
    and fin: "is_final m fin" and fl: "is_final m fl"
  shows "i < length order \<Longrightarrow>
         \<exists>cfgs. interpret_machine m L (order ! i, c, w) = Some cfgs
               \<and> follows_order (drop i order) fin fl (map fst cfgs)"
proof (induction "length order - i" arbitrary: i c w)
  case 0
  then show ?case by simp
next
  case (Suc n)
  let ?s = "order ! i"
  let ?cfg = "(?s, c, w)"
  from table [OF Suc.prems] obtain src acts eacts
    where ms: "m ?s = Invoke src ((order @ [fin]) ! Suc i, acts) (fl, eacts)" by blast
  then have nf: "\<not> is_final m (fst ?cfg)" by (simp add: is_final_def)
  have dr: "drop i order = ?s # drop (Suc i) order"
    using Suc.prems by (simp add: Cons_nth_drop_Suc)
  obtain t c' w' where st: "step m L ?cfg = (t, c', w')" by (cases "step m L ?cfg") auto
  have t: "t = (order @ [fin]) ! Suc i \<or> t = fl"
    using fst_step [of m L ?s c w] ms st by (auto split: sum.splits)
  show ?case
  proof (cases "t = fl")
    case True
    with fl st have "interpret_machine m L (step m L ?cfg) = Some [(fl, c', w')]"
      by (simp add: interpret_final)
    with nf st True have "interpret_machine m L ?cfg = Some [?cfg, (fl, c', w')]"
      by (simp add: interpret_step)
    then show ?thesis using dr by (simp add: follows_order_fail)
  next
    case False
    with t have tn: "t = (order @ [fin]) ! Suc i" by simp
    show ?thesis
    proof (cases "Suc i < length order")
      case True
      with tn have tn': "t = order ! Suc i" by (simp add: nth_append)
      from Suc(2) True have "n = length order - Suc i" by simp
      from Suc(1) [OF this True, of c' w'] obtain rest
        where r: "interpret_machine m L (order ! Suc i, c', w') = Some rest"
          and f: "follows_order (drop (Suc i) order) fin fl (map fst rest)" by blast
      from nf st tn' r have "interpret_machine m L ?cfg = Some (?cfg # rest)"
        by (simp add: interpret_step)
      then show ?thesis using dr f by (simp add: follows_order_Cons)
    next
      case False
      with Suc.prems have e: "Suc i = length order" by simp
      with tn have tf: "t = fin" by (simp add: nth_append)
      with fin st have "interpret_machine m L (step m L ?cfg) = Some [(fin, c', w')]"
        by (simp add: interpret_final)
      with nf st tf have "interpret_machine m L ?cfg = Some [?cfg, (fin, c', w')]"
        by (simp add: interpret_step)
      moreover from e dr have "drop i order = [?s]" by simp
      ultimately show ?thesis by (simp add: follows_order_last)
    qed
  qed
qed

lemma interpret_last_step:
  assumes run: "interpret_machine m L cfg = Some cfgs" and nf: "\<not> is_final m (fst cfg)"
  shows "2 \<le> length cfgs \<and> \<not> is_final m (fst (cfgs ! (length cfgs - 2)))
         \<and> last cfgs = step m L (cfgs ! (length cfgs - 2))"
proof -
  from interpret_chain [OF run]
  have ne: "cfgs \<noteq> []" and h: "hd cfgs = cfg" and l: "is_final m (fst (last cfgs))"
    and ch: "\<And>i. Suc i < length cfgs \<Longrightarrow>
               \<not> is_final m (fst (cfgs ! i)) \<and> cfgs ! Suc i = step m L (cfgs ! i)"
    by auto
  from nf h l have "hd cfgs \<noteq> last cfgs" by auto
  with ne have len: "2 \<le> length cfgs"
    by (cases cfgs) (auto simp: Suc_le_eq)
  then have "Suc (length cfgs - 2) < length cfgs" by simp
  from ch [OF this] len ne show ?thesis by (simp add: last_conv_nth Suc_diff_Suc numeral_2_eq_2)
qed

lemma eq_upto_logsD: "eq_upto_logs w w' \<Longrightarrow> w' = w\<lparr>logs := logs w'\<rparr>"
  by (cases w, cases w') (simp add: eq_upto_logs_def)

lemma eq_upto_logs_refl [simp]: "eq_upto_logs w w"
  by (simp add: eq_upto_logs_def)

lemma eq_upto_logs_update [simp]: "eq_upto_logs w (w\<lparr>logs := l\<rparr>)"
  by (simp add: eq_upto_logs_def)

text \<open>Two runs of a machine from configurations that differ in the logger's lines only
  go through configurations that differ in the logger's lines only.\<close>

lemma interpret_ni:
  assumes stp: "\<And>s c w w'. eq_upto_logs w w' \<Longrightarrow>
                  eq_config_upto_logs (step m L (s, c, w)) (step m L (s, c, w'))"
  shows "interpret_machine m L (s, c, w) = Some cfgs \<Longrightarrow> eq_upto_logs w w' \<Longrightarrow>
         \<exists>cfgs'. interpret_machine m L (s, c, w') = Some cfgs'
                \<and> list_all2 eq_config_upto_logs cfgs cfgs'"
proof (induction cfgs arbitrary: s c w w')
  case Nil
  from interpret_Some_cases [OF Nil(1)] show ?case by simp
next
  case (Cons x rest)
  have here: "eq_config_upto_logs (s, c, w) (s, c, w')"
    using Cons.prems(2) by (simp add: eq_config_upto_logs_def)
  from interpret_Some_cases [OF Cons.prems(1)]
  consider (fin) "is_final m s" "x # rest = [(s, c, w)]"
    | (stp) "\<not> is_final m s" "x = (s, c, w)"
        "interpret_machine m L (step m L (s, c, w)) = Some rest"
    by auto
  then show ?case
  proof cases
    case fin
    then have "interpret_machine m L (s, c, w') = Some [(s, c, w')]"
      by (simp add: interpret_final)
    with fin here show ?thesis by auto
  next
    case stp
    obtain s1 c1 w1 where a: "step m L (s, c, w) = (s1, c1, w1)"
      by (cases "step m L (s, c, w)") auto
    obtain s2 c2 w2 where b: "step m L (s, c, w') = (s2, c2, w2)"
      by (cases "step m L (s, c, w')") auto
    from assms [OF Cons.prems(2), of s c] a b
    have e: "s2 = s1" "c2 = c1" "eq_upto_logs w1 w2" by (auto simp: eq_config_upto_logs_def)
    from Cons.IH [OF stp(3) [unfolded a] e(3)] obtain rest'
      where r: "interpret_machine m L (s1, c1, w2) = Some rest'"
        and l: "list_all2 eq_config_upto_logs rest rest'" by blast
    from stp(1) b e r have "interpret_machine m L (s, c, w') = Some ((s, c, w') # rest')"
      by (simp add: interpret_step)
    with stp(2) here l show ?thesis by auto
  qed
qed

section \<open>The database step\<close>

text \<open>
  Claim C7 (missing-dump tolerance). In either service, when the staging directory
  holds no file at \<^verbatim>\<open>app/sql/<dump file name>\<close>, \<^verbatim>\<open>importDatabase\<close> logs the
  warning and resolves: it sends no SQL command and leaves the database as it was, and
  the machine moves on to the next state (finished for a restore, searchReplaceDomain
  for a clone).
\<close>

theorem missing_dump_tolerance:
  assumes "r_tmpDirData rc = Some tmp"
    and "\<not> existsSync w (dir_name tmp @ [''app'', ''sql'', backupSQLDumpFile env])"
    and "c_tmpDirData cc = Some tmp'" and "c_destinationSite cc = Some dest"
    and "\<not> existsSync w' (dir_name tmp' @ [''app'', ''sql'', backupSQLDumpFile env])"
  shows "importDatabase_restore env rc w = (Inr Undefined, logger no_sql_warning w)
       \<and> sql_log (logger no_sql_warning w) = sql_log w
       \<and> db (logger no_sql_warning w) = db w
       \<and> step (restoreMachine env) (onTransition_restore env) (R_restoringDatabase, rc, w)
           = (R_finished, rc,
              onTransition_restore env R_finished (removeTmpDir env (Some tmp) (logger no_sql_warning w)))
       \<and> importDatabase_clone env cc w' = (Inr Undefined, logger no_sql_warning w')
       \<and> sql_log (logger no_sql_warning w') = sql_log w'
       \<and> db (logger no_sql_warning w') = db w'
       \<and> step (cloneMachine env) (onTransition_clone env) (C_restoringDatabase, cc, w')
           = (C_searchReplaceDomain, cc,
              onTransition_clone env C_searchReplaceDomain (logger no_sql_warning w'))"
proof -
  have r: "importDatabase_restore env rc w = (Inr Undefined, logger no_sql_warning w)"
    using assms(1,2) by (simp add: importDatabase_restore_def importDatabase_def no_sql_warning_def)
  have c: "importDatabase_clone env cc w' = (Inr Undefined, logger no_sql_warning w')"
    using assms(3,4,5) by (simp add: importDatabase_clone_def importDatabase_def no_sql_warning_def)
  have rs: "step (restoreMachine env) (onTransition_restore env) (R_restoringDatabase, rc, w)
           = (R_finished, rc,
              onTransition_restore env R_finished (removeTmpDir env (Some tmp) (logger no_sql_warning w)))"
    using assms(1) by (simp add: step_def r restoreMachine_def enter_def removeTmpDir_restore_def)
  have cs: "step (cloneMachine env) (onTransition_clone env) (C_restoringDatabase, cc, w')
           = (C_searchReplaceDomain, cc,
              onTransition_clone env C_searchReplaceDomain (logger no_sql_warning w'))"
    by (simp add: step_def c cloneMachine_def enter_def)
  show ?thesis using r c rs cs by (simp add: logger_def)
qed

theorem missing_dump_tolerance_witness:
  "r_tmpDirData ex_restore_context = Some \<lparr>dir_name = [''tmp'', ''t1'']\<rparr>
   \<and> \<not> existsSync ex_world_staged ([''tmp'', ''t1''] @ [''app'', ''sql'', backupSQLDumpFile ex_env])
   \<and> c_tmpDirData ex_clone_context = Some \<lparr>dir_name = [''tmp'', ''t1'']\<rparr>
   \<and> c_destinationSite ex_clone_context = Some (ex_site\<lparr>site_id := ''n1''\<rparr>)
   \<and> importDatabase_restore ex_env ex_restore_context ex_world_staged
        = (Inr Undefined, logger no_sql_warning ex_world_staged)
   \<and> importDatabase_clone ex_env ex_clone_context ex_world_staged
        = (Inr Undefined, logger no_sql_warning ex_world_staged)
   \<and> sql_log (logger no_sql_warning ex_world_staged) = []"
proof -
  have a: "r_tmpDirData ex_restore_context = Some \<lparr>dir_name = [''tmp'', ''t1'']\<rparr>"
    by (simp add: ex_restore_context_def)
  have b: "\<not> existsSync ex_world_staged
             (dir_name \<lparr>dir_name = [''tmp'', ''t1'']\<rparr> @ [''app'', ''sql'', backupSQLDumpFile ex_env])"
    by (simp add: existsSync_def ex_world_staged_def ex_world_def ex_env_def)
  have c: "c_tmpDirData ex_clone_context = Some \<lparr>dir_name = [''tmp'', ''t1'']\<rparr>"
    by (simp add: ex_clone_context_def)
  have d: "c_destinationSite ex_clone_context = Some (ex_site\<lparr>site_id := ''n1''\<rparr>)"
    by (simp add: ex_clone_context_def)
  from missing_dump_tolerance [OF a b c d b] a b c d
  show ?thesis by (simp add: logger_def ex_world_staged_def ex_world_def)
qed


lemma db_state_known:
  "(d::db_state)\<lparr>sql_mode := a, db_contents := b\<rparr> = \<lparr>sql_mode = a, db_contents = b\<rparr>"
  by (cases d) simp

lemma importDatabase_import_fails:
  assumes "database_reset_succeeds env site tmp database w"
    and "importSQLFile_result env site (sqlFile_of env tmp) = Inl e"
  shows "importDatabase env site (Some tmp) w =
           (Inl e,
            w\<lparr>sql_log := sql_log w @ commands_up_to_import env site tmp database,
               db := (db w)(site_id site :=
                  \<lparr>sql_mode = ''NO_AUTO_VALUE_ON_ZERO'', db_contents = []\<rparr>)\<rparr>)"
  using assms
  by (simp add: importDatabase_def runSiteSQLCmd_def importSQLFile_def
      database_reset_succeeds_def sqlFile_of_def commands_up_to_import_def
      apply_query_def Let_def db_state_known)

lemma importDatabase_mode_restore_fails:
  assumes "database_reset_succeeds env site tmp database w"
    and "importSQLFile_result env site (sqlFile_of env tmp) = Inr rows"
    and "runSiteSQLCmd_error env site (SET_GLOBAL_SQL_MODE (sql_mode (db w (site_id site)))) = Some e"
  shows "importDatabase env site (Some tmp) w =
           (Inl e,
            w\<lparr>sql_log := sql_log w @ commands_up_to_import env site tmp database
                  @ [(site_id site, RunQuery (SET_GLOBAL_SQL_MODE (sql_mode (db w (site_id site)))))],
               db := (db w)(site_id site :=
                  \<lparr>sql_mode = ''NO_AUTO_VALUE_ON_ZERO'', db_contents = rows\<rparr>)\<rparr>)"
  using assms
  by (simp add: importDatabase_def runSiteSQLCmd_def importSQLFile_def
      database_reset_succeeds_def sqlFile_of_def commands_up_to_import_def
      apply_query_def Let_def db_state_known)

text \<open>
  Claim C10 (the database step is not atomic on error). In either service
  (\<^verbatim>\<open>importDatabase\<close> of the restore service is the body below at the restored site,
  that of the clone service at the destination site), when the dump file exists and the
  queries up to the drop-and-create succeed: if the import fails, the step fails with the
  import's error after the commands up to the import were sent, the database is empty and
  the permissive mode is in effect; if the import succeeds and the query that sets the mode
  back fails, the step fails with that error, the database holds the dump and the
  permissive mode is in effect. What the database held before is gone in both cases.
\<close>

theorem database_apply_not_atomic:
  assumes "database_reset_succeeds env site tmp database w"
  shows "(importSQLFile_result env site (sqlFile_of env tmp) = Inl e \<longrightarrow>
            importDatabase env site (Some tmp) w =
              (Inl e,
               w\<lparr>sql_log := sql_log w @ commands_up_to_import env site tmp database,
                  db := (db w)(site_id site :=
                     \<lparr>sql_mode = ''NO_AUTO_VALUE_ON_ZERO'', db_contents = []\<rparr>)\<rparr>))
       \<and> (importSQLFile_result env site (sqlFile_of env tmp) = Inr rows
          \<and> runSiteSQLCmd_error env site (SET_GLOBAL_SQL_MODE (sql_mode (db w (site_id site)))) = Some e'
          \<longrightarrow>
            importDatabase env site (Some tmp) w =
              (Inl e',
               w\<lparr>sql_log := sql_log w @ commands_up_to_import env site tmp database
                     @ [(site_id site, RunQuery (SET_GLOBAL_SQL_MODE (sql_mode (db w (site_id site)))))],
                  db := (db w)(site_id site :=
                     \<lparr>sql_mode = ''NO_AUTO_VALUE_ON_ZERO'', db_contents = rows\<rparr>)\<rparr>))
       \<and> (r_site rc = site \<and> r_tmpDirData rc = Some tmp \<longrightarrow>
            importDatabase_restore env rc w = importDatabase env site (Some tmp) w)
       \<and> (c_destinationSite cc = Some site \<and> c_tmpDirData cc = Some tmp \<longrightarrow>
            importDatabase_clone env cc w = importDatabase env site (Some tmp) w)"
  using importDatabase_import_fails [OF assms] importDatabase_mode_restore_fails [OF assms]
  by (simp add: importDatabase_restore_def importDatabase_clone_def)

theorem database_apply_not_atomic_witness:
  "database_reset_succeeds ex_env_import_fails ex_site \<lparr>dir_name = [''tmp'', ''t1'']\<rparr> ''local''
     ex_world_staged_dump
   \<and> importDatabase_restore ex_env_import_fails ex_restore_context ex_world_staged_dump =
       (Inl (Error ''import failed''),
        ex_world_staged_dump
          \<lparr>sql_log := commands_up_to_import ex_env_import_fails ex_site \<lparr>dir_name = [''tmp'', ''t1'']\<rparr> ''local'',
           db := (db ex_world_staged_dump)(''s1'' :=
              \<lparr>sql_mode = ''NO_AUTO_VALUE_ON_ZERO'', db_contents = []\<rparr>)\<rparr>)
   \<and> database_reset_succeeds ex_env_mode_fails (ex_site\<lparr>site_id := ''n1''\<rparr>)
       \<lparr>dir_name = [''tmp'', ''t1'']\<rparr> ''local'' ex_world_staged_dump
   \<and> fst (importDatabase_clone ex_env_mode_fails ex_clone_context ex_world_staged_dump)
       = Inl (Error ''mode not set'')
   \<and> db (snd (importDatabase_clone ex_env_mode_fails ex_clone_context ex_world_staged_dump)) ''n1''
       = \<lparr>sql_mode = ''NO_AUTO_VALUE_ON_ZERO'', db_contents = [''new'']\<rparr>"
proof -
  have a: "database_reset_succeeds ex_env_import_fails ex_site \<lparr>dir_name = [''tmp'', ''t1'']\<rparr> ''local''
             ex_world_staged_dump"
    by (simp add: database_reset_succeeds_def ex_env_import_fails_def ex_env_def ex_site_def
        existsSync_def sqlFile_of_def ex_world_staged_dump_def)
  have b: "database_reset_succeeds ex_env_mode_fails (ex_site\<lparr>site_id := ''n1''\<rparr>)
             \<lparr>dir_name = [''tmp'', ''t1'']\<rparr> ''local'' ex_world_staged_dump"
    by (simp add: database_reset_succeeds_def ex_env_mode_fails_def ex_env_def ex_site_def
        existsSync_def sqlFile_of_def ex_world_staged_dump_def)
  have c: "importSQLFile_result ex_env_import_fails ex_site
             (sqlFile_of ex_env_import_fails \<lparr>dir_name = [''tmp'', ''t1'']\<rparr>) = Inl (Error ''import failed'')"
    by (simp add: ex_env_import_fails_def)
  have d: "importSQLFile_result ex_env_mode_fails (ex_site\<lparr>site_id := ''n1''\<rparr>)
             (sqlFile_of ex_env_mode_fails \<lparr>dir_name = [''tmp'', ''t1'']\<rparr>) = Inr [''new'']"
    "runSiteSQLCmd_error ex_env_mode_fails (ex_site\<lparr>site_id := ''n1''\<rparr>)
       (SET_GLOBAL_SQL_MODE (sql_mode (db ex_world_staged_dump (site_id (ex_site\<lparr>site_id := ''n1''\<rparr>)))))
       = Some (Error ''mode not set'')"
    by (simp_all add: ex_env_mode_fails_def ex_env_def ex_world_staged_dump_def ex_world_def)
  have e: "r_site ex_restore_context = ex_site"
    "r_tmpDirData ex_restore_context = Some \<lparr>dir_name = [''tmp'', ''t1'']\<rparr>"
    "c_destinationSite ex_clone_context = Some (ex_site\<lparr>site_id := ''n1''\<rparr>)"
    "c_tmpDirData ex_clone_context = Some \<lparr>dir_name = [''tmp'', ''t1'']\<rparr>"
    by (simp_all add: ex_restore_context_def ex_clone_context_def restore_initial_context_def
        ex_restore_opts_def)
  have s: "sql_log ex_world_staged_dump = []" "site_id ex_site = ''s1''"
    by (simp_all add: ex_world_staged_dump_def ex_world_def ex_site_def)
  from database_apply_not_atomic [OF a, of "Error ''import failed''" _ _ ex_restore_context ex_clone_context]
       database_apply_not_atomic [OF b, of _ "[''new'']" "Error ''mode not set''" ex_restore_context ex_clone_context]
       a b c d e s
  show ?thesis by simp
qed

section \<open>The file-system step of a restore\<close>

lemma child_iff:
  "(length p = Suc (length dir) \<and> prefix dir p) = (\<exists>n. p = dir @ [n])"
proof
  assume a: "length p = Suc (length dir) \<and> prefix dir p"
  then obtain r where r: "p = dir @ r" by (auto simp: prefix_def)
  with a have "length r = 1" by simp
  then obtain n where "r = [n]" by (cases r) auto
  with r show "\<exists>n. p = dir @ [n]" by blast
next
  assume "\<exists>n. p = dir @ [n]"
  then show "length p = Suc (length dir) \<and> prefix dir p" by auto
qed

lemma set_glob_sync:
  assumes "\<not> list_ex hasMagic dir"
  shows "set (glob_sync env ps dir pattern matches)
           = {p \<in> set ps. \<exists>n. p = dir @ [n] \<and> matches n}"
proof -
  have "(length p = Suc (length dir) \<and> prefix dir p \<and> matches (last p))
        = (\<exists>n. p = dir @ [n] \<and> matches n)" for p
    using child_iff [of p dir] by auto
  with assms show ?thesis by (auto simp: glob_sync_def)
qed

lemma not_dotfile_conf: "\<not> dotfile ''conf''"
  by (simp add: dotfile_def)

text \<open>For a site path that holds no character of the pattern syntax, the paths chosen
  are the entries directly inside the site's path except conf, dotfiles included.\<close>

lemma set_getFilteredSiteFiles:
  assumes "\<not> list_ex hasMagic (formatHomePath env (site_path site))"
  shows "set (getFilteredSiteFiles env w site) =
     {p \<in> set (fs w). \<exists>n. p = formatHomePath env (site_path site) @ [n] \<and> n \<noteq> ''conf''}"
  using not_dotfile_conf
  by (auto simp: getFilteredSiteFiles_def set_glob_sync [OF assms] excludePatterns_def Let_def)

lemma set_fold_fs_remove:
  "set (fold fs_remove items ps) = {q \<in> set ps. \<forall>p \<in> set items. \<not> prefix p q}"
proof (induction items arbitrary: ps)
  case Nil
  then show ?case by simp
next
  case (Cons a items)
  show ?case by (simp add: Cons.IH) (auto simp: fs_remove_def)
qed

lemma set_remove_items:
  assumes "\<forall>p \<in> set items. fs_remove_error env p = None"
  shows "set (remove_items env items ps) = {q \<in> set ps. \<forall>p \<in> set items. \<not> prefix p q}"
  using assms by (simp add: remove_items_def list_all_iff set_fold_fs_remove)

lemma remove_items_subset:
  "q \<in> set (remove_items env items ps) \<Longrightarrow> q \<in> set ps"
  by (auto simp: remove_items_def set_fold_fs_remove split: if_splits)

lemma remove_items_spares:
  assumes "q \<in> set ps" and "\<forall>p \<in> set items. \<not> prefix p q"
  shows "q \<in> set (remove_items env items ps)"
  using assms by (auto simp: remove_items_def set_fold_fs_remove list_ex_iff)

lemma remove_items_error_None:
  "(remove_items_error env items = None) = (\<forall>p \<in> set items. fs_remove_error env p = None)"
proof (cases "filter (\<lambda>p. fs_remove_error env p \<noteq> None) items")
  case Nil
  then show ?thesis by (auto simp: remove_items_error_def filter_empty_conv)
next
  case (Cons a rest)
  then have "a \<in> set (filter (\<lambda>p. fs_remove_error env p \<noteq> None) items)" by simp
  then have "a \<in> set items" "fs_remove_error env a \<noteq> None" by auto
  with Cons show ?thesis by (auto simp: remove_items_error_def)
qed

text \<open>The order of the step: when a removal fails the step fails with its error and
  nothing is copied; when none fails, every chosen path is gone with everything inside
  it, and only then the staging directory is copied over the site's path.\<close>

lemma moveSiteFromTmpDir_restore_removal_fails:
  assumes "remove_items_error env (getFilteredSiteFiles env w (r_site c)) = Some e"
  shows "moveSiteFromTmpDir_restore env c w =
           (Inl e, (logger (InfoRemoving (getFilteredSiteFiles env w (r_site c))) w)
                     \<lparr>fs := remove_items env (getFilteredSiteFiles env w (r_site c)) (fs w)\<rparr>)"
  using assms by (simp add: moveSiteFromTmpDir_restore_def Let_def logger_def)

lemma moveSiteFromTmpDir_restore_copies:
  assumes "remove_items_error env (getFilteredSiteFiles env w (r_site c)) = None"
    and "r_tmpDirData c = Some tmp"
    and "fs_copySync_error env (dir_name tmp) (formatHomePath env (site_path (r_site c))) = None"
    and "dir_name tmp \<in> set (remove_items env (getFilteredSiteFiles env w (r_site c)) (fs w))"
  shows "moveSiteFromTmpDir_restore env c w =
           (Inr Undefined,
            logger (InfoMoved (dir_name tmp) (formatHomePath env (site_path (r_site c))))
              ((logger (InfoRemoving (getFilteredSiteFiles env w (r_site c))) w)
                 \<lparr>fs := copySync (dir_name tmp) (formatHomePath env (site_path (r_site c)))
                          (remove_items env (getFilteredSiteFiles env w (r_site c)) (fs w))\<rparr>))"
  using assms by (simp add: moveSiteFromTmpDir_restore_def Let_def logger_def existsSync_def)

lemma moveSiteFromTmpDir_restore_removed:
  assumes "remove_items_error env (getFilteredSiteFiles env w (r_site c)) = None"
  shows "set (remove_items env (getFilteredSiteFiles env w (r_site c)) (fs w))
           = {q \<in> set (fs w). \<forall>p \<in> set (getFilteredSiteFiles env w (r_site c)). \<not> prefix p q}"
  using assms by (simp add: set_remove_items remove_items_error_None)

text \<open>
  Claim C8 (file-system step of a restore). The claim, like the comment above
  \<^verbatim>\<open>getFilteredSiteFiles\<close> ("Filters out the 'conf' directory and any `.` files"), has
  the dotfiles of the site kept out of the paths to remove. The function's second
  pattern lists every one of them: in the example site, whose directory holds
  \<^verbatim>\<open>conf\<close>, \<^verbatim>\<open>app\<close> and \<^verbatim>\<open>.htaccess\<close>, the paths chosen are
  \<^verbatim>\<open>app\<close> and \<^verbatim>\<open>.htaccess\<close>, and after the step, which resolves,
  \<^verbatim>\<open>.htaccess\<close> is gone while \<^verbatim>\<open>conf\<close> is still there.
\<close>

theorem dotfile_removed_by_restore:
  "fs ex_world_staged = [[''tmp'', ''t1''], [''sites'', ''blog''], [''sites'', ''blog'', ''conf''],
                         [''sites'', ''blog'', ''app''], [''sites'', ''blog'', ''.htaccess'']]
   \<and> getFilteredSiteFiles ex_env ex_world_staged (r_site ex_restore_context)
       = [[''sites'', ''blog'', ''app''], [''sites'', ''blog'', ''.htaccess'']]
   \<and> fst (moveSiteFromTmpDir_restore ex_env ex_restore_context ex_world_staged) = Inr Undefined
   \<and> fs (snd (moveSiteFromTmpDir_restore ex_env ex_restore_context ex_world_staged))
       = [[''sites'', ''blog'', ''conf''], [''tmp'', ''t1''], [''sites'', ''blog'']]"
  by (simp add: moveSiteFromTmpDir_restore_def getFilteredSiteFiles_def glob_sync_def hasMagic_def
      remove_items_def remove_items_error_def fs_remove_def copySync_def logger_def
      existsSync_def excludePatterns_def dotfile_def Let_def List.union_def List.insert_def
      ex_restore_context_def restore_initial_context_def ex_restore_opts_def
      ex_world_staged_def ex_world_def ex_env_def ex_site_def)
section \<open>Facts about the restore machine\<close>

lemma restoreMachine_simps:
  "restoreMachine env R_gettingBackupCredentials =
     Invoke (getCredentials_restore env) (R_creatingTmpDir, [assign_credentials_restore])
       (onErrorFactory_restore env)"
  "restoreMachine env R_creatingTmpDir =
     Invoke (\<lambda>context. createTmpDir env) (R_restoringBackup, [assign_tmpDirData_restore])
       (onErrorFactory_restore env)"
  "restoreMachine env R_restoringBackup =
     Invoke (restoreBackup env) (R_movingSiteFromTmpDir, []) (onErrorFactory_restore env)"
  "restoreMachine env R_movingSiteFromTmpDir =
     Invoke (moveSiteFromTmpDir_restore env) (R_restoringDatabase, []) (onErrorFactory_restore env)"
  "restoreMachine env R_restoringDatabase =
     Invoke (importDatabase_restore env) (R_finished, []) (onErrorFactory_restore env)"
  "restoreMachine env R_finished = Final [removeTmpDir_restore env]"
  "restoreMachine env R_failed = Final []"
  by (simp_all add: restoreMachine_def)

lemma is_final_restore:
  "is_final (restoreMachine env) s = (s = R_finished \<or> s = R_failed)"
  by (cases s) (simp_all add: is_final_def restoreMachine_simps)

lemma restore_table:
  "i < length restore_order \<Longrightarrow>
   \<exists>src acts eacts. restoreMachine env (restore_order ! i) =
      Invoke src ((restore_order @ [R_finished]) ! Suc i, acts) (R_failed, eacts)"
  by (auto simp: restore_order_def restoreMachine_simps onErrorFactory_restore_def less_Suc_eq)

lemma start_restore:
  "start (restoreMachine env) L R_gettingBackupCredentials c w
     = (R_gettingBackupCredentials, c, L R_gettingBackupCredentials w)"
  by (simp add: start_def enter_def restoreMachine_simps)

lemma restore_run_follows_order:
  "\<exists>cfgs. restore_run env opts w = Some cfgs
         \<and> follows_order restore_order R_finished R_failed (map fst cfgs)"
proof -
  have "0 < length restore_order" by (simp add: restore_order_def)
  from interpret_follows_order [where m = "restoreMachine env" and order = restore_order
      and fin = R_finished and fl = R_failed and i = 0, OF restore_table _ _ this]
  show ?thesis
    by (simp add: is_final_restore restore_run_def start_restore restore_order_def)
qed

lemma fst_setErroredStatus_restore [simp]:
  "fst (setErroredStatus_restore env c ev w) = c"
  by (simp add: setErroredStatus_restore_def Let_def)

text \<open>The step of the restore machine, state by state.\<close>

lemma step_restore_error:
  assumes "restoreMachine env s = Invoke src d (onErrorFactory_restore env)"
    and "src c w = (Inl e, w1)"
  shows "step (restoreMachine env) (onTransition_restore env) (s, c, w) = restore_failure env e c w1"
  using assms
  by (simp add: step_def enter_def onErrorFactory_restore_def restoreMachine_simps
      restore_failure_def setErrorOnContext_restore_def logError_restore_def split_beta)

lemma step_restore_simps:
  "step (restoreMachine env) (onTransition_restore env) (R_gettingBackupCredentials, c, w) =
     (case getCredentials_restore env c w of
        (Inl e, w1) \<Rightarrow> restore_failure env e c w1
      | (Inr d, w1) \<Rightarrow>
          (R_creatingTmpDir, fst (assign_credentials_restore c (DoneInvoke d) w1),
           onTransition_restore env R_creatingTmpDir w1))"
  "step (restoreMachine env) (onTransition_restore env) (R_creatingTmpDir, c, w) =
     (case createTmpDir env w of
        (Inl e, w1) \<Rightarrow> restore_failure env e c w1
      | (Inr d, w1) \<Rightarrow>
          (R_restoringBackup, fst (assign_tmpDirData_restore c (DoneInvoke d) w1),
           onTransition_restore env R_restoringBackup w1))"
  "step (restoreMachine env) (onTransition_restore env) (R_restoringBackup, c, w) =
     (case restoreBackup env c w of
        (Inl e, w1) \<Rightarrow> restore_failure env e c w1
      | (Inr d, w1) \<Rightarrow>
          (R_movingSiteFromTmpDir, c, onTransition_restore env R_movingSiteFromTmpDir w1))"
  "step (restoreMachine env) (onTransition_restore env) (R_movingSiteFromTmpDir, c, w) =
     (case moveSiteFromTmpDir_restore env c w of
        (Inl e, w1) \<Rightarrow> restore_failure env e c w1
      | (Inr d, w1) \<Rightarrow>
          (R_restoringDatabase, c, onTransition_restore env R_restoringDatabase w1))"
  "step (restoreMachine env) (onTransition_restore env) (R_restoringDatabase, c, w) =
     (case importDatabase_restore env c w of
        (Inl e, w1) \<Rightarrow> restore_failure env e c w1
      | (Inr d, w1) \<Rightarrow>
          (R_finished, c, onTransition_restore env R_finished (removeTmpDir env (r_tmpDirData c) w1)))"
  "step (restoreMachine env) (onTransition_restore env) (R_finished, c, w) = (R_finished, c, w)"
  "step (restoreMachine env) (onTransition_restore env) (R_failed, c, w) = (R_failed, c, w)"
  by (simp_all add: step_def enter_def onErrorFactory_restore_def restoreMachine_simps
      restore_failure_def setErrorOnContext_restore_def logError_restore_def
      assign_credentials_restore_def assign_tmpDirData_restore_def removeTmpDir_restore_def
      split_beta
      split: sum.splits event_data.splits)

subsection \<open>What the restore machine leaves unchanged\<close>

lemmas world_ops =
  logger_def sendIPCEvent_def runSiteSQLCmd_def importSQLFile_def
  siteProcessManager_restart_def addSite_def showErrorBox_def removeTmpDir_def
  createTmpDir_def restic_restore_def Let_def

lemma slot_importDatabase:
  "inProgressStateMachine (snd (importDatabase env site tmp w)) = inProgressStateMachine w"
  by (simp add: importDatabase_def world_ops split: option.splits sum.splits prod.splits)

lemma slot_restore_services:
  "inProgressStateMachine (snd (getCredentials_restore env c w)) = inProgressStateMachine w"
  "inProgressStateMachine (snd (createTmpDir env w)) = inProgressStateMachine w"
  "inProgressStateMachine (snd (restoreBackup env c w)) = inProgressStateMachine w"
  "inProgressStateMachine (snd (moveSiteFromTmpDir_restore env c w)) = inProgressStateMachine w"
  "inProgressStateMachine (snd (importDatabase_restore env c w)) = inProgressStateMachine w"
  "inProgressStateMachine (removeTmpDir env tmp w) = inProgressStateMachine w"
  "inProgressStateMachine (onTransition_restore env s w) = inProgressStateMachine w"
  "inProgressStateMachine (snd (snd (restore_failure env e c w))) = inProgressStateMachine w"
  by (simp_all add: getCredentials_restore_def restoreBackup_def moveSiteFromTmpDir_restore_def
      importDatabase_restore_def slot_importDatabase onTransition_restore_def
      restore_failure_def setErroredStatus_restore_def world_ops
      split: option.splits sum.splits prod.splits)

lemma slot_step_restore:
  "inProgressStateMachine (snd (snd (step (restoreMachine env) (onTransition_restore env) (s, c, w))))
     = inProgressStateMachine w"
  by (cases s) (auto simp: step_restore_simps split_beta slot_restore_services split: sum.splits)

lemma step_restore_to_failed:
  assumes "\<not> is_final (restoreMachine env) s"
    and "fst (step (restoreMachine env) (onTransition_restore env) (s, c, w)) = R_failed"
  shows "\<exists>e w1. step (restoreMachine env) (onTransition_restore env) (s, c, w)
                  = restore_failure env e c w1"
  using assms
  by (cases s) (auto simp: is_final_restore step_restore_simps restore_failure_def split_beta
      split: sum.splits)

lemma context_step_restore:
  "r_site (fst (snd (step (restoreMachine env) (onTransition_restore env) (s, c, w)))) = r_site c
   \<and> r_initialSiteStatus (fst (snd (step (restoreMachine env) (onTransition_restore env) (s, c, w))))
       = r_initialSiteStatus c"
  by (cases s)
     (auto simp: step_restore_simps restore_failure_def split_beta
        assign_credentials_restore_def assign_tmpDirData_restore_def
        split: sum.splits event_data.splits)

lemma restore_run_context:
  assumes "restore_run env opts w = Some cfgs"
  shows "list_all (\<lambda>cfg. r_site (fst (snd cfg)) = ro_site opts
                        \<and> r_initialSiteStatus (fst (snd cfg)) = getSiteStatus env (ro_site opts)) cfgs"
proof (rule interpret_invariant [OF assms [unfolded restore_run_def]])
  show "r_site (fst (snd (start (restoreMachine env) (onTransition_restore env)
                 R_gettingBackupCredentials (restore_initial_context env opts)
                 (w\<lparr>inProgressStateMachine := Some RestoreService\<rparr>)))) = ro_site opts
        \<and> r_initialSiteStatus (fst (snd (start (restoreMachine env) (onTransition_restore env)
                 R_gettingBackupCredentials (restore_initial_context env opts)
                 (w\<lparr>inProgressStateMachine := Some RestoreService\<rparr>))))
           = getSiteStatus env (ro_site opts)"
    by (simp add: start_restore restore_initial_context_def)
next
  fix cfg :: "(restore_state, RestoreContext) config"
  assume "r_site (fst (snd cfg)) = ro_site opts
          \<and> r_initialSiteStatus (fst (snd cfg)) = getSiteStatus env (ro_site opts)"
  then show "r_site (fst (snd (step (restoreMachine env) (onTransition_restore env) cfg))) = ro_site opts
        \<and> r_initialSiteStatus (fst (snd (step (restoreMachine env) (onTransition_restore env) cfg)))
           = getSiteStatus env (ro_site opts)"
    using context_step_restore [of env "fst cfg" "fst (snd cfg)" "snd (snd cfg)"] by simp
qed

lemma restore_failure_effects:
  "ipc (snd (snd (restore_failure env e c w))) =
     ipc w @ [UpdateSiteStatus (site_id (r_site c)) (r_initialSiteStatus c),
              ShowSiteBanner (errored_banner_restore (site_id (r_site c))), BACKUP_STARTED]"
  "restarts (snd (snd (restore_failure env e c w))) = restarts w @ [r_site c]"
  "r_error (fst (snd (restore_failure env e c w))) = Some (ErrorData e)"
  by (simp_all add: restore_failure_def setErroredStatus_restore_def onTransition_restore_def
      errored_banner_restore_def world_ops split: option.splits)

subsection \<open>The staging directory\<close>

text \<open>The clean-up of the finished state: when neither call throws, nothing at or
  inside the directory is left; when one throws, the directory is still there.\<close>

lemma removeTmpDir_removes:
  assumes "emptyDirSync_error env d = None" and "removeCallback_error env d = None"
    and "d \<in> set (fs w)"
  shows "\<forall>p \<in> set (fs (removeTmpDir env (Some \<lparr>dir_name = d\<rparr>) w)). \<not> prefix d p"
  using assms
  by (auto simp: removeTmpDir_def removeCallback_def emptyDirSync_def list_ex_iff
      strict_prefix_def)

lemma removeTmpDir_swallows:
  assumes "emptyDirSync_error env d \<noteq> None \<or> removeCallback_error env d \<noteq> None"
    and "d \<in> set (fs w)"
  shows "d \<in> set (fs (removeTmpDir env (Some \<lparr>dir_name = d\<rparr>) w))"
  using assms
  by (auto simp: removeTmpDir_def removeCallback_def emptyDirSync_def list_ex_iff
      split: option.splits)

lemma createTmpDir_Inr:
  assumes "createTmpDir env w = (Inr d, w1)"
  shows "\<exists>n. tmp_dirSync env = Inr n \<and> d = TmpDirData \<lparr>dir_name = n\<rparr> \<and> n \<in> set (fs w1)"
  using assms by (auto simp: createTmpDir_def split: sum.splits)

lemma fs_kept_restic:
  "d \<in> set (fs w) \<Longrightarrow> d \<in> set (fs (snd (restic_restore env site p pw h dir w)))"
  by (simp add: restic_restore_def split: sum.splits)

lemma fs_importDatabase: "fs (snd (importDatabase env site tmp w)) = fs w"
  by (simp add: importDatabase_def world_ops split: option.splits sum.splits prod.splits)

lemma fs_kept_copySync:
  "d \<in> set ps \<Longrightarrow> d \<in> set (copySync src dst ps)"
  "d \<in> set ps \<Longrightarrow> d \<in> set (copySync_partial env src dst ps)"
  by (simp_all add: copySync_def copySync_partial_def)

lemma fs_kept_remove_items:
  assumes "d \<in> set (fs w)" and "spared env d site w"
  shows "d \<in> set (remove_items env (getFilteredSiteFiles env w site) (fs w))"
  using assms by (auto simp: spared_def list_all_iff intro: remove_items_spares)

lemma spared_outside:
  assumes "\<not> list_ex hasMagic (formatHomePath env (site_path site))"
    and "\<not> prefix (formatHomePath env (site_path site)) d"
  shows "spared env d site w"
proof -
  have "\<not> prefix p d" if "p \<in> set (getFilteredSiteFiles env w site)" for p
  proof
    assume "prefix p d"
    moreover from that obtain n where "p = formatHomePath env (site_path site) @ [n]"
      by (auto simp: set_getFilteredSiteFiles [OF assms(1)])
    ultimately have "prefix (formatHomePath env (site_path site)) d"
      by (auto simp: prefix_def)
    with assms(2) show False by simp
  qed
  then show ?thesis by (auto simp: spared_def list_all_iff)
qed

lemma fs_kept_restore_services:
  "d \<in> set (fs w) \<Longrightarrow> d \<in> set (fs (snd (restoreBackup env c w)))"
  "d \<in> set (fs w) \<Longrightarrow> spared env d (r_site c) w
     \<Longrightarrow> d \<in> set (fs (snd (moveSiteFromTmpDir_restore env c w)))"
  "d \<in> set (fs w) \<Longrightarrow> d \<in> set (fs (snd (importDatabase_restore env c w)))"
  by (simp_all add: restoreBackup_def fs_kept_restic importDatabase_restore_def fs_importDatabase
      moveSiteFromTmpDir_restore_def Let_def logger_def fs_kept_copySync fs_kept_remove_items
      split: option.splits)

lemma moveSiteFromTmpDir_restore_Inr:
  assumes "fst (moveSiteFromTmpDir_restore env c w) = Inr r" and "r_tmpDirData c = Some tmp"
  shows "dir_name tmp \<in> set (fs (snd (moveSiteFromTmpDir_restore env c w)))"
  using assms
  by (auto simp: moveSiteFromTmpDir_restore_def Let_def logger_def existsSync_def fs_kept_copySync
      split: option.splits if_splits)

lemma fs_restore_failure [simp]: "fs (snd (snd (restore_failure env e c w))) = fs w"
  by (simp add: restore_failure_def setErroredStatus_restore_def onTransition_restore_def world_ops
      split: option.splits)

lemma fs_onTransition_restore [simp]: "fs (onTransition_restore env s w) = fs w"
  by (simp add: onTransition_restore_def world_ops)

lemma staged_restore_step:
  assumes tmp: "tmp_dirSync env = Inr d"
    and inv: "staged_restore site d (s, c, w)"
  shows "staged_restore site d (step (restoreMachine env) (onTransition_restore env) (s, c, w))"
proof (cases s)
  case R_gettingBackupCredentials
  with inv show ?thesis
    by (auto simp: staged_restore_def step_restore_simps restore_failure_def split_beta
        assign_credentials_restore_def split: sum.splits event_data.splits)
next
  case R_creatingTmpDir
  show ?thesis
  proof (cases "createTmpDir env w")
    case (Pair r w1)
    show ?thesis
    proof (cases r)
      case (Inl e)
      with Pair R_creatingTmpDir inv show ?thesis
        by (simp add: staged_restore_def step_restore_simps restore_failure_def)
    next
      case (Inr dd)
      with Pair createTmpDir_Inr [of env w dd w1] tmp
      have "dd = TmpDirData \<lparr>dir_name = d\<rparr>" "d \<in> set (fs w1)" by auto
      with Pair Inr R_creatingTmpDir inv show ?thesis
        by (simp add: staged_restore_def step_restore_simps assign_tmpDirData_restore_def)
    qed
  qed
next
  case R_restoringBackup
  with inv fs_kept_restore_services(1) [of d w env c] show ?thesis
    by (auto simp: staged_restore_def step_restore_simps restore_failure_def split_beta
        split: sum.splits)
next
  case R_movingSiteFromTmpDir
  with inv moveSiteFromTmpDir_restore_Inr [of env c w _ "\<lparr>dir_name = d\<rparr>"] show ?thesis
    by (auto simp: staged_restore_def step_restore_simps restore_failure_def split_beta
        split: sum.splits)
next
  case R_restoringDatabase
  with inv show ?thesis
    by (auto simp: staged_restore_def step_restore_simps restore_failure_def split_beta
        split: sum.splits)
next
  case R_finished
  with inv show ?thesis by (simp add: staged_restore_def step_restore_simps)
next
  case R_failed
  with inv show ?thesis by (simp add: staged_restore_def step_restore_simps)
qed

lemma restore_run_staged:
  assumes run: "restore_run env opts w = Some cfgs"
    and tmp: "tmp_dirSync env = Inr d"
  shows "list_all (staged_restore (ro_site opts) d) cfgs"
proof (rule interpret_invariant [OF run [unfolded restore_run_def]])
  show "staged_restore (ro_site opts) d
          (start (restoreMachine env) (onTransition_restore env) R_gettingBackupCredentials
             (restore_initial_context env opts) (w\<lparr>inProgressStateMachine := Some RestoreService\<rparr>))"
    by (simp add: start_restore staged_restore_def restore_initial_context_def)
next
  fix cfg :: "(restore_state, RestoreContext) config"
  assume "staged_restore (ro_site opts) d cfg"
  with staged_restore_step [OF tmp, where s = "fst cfg" and c = "fst (snd cfg)" and w = "snd (snd cfg)"]
  show "staged_restore (ro_site opts) d (step (restoreMachine env) (onTransition_restore env) cfg)"
    by simp
qed

lemma restore_last_step:
  assumes run: "restore_run env opts w = Some cfgs"
  obtains s c w1 where "2 \<le> length cfgs" "cfgs ! (length cfgs - 2) = (s, c, w1)"
    "s \<noteq> R_finished" "s \<noteq> R_failed"
    "last cfgs = step (restoreMachine env) (onTransition_restore env) (s, c, w1)"
proof -
  let ?m = "restoreMachine env" and ?L = "onTransition_restore env"
  have nf: "\<not> is_final ?m (fst (start ?m ?L R_gettingBackupCredentials
               (restore_initial_context env opts)
               (w\<lparr>inProgressStateMachine := Some RestoreService\<rparr>)))"
    by (simp add: start_restore is_final_restore)
  from interpret_last_step [OF run [unfolded restore_run_def] nf]
  have len: "2 \<le> length cfgs" and pnf: "\<not> is_final ?m (fst (cfgs ! (length cfgs - 2)))"
    and l: "last cfgs = step ?m ?L (cfgs ! (length cfgs - 2))" by auto
  obtain s c w1 where p: "cfgs ! (length cfgs - 2) = (s, c, w1)"
    by (cases "cfgs ! (length cfgs - 2)") auto
  show ?thesis
  proof (rule that [OF len p])
    from pnf p show "s \<noteq> R_finished" "s \<noteq> R_failed" by (auto simp: is_final_restore)
    from l p show "last cfgs = step ?m ?L (s, c, w1)" by simp
  qed
qed

lemma restore_staging_asymmetry:
  assumes run: "restore_run env opts w = Some cfgs"
    and tmp: "tmp_dirSync env = Inr d"
  shows "(fst (last cfgs) = R_finished \<longrightarrow>
            (emptyDirSync_error env d = None \<and> removeCallback_error env d = None \<longrightarrow>
               (\<forall>p \<in> set (fs (snd (snd (last cfgs)))). \<not> prefix d p))
          \<and> (emptyDirSync_error env d \<noteq> None \<or> removeCallback_error env d \<noteq> None \<longrightarrow>
               d \<in> set (fs (snd (snd (last cfgs))))))
       \<and> (failed_in R_failed s (map fst cfgs) \<and> s \<in> after_staging_restore
            \<and> list_all (staging_spared env d) cfgs
          \<longrightarrow> d \<in> set (fs (snd (snd (last cfgs)))))"
proof -
  from restore_last_step [OF run] obtain s' c w1
    where len: "2 \<le> length cfgs" and p: "cfgs ! (length cfgs - 2) = (s', c, w1)"
      and nf: "s' \<noteq> R_finished" "s' \<noteq> R_failed"
      and l: "last cfgs = step (restoreMachine env) (onTransition_restore env) (s', c, w1)"
    by blast
  have at: "P (s', c, w1)" if "list_all P cfgs" for P
    using that len p by (auto simp: list_all_length dest!: spec [of _ "length cfgs - 2"])
  from at [OF restore_run_staged [OF run tmp]]
  have inv: "staged_restore (ro_site opts) d (s', c, w1)" .
  have fin: "(emptyDirSync_error env d = None \<and> removeCallback_error env d = None \<longrightarrow>
               (\<forall>p \<in> set (fs (snd (snd (last cfgs)))). \<not> prefix d p))
          \<and> (emptyDirSync_error env d \<noteq> None \<or> removeCallback_error env d \<noteq> None \<longrightarrow>
               d \<in> set (fs (snd (snd (last cfgs)))))"
    if "fst (last cfgs) = R_finished"
  proof -
    from that l nf have s': "s' = R_restoringDatabase"
      by (cases s') (auto simp: step_restore_simps restore_failure_def split_beta split: sum.splits)
    with inv have t: "r_tmpDirData c = Some \<lparr>dir_name = d\<rparr>" and d: "d \<in> set (fs w1)"
      by (simp_all add: staged_restore_def)
    from d have d': "d \<in> set (fs (snd (importDatabase_restore env c w1)))"
      by (rule fs_kept_restore_services(3))
    from that l s' t
    have "fs (snd (snd (last cfgs)))
            = fs (removeTmpDir env (Some \<lparr>dir_name = d\<rparr>) (snd (importDatabase_restore env c w1)))"
      by (auto simp: step_restore_simps restore_failure_def split_beta split: sum.splits)
    with removeTmpDir_removes [where env = env, OF _ _ d']
      removeTmpDir_swallows [where env = env, OF _ d']
    show ?thesis by auto
  qed
  have fl: "d \<in> set (fs (snd (snd (last cfgs))))"
    if "failed_in R_failed s (map fst cfgs)" and "s \<in> after_staging_restore"
      and "list_all (staging_spared env d) cfgs"
  proof -
    from len have "cfgs \<noteq> []" by auto
    with that(1) len p have "s' = s" and lf: "fst (last cfgs) = R_failed"
      by (auto simp: failed_in_def last_map)
    with that(2) inv have d: "d \<in> set (fs w1)"
      by (auto simp: staged_restore_def after_staging_restore_def)
    from at [OF that(3)] \<open>s' = s\<close>
    have sp: "s = R_movingSiteFromTmpDir \<longrightarrow> spared env d (r_site c) w1"
      by (simp add: staging_spared_def)
    from that(2) \<open>s' = s\<close> lf l d sp fs_kept_restore_services [of d w1 env c]
    show ?thesis
      by (auto simp: step_restore_simps after_staging_restore_def split_beta split: sum.splits)
  qed
  from fin fl show ?thesis by blast
qed

text \<open>A staging directory outside the directory of a site whose path holds no character
  of the pattern syntax is spared in every configuration of a restore of that site.\<close>

lemma restore_run_spared:
  assumes run: "restore_run env opts w = Some cfgs"
    and plain: "\<not> list_ex hasMagic (formatHomePath env (site_path (ro_site opts)))"
    and out: "\<not> prefix (formatHomePath env (site_path (ro_site opts))) d"
  shows "list_all (staging_spared env d) cfgs"
  using restore_run_context [OF run] spared_outside [OF plain out]
  by (auto simp: list_all_iff staging_spared_def)

subsection \<open>The logger's lines do not influence a restore\<close>

lemma ni_importDatabase:
  "fst (importDatabase env site tmp (w\<lparr>logs := l\<rparr>)) = fst (importDatabase env site tmp w)
   \<and> eq_upto_logs (snd (importDatabase env site tmp w))
        (snd (importDatabase env site tmp (w\<lparr>logs := l\<rparr>)))"
  by (simp add: importDatabase_def world_ops existsSync_def eq_upto_logs_def
      split: option.splits sum.splits prod.splits)

lemma ni_restore_services:
  "fst (getCredentials_restore env c (w\<lparr>logs := l\<rparr>)) = fst (getCredentials_restore env c w)
   \<and> eq_upto_logs (snd (getCredentials_restore env c w))
        (snd (getCredentials_restore env c (w\<lparr>logs := l\<rparr>)))"
  "fst (createTmpDir env (w\<lparr>logs := l\<rparr>)) = fst (createTmpDir env w)
   \<and> eq_upto_logs (snd (createTmpDir env w)) (snd (createTmpDir env (w\<lparr>logs := l\<rparr>)))"
  "fst (restoreBackup env c (w\<lparr>logs := l\<rparr>)) = fst (restoreBackup env c w)
   \<and> eq_upto_logs (snd (restoreBackup env c w)) (snd (restoreBackup env c (w\<lparr>logs := l\<rparr>)))"
  "fst (moveSiteFromTmpDir_restore env c (w\<lparr>logs := l\<rparr>)) = fst (moveSiteFromTmpDir_restore env c w)
   \<and> eq_upto_logs (snd (moveSiteFromTmpDir_restore env c w))
        (snd (moveSiteFromTmpDir_restore env c (w\<lparr>logs := l\<rparr>)))"
  by (simp_all add: getCredentials_restore_def restoreBackup_def moveSiteFromTmpDir_restore_def
      getSiteDataFromDisk_def getFilteredSiteFiles_def
      world_ops existsSync_def eq_upto_logs_def
      split: option.splits sum.splits prod.splits)

lemma ni_importDatabase_restore:
  "fst (importDatabase_restore env c (w\<lparr>logs := l\<rparr>)) = fst (importDatabase_restore env c w)
   \<and> eq_upto_logs (snd (importDatabase_restore env c w))
        (snd (importDatabase_restore env c (w\<lparr>logs := l\<rparr>)))"
  by (simp add: importDatabase_restore_def ni_importDatabase)

lemma ni_restore_rest:
  assumes "eq_upto_logs a b"
  shows "eq_upto_logs (onTransition_restore env s a) (onTransition_restore env s b)"
    and "eq_upto_logs (removeTmpDir env tmp a) (removeTmpDir env tmp b)"
    and "eq_upto_logs (snd (snd (restore_failure env e c a))) (snd (snd (restore_failure env e c b)))"
proof -
  from eq_upto_logsD [OF assms] obtain l where b: "b = a\<lparr>logs := l\<rparr>" by blast
  show "eq_upto_logs (onTransition_restore env s a) (onTransition_restore env s b)"
    by (simp add: b onTransition_restore_def world_ops eq_upto_logs_def)
  show "eq_upto_logs (removeTmpDir env tmp a) (removeTmpDir env tmp b)"
    by (simp add: b world_ops eq_upto_logs_def split: option.splits prod.splits)
  show "eq_upto_logs (snd (snd (restore_failure env e c a))) (snd (snd (restore_failure env e c b)))"
    by (simp add: b restore_failure_def setErroredStatus_restore_def onTransition_restore_def
        world_ops eq_upto_logs_def split: option.splits)
qed

lemma restore_failure_parts [simp]:
  "fst (restore_failure env e c w) = R_failed"
  "fst (snd (restore_failure env e c w)) = c\<lparr>r_error := Some (ErrorData e)\<rparr>"
  by (simp_all add: restore_failure_def)

lemma ni_step_restore:
  assumes "eq_upto_logs w w'"
  shows "eq_config_upto_logs (step (restoreMachine env) (onTransition_restore env) (s, c, w))
           (step (restoreMachine env) (onTransition_restore env) (s, c, w'))"
proof -
  from eq_upto_logsD [OF assms] obtain l where w': "w' = w\<lparr>logs := l\<rparr>" by blast
  show ?thesis
    unfolding w'
    by (cases s)
       (auto simp: step_restore_simps split_beta eq_config_upto_logs_def
          ni_restore_services ni_importDatabase_restore ni_restore_rest
          assign_credentials_restore_def assign_tmpDirData_restore_def
          split: sum.splits event_data.splits)
qed

section \<open>Facts about the clone machine\<close>

lemma cloneMachine_simps:
  "cloneMachine env C_gettingBackupCredentials =
     Invoke (getCredentials_clone env) (C_setupDestinationSite, [assign_credentials_clone])
       onBaseSiteErrorFactory"
  "cloneMachine env C_setupDestinationSite =
     Invoke (setupDestinationSite env) (C_creatingTmpDir, [assign_destinationSite])
       onBaseSiteErrorFactory"
  "cloneMachine env C_creatingTmpDir =
     Invoke (\<lambda>context. createTmpDir env) (C_cloningBackup, [assign_tmpDirData_clone])
       onErrorFactory_clone"
  "cloneMachine env C_cloningBackup =
     Invoke (cloneBackup env) (C_movingSiteFromTmpDir, []) onErrorFactory_clone"
  "cloneMachine env C_movingSiteFromTmpDir =
     Invoke (moveSiteFromTmpDir_clone env) (C_provisioningSite, []) onErrorFactory_clone"
  "cloneMachine env C_provisioningSite =
     Invoke (provisionSite env) (C_restoringDatabase, []) onErrorFactory_clone"
  "cloneMachine env C_restoringDatabase =
     Invoke (importDatabase_clone env) (C_searchReplaceDomain, []) onErrorFactory_clone"
  "cloneMachine env C_searchReplaceDomain =
     Invoke (searchReplace env) (C_finished, []) onErrorFactory_clone"
  "cloneMachine env C_finished = Final [removeTmpDir_clone env]"
  "cloneMachine env C_failed = Final []"
  by (simp_all add: cloneMachine_def)

lemma is_final_clone:
  "is_final (cloneMachine env) s = (s = C_finished \<or> s = C_failed)"
  by (cases s) (simp_all add: is_final_def cloneMachine_simps)

lemma clone_table:
  "i < length clone_order \<Longrightarrow>
   \<exists>src acts eacts. cloneMachine env (clone_order ! i) =
      Invoke src ((clone_order @ [C_finished]) ! Suc i, acts) (C_failed, eacts)"
  by (auto simp: clone_order_def cloneMachine_simps onErrorFactory_clone_def
      onBaseSiteErrorFactory_def less_Suc_eq)

lemma start_clone:
  "start (cloneMachine env) L C_gettingBackupCredentials c w
     = (C_gettingBackupCredentials, c, L C_gettingBackupCredentials w)"
  by (simp add: start_def enter_def cloneMachine_simps)

lemma clone_run_follows_order:
  "\<exists>cfgs. clone_run env opts w = Some cfgs
         \<and> follows_order clone_order C_finished C_failed (map fst cfgs)"
proof -
  have "0 < length clone_order" by (simp add: clone_order_def)
  from interpret_follows_order [where m = "cloneMachine env" and order = clone_order
      and fin = C_finished and fl = C_failed and i = 0, OF clone_table _ _ this]
  show ?thesis
    by (simp add: is_final_clone clone_run_def start_clone clone_order_def)
qed

lemma fst_clone_error_actions [simp]:
  "fst (setErroredBaseSite c ev w) = c"
  "fst (setErroredStatus_clone c ev w) = c"
  by (simp_all add: setErroredBaseSite_def setErroredStatus_clone_def Let_def)

lemma clone_failure_parts [simp]:
  "fst (clone_failure env e c w) = C_failed"
  "fst (snd (clone_failure env e c w)) = c\<lparr>c_error := Some (ErrorData e)\<rparr>"
  "fst (clone_base_failure env e c w) = C_failed"
  "fst (snd (clone_base_failure env e c w)) = c\<lparr>c_error := Some (ErrorData e)\<rparr>"
  by (simp_all add: clone_failure_def clone_base_failure_def)

text \<open>The step of the clone machine, state by state.\<close>

lemma step_clone_simps:
  "step (cloneMachine env) (onTransition_clone env) (C_gettingBackupCredentials, c, w) =
     (case getCredentials_clone env c w of
        (Inl e, w1) \<Rightarrow> clone_base_failure env e c w1
      | (Inr d, w1) \<Rightarrow>
          (C_setupDestinationSite, fst (assign_credentials_clone c (DoneInvoke d) w1),
           onTransition_clone env C_setupDestinationSite w1))"
  "step (cloneMachine env) (onTransition_clone env) (C_setupDestinationSite, c, w) =
     (case setupDestinationSite env c w of
        (Inl e, w1) \<Rightarrow> clone_base_failure env e c w1
      | (Inr d, w1) \<Rightarrow>
          (C_creatingTmpDir, fst (assign_destinationSite c (DoneInvoke d) w1),
           onTransition_clone env C_creatingTmpDir w1))"
  "step (cloneMachine env) (onTransition_clone env) (C_creatingTmpDir, c, w) =
     (case createTmpDir env w of
        (Inl e, w1) \<Rightarrow> clone_failure env e c w1
      | (Inr d, w1) \<Rightarrow>
          (C_cloningBackup, fst (assign_tmpDirData_clone c (DoneInvoke d) w1),
           onTransition_clone env C_cloningBackup w1))"
  "step (cloneMachine env) (onTransition_clone env) (C_cloningBackup, c, w) =
     (case cloneBackup env c w of
        (Inl e, w1) \<Rightarrow> clone_failure env e c w1
      | (Inr d, w1) \<Rightarrow>
          (C_movingSiteFromTmpDir, c, onTransition_clone env C_movingSiteFromTmpDir w1))"
  "step (cloneMachine env) (onTransition_clone env) (C_movingSiteFromTmpDir, c, w) =
     (case moveSiteFromTmpDir_clone env c w of
        (Inl e, w1) \<Rightarrow> clone_failure env e c w1
      | (Inr d, w1) \<Rightarrow>
          (C_provisioningSite, c, onTransition_clone env C_provisioningSite w1))"
  "step (cloneMachine env) (onTransition_clone env) (C_provisioningSite, c, w) =
     (case provisionSite env c w of
        (Inl e, w1) \<Rightarrow> clone_failure env e c w1
      | (Inr d, w1) \<Rightarrow>
          (C_restoringDatabase, c, onTransition_clone env C_restoringDatabase w1))"
  "step (cloneMachine env) (onTransition_clone env) (C_restoringDatabase, c, w) =
     (case importDatabase_clone env c w of
        (Inl e, w1) \<Rightarrow> clone_failure env e c w1
      | (Inr d, w1) \<Rightarrow>
          (C_searchReplaceDomain, c, onTransition_clone env C_searchReplaceDomain w1))"
  "step (cloneMachine env) (onTransition_clone env) (C_searchReplaceDomain, c, w) =
     (case searchReplace env c w of
        (Inl e, w1) \<Rightarrow> clone_failure env e c w1
      | (Inr d, w1) \<Rightarrow>
          (C_finished, c, onTransition_clone env C_finished (removeTmpDir env (c_tmpDirData c) w1)))"
  "step (cloneMachine env) (onTransition_clone env) (C_finished, c, w) = (C_finished, c, w)"
  "step (cloneMachine env) (onTransition_clone env) (C_failed, c, w) = (C_failed, c, w)"
  by (simp_all add: step_def enter_def onErrorFactory_clone_def onBaseSiteErrorFactory_def
      cloneMachine_simps clone_failure_def clone_base_failure_def
      setErrorOnContext_clone_def logError_clone_def
      assign_credentials_clone_def assign_tmpDirData_clone_def assign_destinationSite_def
      removeTmpDir_clone_def split_beta
      split: sum.splits event_data.splits)

lemma clone_last_step:
  assumes run: "clone_run env opts w = Some cfgs"
  obtains s c w1 where "2 \<le> length cfgs" "cfgs ! (length cfgs - 2) = (s, c, w1)"
    "s \<noteq> C_finished" "s \<noteq> C_failed"
    "last cfgs = step (cloneMachine env) (onTransition_clone env) (s, c, w1)"
proof -
  let ?m = "cloneMachine env" and ?L = "onTransition_clone env"
  have nf: "\<not> is_final ?m (fst (start ?m ?L C_gettingBackupCredentials
               (clone_initial_context opts)
               (w\<lparr>inProgressStateMachine := Some CloneService\<rparr>)))"
    by (simp add: start_clone is_final_clone)
  from interpret_last_step [OF run [unfolded clone_run_def] nf]
  have len: "2 \<le> length cfgs" and pnf: "\<not> is_final ?m (fst (cfgs ! (length cfgs - 2)))"
    and l: "last cfgs = step ?m ?L (cfgs ! (length cfgs - 2))" by auto
  obtain s c w1 where p: "cfgs ! (length cfgs - 2) = (s, c, w1)"
    by (cases "cfgs ! (length cfgs - 2)") auto
  show ?thesis
  proof (rule that [OF len p])
    from pnf p show "s \<noteq> C_finished" "s \<noteq> C_failed" by (auto simp: is_final_clone)
    from l p show "last cfgs = step ?m ?L (s, c, w1)" by simp
  qed
qed

subsection \<open>What the clone machine leaves unchanged\<close>

lemma slot_clone_services:
  "inProgressStateMachine (snd (getCredentials_clone env c w)) = inProgressStateMachine w"
  "inProgressStateMachine (snd (setupDestinationSite env c w)) = inProgressStateMachine w"
  "inProgressStateMachine (snd (cloneBackup env c w)) = inProgressStateMachine w"
  "inProgressStateMachine (snd (moveSiteFromTmpDir_clone env c w)) = inProgressStateMachine w"
  "inProgressStateMachine (snd (provisionSite env c w)) = inProgressStateMachine w"
  "inProgressStateMachine (snd (importDatabase_clone env c w)) = inProgressStateMachine w"
  "inProgressStateMachine (snd (searchReplace env c w)) = inProgressStateMachine w"
  "inProgressStateMachine (onTransition_clone env s w) = inProgressStateMachine w"
  "inProgressStateMachine (snd (snd (clone_failure env e c w))) = inProgressStateMachine w"
  "inProgressStateMachine (snd (snd (clone_base_failure env e c w))) = inProgressStateMachine w"
  by (simp_all add: getCredentials_clone_def setupDestinationSite_def cloneBackup_def
      moveSiteFromTmpDir_clone_def provisionSite_def importDatabase_clone_def searchReplace_def
      slot_importDatabase onTransition_clone_def getSiteDataFromDisk_def
      clone_failure_def clone_base_failure_def setErroredStatus_clone_def setErroredBaseSite_def
      world_ops split: option.splits sum.splits prod.splits)

lemma slot_step_clone:
  "inProgressStateMachine (snd (snd (step (cloneMachine env) (onTransition_clone env) (s, c, w))))
     = inProgressStateMachine w"
  by (cases s)
     (auto simp: step_clone_simps split_beta slot_clone_services slot_restore_services
        split: sum.splits)

subsection \<open>The logger's lines do not influence a clone\<close>

lemma ni_clone_services:
  "fst (getCredentials_clone env c (w\<lparr>logs := l\<rparr>)) = fst (getCredentials_clone env c w)
   \<and> eq_upto_logs (snd (getCredentials_clone env c w))
        (snd (getCredentials_clone env c (w\<lparr>logs := l\<rparr>)))"
  "fst (setupDestinationSite env c (w\<lparr>logs := l\<rparr>)) = fst (setupDestinationSite env c w)
   \<and> eq_upto_logs (snd (setupDestinationSite env c w))
        (snd (setupDestinationSite env c (w\<lparr>logs := l\<rparr>)))"
  "fst (cloneBackup env c (w\<lparr>logs := l\<rparr>)) = fst (cloneBackup env c w)
   \<and> eq_upto_logs (snd (cloneBackup env c w)) (snd (cloneBackup env c (w\<lparr>logs := l\<rparr>)))"
  "fst (moveSiteFromTmpDir_clone env c (w\<lparr>logs := l\<rparr>)) = fst (moveSiteFromTmpDir_clone env c w)
   \<and> eq_upto_logs (snd (moveSiteFromTmpDir_clone env c w))
        (snd (moveSiteFromTmpDir_clone env c (w\<lparr>logs := l\<rparr>)))"
  "fst (provisionSite env c (w\<lparr>logs := l\<rparr>)) = fst (provisionSite env c w)
   \<and> eq_upto_logs (snd (provisionSite env c w)) (snd (provisionSite env c (w\<lparr>logs := l\<rparr>)))"
  "fst (searchReplace env c (w\<lparr>logs := l\<rparr>)) = fst (searchReplace env c w)
   \<and> eq_upto_logs (snd (searchReplace env c w)) (snd (searchReplace env c (w\<lparr>logs := l\<rparr>)))"
  by (simp_all add: getCredentials_clone_def setupDestinationSite_def cloneBackup_def
      moveSiteFromTmpDir_clone_def provisionSite_def searchReplace_def
      getSiteDataFromDisk_def checkForDuplicateSiteName_def
      world_ops existsSync_def eq_upto_logs_def
      split: option.splits sum.splits prod.splits)

lemma ni_importDatabase_clone:
  "fst (importDatabase_clone env c (w\<lparr>logs := l\<rparr>)) = fst (importDatabase_clone env c w)
   \<and> eq_upto_logs (snd (importDatabase_clone env c w))
        (snd (importDatabase_clone env c (w\<lparr>logs := l\<rparr>)))"
  by (simp add: importDatabase_clone_def ni_importDatabase split: option.splits)

lemma ni_clone_rest:
  assumes "eq_upto_logs a b"
  shows "eq_upto_logs (onTransition_clone env s a) (onTransition_clone env s b)"
    and "eq_upto_logs (snd (snd (clone_failure env e c a))) (snd (snd (clone_failure env e c b)))"
    and "eq_upto_logs (snd (snd (clone_base_failure env e c a)))
           (snd (snd (clone_base_failure env e c b)))"
proof -
  from eq_upto_logsD [OF assms] obtain l where b: "b = a\<lparr>logs := l\<rparr>" by blast
  show "eq_upto_logs (onTransition_clone env s a) (onTransition_clone env s b)"
    by (simp add: b onTransition_clone_def world_ops eq_upto_logs_def)
  show "eq_upto_logs (snd (snd (clone_failure env e c a))) (snd (snd (clone_failure env e c b)))"
    by (simp add: b clone_failure_def setErroredStatus_clone_def onTransition_clone_def
        world_ops eq_upto_logs_def)
  show "eq_upto_logs (snd (snd (clone_base_failure env e c a)))
           (snd (snd (clone_base_failure env e c b)))"
    by (simp add: b clone_base_failure_def setErroredBaseSite_def onTransition_clone_def
        world_ops eq_upto_logs_def)
qed

lemma ni_step_clone:
  assumes "eq_upto_logs w w'"
  shows "eq_config_upto_logs (step (cloneMachine env) (onTransition_clone env) (s, c, w))
           (step (cloneMachine env) (onTransition_clone env) (s, c, w'))"
proof -
  from eq_upto_logsD [OF assms] obtain l where w': "w' = w\<lparr>logs := l\<rparr>" by blast
  show ?thesis
    unfolding w'
    by (cases s)
       (auto simp: step_clone_simps split_beta eq_config_upto_logs_def
          ni_clone_services ni_restore_services(2) ni_importDatabase_clone ni_clone_rest
          ni_restore_rest(2)
          assign_credentials_clone_def assign_tmpDirData_clone_def assign_destinationSite_def
          split: sum.splits event_data.splits)
qed

subsection \<open>The staging directory and the destination site of a clone\<close>

lemma fs_clone_parts [simp]:
  "fs (snd (snd (clone_failure env e c w))) = fs w"
  "fs (snd (snd (clone_base_failure env e c w))) = fs w"
  "fs (onTransition_clone env s w) = fs w"
  by (simp_all add: clone_failure_def clone_base_failure_def setErroredStatus_clone_def
      setErroredBaseSite_def onTransition_clone_def world_ops)

lemma sites_clone_parts [simp]:
  "sites (snd (snd (clone_failure env e c w))) = sites w"
  "sites (snd (snd (clone_base_failure env e c w))) = sites w"
  "sites (onTransition_clone env s w) = sites w"
  "sites (removeTmpDir env tmp w) = sites w"
  by (simp_all add: clone_failure_def clone_base_failure_def setErroredStatus_clone_def
      setErroredBaseSite_def onTransition_clone_def world_ops split: option.splits prod.splits)

lemma sites_importDatabase: "sites (snd (importDatabase env site tmp w)) = sites w"
  by (simp add: importDatabase_def world_ops split: option.splits sum.splits prod.splits)

lemma sites_clone_services:
  "sites (snd (getCredentials_clone env c w)) = sites w"
  "sites (snd (createTmpDir env w)) = sites w"
  "sites (snd (cloneBackup env c w)) = sites w"
  "sites (snd (moveSiteFromTmpDir_clone env c w)) = sites w"
  "sites (snd (provisionSite env c w)) = sites w"
  "sites (snd (importDatabase_clone env c w)) = sites w"
  "sites (snd (searchReplace env c w)) = sites w"
  by (simp_all add: getCredentials_clone_def cloneBackup_def
      moveSiteFromTmpDir_clone_def provisionSite_def importDatabase_clone_def searchReplace_def
      sites_importDatabase world_ops split: option.splits sum.splits prod.splits)

lemma fs_kept_clone_services:
  "d \<in> set (fs w) \<Longrightarrow> d \<in> set (fs (snd (cloneBackup env c w)))"
  "d \<in> set (fs w) \<Longrightarrow> d \<in> set (fs (snd (moveSiteFromTmpDir_clone env c w)))"
  "d \<in> set (fs w) \<Longrightarrow> d \<in> set (fs (snd (provisionSite env c w)))"
  "d \<in> set (fs w) \<Longrightarrow> d \<in> set (fs (snd (importDatabase_clone env c w)))"
  "d \<in> set (fs w) \<Longrightarrow> d \<in> set (fs (snd (searchReplace env c w)))"
  by (simp_all add: cloneBackup_def fs_kept_restic importDatabase_clone_def fs_importDatabase
      moveSiteFromTmpDir_clone_def provisionSite_def searchReplace_def
      world_ops fs_kept_copySync split: option.splits sum.splits)

lemma setupDestinationSite_Inr:
  assumes "setupDestinationSite env c w = (Inr d, w1)"
  shows "\<exists>dest. d = DestinationSiteData dest \<and> map_of (sites w1) (site_id dest) = Some dest
               \<and> fs w1 = fs w"
  using assms
  by (auto simp: setupDestinationSite_def Let_def getSiteDataFromDisk_def world_ops
      split: if_splits option.splits)

lemma set_up_clone_step:
  assumes inv: "set_up_clone (s, c, w)"
  shows "set_up_clone (step (cloneMachine env) (onTransition_clone env) (s, c, w))"
proof (cases s)
  case C_setupDestinationSite
  show ?thesis
  proof (cases "setupDestinationSite env c w")
    case (Pair r w1)
    show ?thesis
    proof (cases r)
      case (Inl e)
      with Pair C_setupDestinationSite show ?thesis
        by (simp add: set_up_clone_def step_clone_simps after_setup_def)
    next
      case (Inr d)
      with Pair setupDestinationSite_Inr [of env c w d w1]
      obtain dest where "d = DestinationSiteData dest" "map_of (sites w1) (site_id dest) = Some dest"
        by auto
      with Pair Inr C_setupDestinationSite show ?thesis
        by (simp add: set_up_clone_def step_clone_simps assign_destinationSite_def)
    qed
  qed
qed (use inv in \<open>auto simp: set_up_clone_def step_clone_simps after_setup_def split_beta
       sites_clone_services assign_credentials_clone_def assign_tmpDirData_clone_def
       split: sum.splits event_data.splits\<close>)

lemma staged_clone_step:
  assumes inv: "staged_clone env (s, c, w)"
  shows "staged_clone env (step (cloneMachine env) (onTransition_clone env) (s, c, w))"
proof (cases s)
  case C_creatingTmpDir
  show ?thesis
  proof (cases "createTmpDir env w")
    case (Pair r w1)
    show ?thesis
    proof (cases r)
      case (Inl e)
      with Pair C_creatingTmpDir show ?thesis
        by (simp add: staged_clone_def step_clone_simps after_staging_def)
    next
      case (Inr dd)
      with Pair createTmpDir_Inr [of env w dd w1]
      obtain n where "tmp_dirSync env = Inr n" "dd = TmpDirData \<lparr>dir_name = n\<rparr>" "n \<in> set (fs w1)"
        by auto
      with Pair Inr C_creatingTmpDir show ?thesis
        by (simp add: staged_clone_def step_clone_simps assign_tmpDirData_clone_def)
    qed
  qed
qed (use inv in \<open>auto simp: staged_clone_def step_clone_simps after_staging_def split_beta
       fs_kept_clone_services assign_credentials_clone_def assign_destinationSite_def
       split: sum.splits event_data.splits\<close>)

lemma clone_run_invariants:
  assumes run: "clone_run env opts w = Some cfgs"
  shows "list_all set_up_clone cfgs" and "list_all (staged_clone env) cfgs"
proof -
  show "list_all set_up_clone cfgs"
  proof (rule interpret_invariant [OF run [unfolded clone_run_def]])
    show "set_up_clone (start (cloneMachine env) (onTransition_clone env)
            C_gettingBackupCredentials (clone_initial_context opts)
            (w\<lparr>inProgressStateMachine := Some CloneService\<rparr>))"
      by (simp add: start_clone set_up_clone_def after_setup_def)
  next
    fix cfg :: "(clone_state, CloneContext) config"
    assume "set_up_clone cfg"
    with set_up_clone_step [of "fst cfg" "fst (snd cfg)" "snd (snd cfg)" env]
    show "set_up_clone (step (cloneMachine env) (onTransition_clone env) cfg)" by simp
  qed
  show "list_all (staged_clone env) cfgs"
  proof (rule interpret_invariant [OF run [unfolded clone_run_def]])
    show "staged_clone env (start (cloneMachine env) (onTransition_clone env)
            C_gettingBackupCredentials (clone_initial_context opts)
            (w\<lparr>inProgressStateMachine := Some CloneService\<rparr>))"
      by (simp add: start_clone staged_clone_def after_staging_def)
  next
    fix cfg :: "(clone_state, CloneContext) config"
    assume "staged_clone env cfg"
    with staged_clone_step [of env "fst cfg" "fst (snd cfg)" "snd (snd cfg)"]
    show "staged_clone env (step (cloneMachine env) (onTransition_clone env) cfg)" by simp
  qed
qed

lemma clone_failure_ipc:
  "ipc (snd (snd (clone_failure env e c w))) =
     ipc w @ [DeleteSite (c_destinationSite c) True,
              GoToRoute (''/main/site-info/'' @ site_id (c_baseSite c)),
              ShowSiteBanner (errored_banner_clone (site_id (c_baseSite c))), BACKUP_STARTED]"
  "ipc (snd (snd (clone_base_failure env e c w))) =
     ipc w @ [GoToRoute (''/main/site-info/'' @ site_id (c_baseSite c)),
              ShowSiteBanner (errored_banner_base (site_id (c_baseSite c))), BACKUP_STARTED]"
  by (simp_all add: clone_failure_def clone_base_failure_def setErroredStatus_clone_def
      setErroredBaseSite_def onTransition_clone_def errored_banner_clone_def
      errored_banner_base_def world_ops)

lemma step_clone_to_failed:
  assumes "service_of (cloneMachine env) s = Some src"
    and "fst (step (cloneMachine env) (onTransition_clone env) (s, c, w)) = C_failed"
  shows "\<exists>e. fst (src c w) = Inl e
            \<and> step (cloneMachine env) (onTransition_clone env) (s, c, w)
                = (if s \<in> after_setup then clone_failure env e c (snd (src c w))
                   else clone_base_failure env e c (snd (src c w)))"
  using assms
  by (cases s)
     (auto simp: service_of_def cloneMachine_simps step_clone_simps split_beta after_setup_def
        split: sum.splits)

lemma service_of_clone:
  "s \<noteq> C_finished \<Longrightarrow> s \<noteq> C_failed \<Longrightarrow> \<exists>src. service_of (cloneMachine env) s = Some src"
  by (cases s) (simp_all add: service_of_def cloneMachine_simps)

lemma sites_service_of_clone:
  assumes "service_of (cloneMachine env) s = Some src" and "s \<noteq> C_setupDestinationSite"
  shows "sites (snd (src c w)) = sites w"
  using assms
  by (cases s) (auto simp: service_of_def cloneMachine_simps sites_clone_services)

lemma fs_kept_service_of_clone:
  assumes "service_of (cloneMachine env) s = Some src" and "s \<in> after_staging"
    and "d \<in> set (fs w)"
  shows "d \<in> set (fs (snd (src c w)))"
  using assms
  by (cases s) (auto simp: service_of_def cloneMachine_simps fs_kept_clone_services after_staging_def)

lemma fs_kept_after_setup:
  assumes "service_of (cloneMachine env) s = Some src" and "s \<in> after_setup"
    and "d \<in> set (fs w)"
  shows "d \<in> set (fs (snd (src c w)))"
  using assms
  by (cases s)
     (auto simp: service_of_def cloneMachine_simps fs_kept_clone_services after_setup_def
        createTmpDir_def split: sum.splits)

lemma onStop_world:
  "snd (onStop cfg p) =
     (snd (snd cfg))\<lparr>inProgressStateMachine := None, ipc := ipc (snd (snd cfg)) @ [BACKUP_COMPLETED]\<rparr>"
  by (simp add: onStop_def sendIPCEvent_def Let_def)

lemma untouched_clone_step:
  assumes inv: "untouched_clone w0 (s, c, w)"
  shows "untouched_clone w0 (step (cloneMachine env) (onTransition_clone env) (s, c, w))"
  using inv
  by (cases s)
     (auto simp: untouched_clone_def step_clone_simps split_beta getCredentials_clone_def
        assign_credentials_clone_def onTransition_clone_def world_ops
        split: sum.splits option.splits event_data.splits)

lemma clone_run_untouched:
  assumes run: "clone_run env opts w = Some cfgs"
  shows "list_all (untouched_clone w) cfgs"
proof (rule interpret_invariant [OF run [unfolded clone_run_def]])
  show "untouched_clone w (start (cloneMachine env) (onTransition_clone env)
          C_gettingBackupCredentials (clone_initial_context opts)
          (w\<lparr>inProgressStateMachine := Some CloneService\<rparr>))"
    by (simp add: start_clone untouched_clone_def clone_initial_context_def
        onTransition_clone_def world_ops)
next
  fix cfg :: "(clone_state, CloneContext) config"
  assume "untouched_clone w cfg"
  with untouched_clone_step [of w "fst cfg" "fst (snd cfg)" "snd (snd cfg)" env]
  show "untouched_clone w (step (cloneMachine env) (onTransition_clone env) cfg)" by simp
qed

lemma setupDestinationSite_Inl:
  assumes "setupDestinationSite env c w = (Inl e, w1)"
  shows "sites w1 = sites w \<and> fs w1 = fs w \<and> provisioned w1 = provisioned w \<and> ipc w1 = ipc w"
  using assms
  by (auto simp: setupDestinationSite_def Let_def getSiteDataFromDisk_def world_ops
      split: if_splits option.splits)

lemma base_failure_world:
  "sites (snd (snd (clone_base_failure env e c w))) = sites w"
  "fs (snd (snd (clone_base_failure env e c w))) = fs w"
  "provisioned (snd (snd (clone_base_failure env e c w))) = provisioned w"
  by (simp_all add: clone_base_failure_def setErroredBaseSite_def onTransition_clone_def world_ops)

lemma context_step_clone:
  "c_baseSite (fst (snd (step (cloneMachine env) (onTransition_clone env) (s, c, w)))) = c_baseSite c
   \<and> c_newSiteName (fst (snd (step (cloneMachine env) (onTransition_clone env) (s, c, w))))
       = c_newSiteName c"
  by (cases s)
     (auto simp: step_clone_simps split_beta
        assign_credentials_clone_def assign_tmpDirData_clone_def assign_destinationSite_def
        split: sum.splits event_data.splits)

lemma clone_run_context:
  assumes "clone_run env opts w = Some cfgs"
  shows "list_all (\<lambda>cfg. c_baseSite (fst (snd cfg)) = co_baseSite opts
                        \<and> c_newSiteName (fst (snd cfg)) = co_newSiteName opts) cfgs"
proof (rule interpret_invariant [OF assms [unfolded clone_run_def]])
  show "c_baseSite (fst (snd (start (cloneMachine env) (onTransition_clone env)
                 C_gettingBackupCredentials (clone_initial_context opts)
                 (w\<lparr>inProgressStateMachine := Some CloneService\<rparr>)))) = co_baseSite opts
        \<and> c_newSiteName (fst (snd (start (cloneMachine env) (onTransition_clone env)
                 C_gettingBackupCredentials (clone_initial_context opts)
                 (w\<lparr>inProgressStateMachine := Some CloneService\<rparr>)))) = co_newSiteName opts"
    by (simp add: start_clone clone_initial_context_def)
next
  fix cfg :: "(clone_state, CloneContext) config"
  assume "c_baseSite (fst (snd cfg)) = co_baseSite opts
          \<and> c_newSiteName (fst (snd cfg)) = co_newSiteName opts"
  then show "c_baseSite (fst (snd (step (cloneMachine env) (onTransition_clone env) cfg))) = co_baseSite opts
        \<and> c_newSiteName (fst (snd (step (cloneMachine env) (onTransition_clone env) cfg)))
           = co_newSiteName opts"
    using context_step_clone [of env "fst cfg" "fst (snd cfg)" "snd (snd cfg)"] by simp
qed

lemma failing_early_world:
  assumes "service_of (cloneMachine env) s = Some src" and "s \<notin> after_setup"
    and "fst (src c w) = Inl e"
  shows "sites (snd (src c w)) = sites w \<and> fs (snd (src c w)) = fs w
       \<and> provisioned (snd (src c w)) = provisioned w \<and> ipc (snd (src c w)) = ipc w"
proof (cases s)
  case C_gettingBackupCredentials
  with assms show ?thesis
    by (auto simp: service_of_def cloneMachine_simps getCredentials_clone_def
        split: option.splits sum.splits)
next
  case C_setupDestinationSite
  with assms setupDestinationSite_Inl [of env c w e "snd (setupDestinationSite env c w)"]
  show ?thesis
    by (auto simp: service_of_def cloneMachine_simps prod_eq_iff)
qed (use assms in \<open>auto simp: service_of_def cloneMachine_simps after_setup_def\<close>)

section \<open>The concrete runs\<close>

text \<open>The states the concrete runs visit, by evaluation.\<close>

lemmas model_defs =
  restore_run_def clone_run_def start_def enter_def step_def is_final_def
  restoreMachine_def cloneMachine_def onTransition_restore_def onTransition_clone_def
  onErrorFactory_restore_def onErrorFactory_clone_def onBaseSiteErrorFactory_def
  restore_initial_context_def clone_initial_context_def
  getCredentials_restore_def getCredentials_clone_def createTmpDir_def restoreBackup_def
  cloneBackup_def restic_restore_def moveSiteFromTmpDir_restore_def moveSiteFromTmpDir_clone_def
  importDatabase_restore_def importDatabase_clone_def importDatabase_def
  setupDestinationSite_def checkForDuplicateSiteName_def provisionSite_def searchReplace_def
  removeTmpDir_restore_def removeTmpDir_clone_def removeTmpDir_def
  setErrorOnContext_restore_def setErrorOnContext_clone_def logError_restore_def logError_clone_def
  setErroredStatus_restore_def setErroredStatus_clone_def setErroredBaseSite_def
  assign_credentials_restore_def assign_credentials_clone_def assign_tmpDirData_restore_def
  assign_tmpDirData_clone_def assign_destinationSite_def
  getFilteredSiteFiles_def glob_sync_def excludePatterns_def dotfile_def hasMagic_def path_join_def
  remove_items_def remove_items_error_def fs_remove_def emptyDirSync_def removeCallback_def
  copySync_def copySync_partial_def existsSync_def getSiteDataFromDisk_def addSite_def showErrorBox_def
  runSiteSQLCmd_def importSQLFile_def apply_query_def siteProcessManager_restart_def
  logger_def sendIPCEvent_def siteDomainTakenError_def toLowerCase_def
  List.union_def List.insert_def Let_def

lemmas ex_defs = ex_env_def ex_site_def ex_world_def ex_restore_opts_def ex_clone_opts_def
  ex_env_no_hub_def ex_env_import_fails_def ex_env_no_dump_def ex_clone_opts_taken_def
  ex_env_cleanup_fails_def ex_env_tmp_in_site_def

lemma ex_restore_no_hub:
  "restore_run ex_env_no_hub ex_restore_opts ex_world = Some cfgs \<Longrightarrow>
   map fst cfgs = [R_gettingBackupCredentials, R_failed]"
  by (simp add: interpret_machine.simps model_defs ex_defs) auto

lemma ex_restore_import_fails:
  "restore_run ex_env_import_fails ex_restore_opts ex_world = Some cfgs \<Longrightarrow>
   map fst cfgs = [R_gettingBackupCredentials, R_creatingTmpDir, R_restoringBackup,
                   R_movingSiteFromTmpDir, R_restoringDatabase, R_failed]"
  by (simp add: interpret_machine.simps model_defs ex_defs) auto

lemma ex_restore_ok:
  "restore_run ex_env ex_restore_opts ex_world = Some cfgs \<Longrightarrow>
   map fst cfgs = restore_order @ [R_finished]"
  by (simp add: interpret_machine.simps model_defs ex_defs restore_order_def) auto

lemma ex_clone_ok:
  "clone_run ex_env ex_clone_opts ex_world = Some cfgs \<Longrightarrow>
   map fst cfgs = clone_order @ [C_finished]"
  by (simp add: interpret_machine.simps model_defs ex_defs clone_order_def) auto

lemma ex_clone_taken:
  "clone_run ex_env ex_clone_opts_taken ex_world = Some cfgs \<Longrightarrow>
   map fst cfgs = [C_gettingBackupCredentials, C_setupDestinationSite, C_failed]"
  by (simp add: interpret_machine.simps model_defs ex_defs) auto

lemma ex_clone_import_fails:
  "clone_run ex_env_import_fails ex_clone_opts ex_world = Some cfgs \<Longrightarrow>
   map fst cfgs = [C_gettingBackupCredentials, C_setupDestinationSite, C_creatingTmpDir,
                   C_cloningBackup, C_movingSiteFromTmpDir, C_provisioningSite,
                   C_restoringDatabase, C_failed]"
  by (simp add: interpret_machine.simps model_defs ex_defs) auto

lemma ex_clone_no_hub:
  "clone_run ex_env_no_hub ex_clone_opts ex_world = Some cfgs \<Longrightarrow>
   map fst cfgs = [C_gettingBackupCredentials, C_failed]"
  by (simp add: interpret_machine.simps model_defs ex_defs) auto

lemma ex_restore_cleanup_fails:
  "restore_run ex_env_cleanup_fails ex_restore_opts ex_world = Some cfgs \<Longrightarrow>
   map fst cfgs = restore_order @ [R_finished]"
  by (simp add: interpret_machine.simps model_defs ex_defs restore_order_def) auto

lemma ex_clone_cleanup_fails:
  "clone_run ex_env_cleanup_fails ex_clone_opts ex_world = Some cfgs \<Longrightarrow>
   map fst cfgs = clone_order @ [C_finished]"
  by (simp add: interpret_machine.simps model_defs ex_defs clone_order_def) auto

lemma ex_restore_spared:
  "restore_run ex_env_import_fails ex_restore_opts ex_world = Some cfgs \<Longrightarrow>
   list_all (staging_spared ex_env_import_fails [''tmp'', ''t1'']) cfgs"
  by (simp add: interpret_machine.simps model_defs ex_defs)
     (auto simp: staging_spared_def spared_def model_defs ex_defs)

section \<open>The properties of the two workflows\<close>

lemma restoreFromBackup_admitted:
  "inProgressStateMachine w = None \<Longrightarrow> restore_run env opts w = Some cfgs \<Longrightarrow>
   restoreFromBackup env opts w = Some (onStop (last cfgs) Pending)"
  by (simp add: restoreFromBackup_def)

lemma cloneFromBackup_admitted:
  "inProgressStateMachine w = None \<Longrightarrow> clone_run env opts w = Some cfgs \<Longrightarrow>
   cloneFromBackup env opts w = Some (onStop (last cfgs) Pending)"
  by (simp add: cloneFromBackup_def)

text \<open>
  Claim C9 (recovery of a failed restore). When an admitted restore ends in the failed
  state, then in the world the failed state is entered with (before the stop listener
  runs and the promise settles) the last events sent are the update of the site's status
  to the status read before the machine was started, the error banner for that site and
  the notification of the transition, and the last call of the process manager is the
  restart of the site; the stop listener only adds the completed event.
\<close>

theorem restore_failure_recovery:
  assumes free: "inProgressStateMachine w = None"
    and run: "restore_run env opts w = Some cfgs"
    and failed: "fst (last cfgs) = R_failed"
  shows "\<exists>e earlier restarted.
           restoreFromBackup env opts w = Some (onStop (last cfgs) Pending)
         \<and> r_error (fst (snd (last cfgs))) = Some (ErrorData e)
         \<and> ipc (snd (snd (last cfgs))) =
             earlier @ [UpdateSiteStatus (site_id (ro_site opts)) (getSiteStatus env (ro_site opts)),
                        ShowSiteBanner (errored_banner_restore (site_id (ro_site opts))),
                        BACKUP_STARTED]
         \<and> restarts (snd (snd (last cfgs))) = restarted @ [ro_site opts]
         \<and> ipc (snd (onStop (last cfgs) Pending)) = ipc (snd (snd (last cfgs))) @ [BACKUP_COMPLETED]
         \<and> restarts (snd (onStop (last cfgs) Pending)) = restarts (snd (snd (last cfgs)))"
proof -
  from restore_last_step [OF run] obtain s c w1
    where len: "2 \<le> length cfgs" and p: "cfgs ! (length cfgs - 2) = (s, c, w1)"
      and nf: "s \<noteq> R_finished" "s \<noteq> R_failed"
      and l: "last cfgs = step (restoreMachine env) (onTransition_restore env) (s, c, w1)"
    by blast
  from restore_run_context [OF run] len p
  have ctx: "r_site c = ro_site opts" "r_initialSiteStatus c = getSiteStatus env (ro_site opts)"
    by (auto simp: list_all_length dest!: spec [of _ "length cfgs - 2"])
  from step_restore_to_failed [of env s c w1] nf failed l
  obtain e w2 where "last cfgs = restore_failure env e c w2"
    by (auto simp: is_final_restore)
  then show ?thesis
    using ctx restoreFromBackup_admitted [OF free run]
    by (simp add: restore_failure_effects onStop_world)
qed

theorem restore_failure_recovery_witness:
  "inProgressStateMachine ex_world = None
   \<and> (\<exists>cfgs. restore_run ex_env_import_fails ex_restore_opts ex_world = Some cfgs
         \<and> fst (last cfgs) = R_failed
         \<and> (\<exists>earlier restarted.
               r_error (fst (snd (last cfgs))) = Some (ErrorData (Error ''import failed''))
             \<and> ipc (snd (snd (last cfgs))) =
                 earlier @ [UpdateSiteStatus ''s1'' ''running'',
                            ShowSiteBanner (errored_banner_restore ''s1''), BACKUP_STARTED]
             \<and> restarts (snd (snd (last cfgs))) = restarted @ [ex_site]))"
proof -
  have free: "inProgressStateMachine ex_world = None" by (simp add: ex_world_def)
  from restore_run_follows_order [of ex_env_import_fails ex_restore_opts ex_world]
  obtain cfgs where run: "restore_run ex_env_import_fails ex_restore_opts ex_world = Some cfgs"
    by blast
  from ex_restore_import_fails [OF run] have v: "map fst cfgs = [R_gettingBackupCredentials,
      R_creatingTmpDir, R_restoringBackup, R_movingSiteFromTmpDir, R_restoringDatabase, R_failed]" .
  then have ne: "cfgs \<noteq> []" by auto
  from v ne have failed: "fst (last cfgs) = R_failed"
    by (metis last_map last.simps list.distinct(1) last_ConsR)
  have err: "r_error (fst (snd (last cfgs))) = Some (ErrorData (Error ''import failed''))"
    using run by (simp add: interpret_machine.simps model_defs ex_defs) auto
  from restore_failure_recovery [OF free run failed] err
  have "\<exists>earlier restarted.
               r_error (fst (snd (last cfgs))) = Some (ErrorData (Error ''import failed''))
             \<and> ipc (snd (snd (last cfgs))) =
                 earlier @ [UpdateSiteStatus ''s1'' ''running'',
                            ShowSiteBanner (errored_banner_restore ''s1''), BACKUP_STARTED]
             \<and> restarts (snd (snd (last cfgs))) = restarted @ [ex_site]"
    by (auto simp: ex_restore_opts_def ex_site_def ex_env_import_fails_def ex_env_def)
  with free run failed show ?thesis by blast
qed

text \<open>
  Claim C3 (rollback of a failed clone), as amended. When a clone fails in a state that
  comes after the set-up of the destination site (from creatingTmpDir on), the request
  to delete the destination site of the context with its files
  (\<^verbatim>\<open>deleteSite\<close> with \<^verbatim>\<open>trashFiles: true\<close>) is sent, followed by the route to
  the base site and the error banner, before the completed event. The workflow removes
  nothing itself: \<^verbatim>\<open>sendIPCEvent\<close> only posts the request, and when the promise
  settles the destination site is still registered under its id and every path that
  was on disk when the failing step began is still there. When the clone fails while
  getting the credentials or while setting up the destination site, no request to
  delete a site is sent, only the route and the banner; then the context holds no
  destination site and no staging directory, and the registry, the disk and the
  provisioner are as they were before the call.
\<close>

theorem clone_rollback:
  assumes run: "clone_run env opts w = Some cfgs"
    and failed: "failed_in C_failed s (map fst cfgs)"
  shows "(s \<in> after_setup \<longrightarrow>
            (\<exists>dest earlier.
               c_destinationSite (fst (snd (last cfgs))) = Some dest
             \<and> ipc (snd (onStop (last cfgs) Pending)) =
                 earlier @ [DeleteSite (Some dest) True,
                            GoToRoute (''/main/site-info/'' @ site_id (co_baseSite opts)),
                            ShowSiteBanner (errored_banner_clone (site_id (co_baseSite opts))),
                            BACKUP_STARTED, BACKUP_COMPLETED]
             \<and> map_of (sites (snd (onStop (last cfgs) Pending))) (site_id dest) = Some dest)
          \<and> set (fs (snd (snd (cfgs ! (length cfgs - 2)))))
               \<subseteq> set (fs (snd (onStop (last cfgs) Pending))))
       \<and> (s \<notin> after_setup \<longrightarrow>
            filter is_DeleteSite (ipc (snd (onStop (last cfgs) Pending))) = filter is_DeleteSite (ipc w)
          \<and> (\<exists>earlier.
               ipc (snd (onStop (last cfgs) Pending)) =
                 earlier @ [GoToRoute (''/main/site-info/'' @ site_id (co_baseSite opts)),
                            ShowSiteBanner (errored_banner_base (site_id (co_baseSite opts))),
                            BACKUP_STARTED, BACKUP_COMPLETED])
          \<and> c_destinationSite (fst (snd (last cfgs))) = None
          \<and> c_tmpDirData (fst (snd (last cfgs))) = None
          \<and> sites (snd (onStop (last cfgs) Pending)) = sites w
          \<and> fs (snd (onStop (last cfgs) Pending)) = fs w
          \<and> provisioned (snd (onStop (last cfgs) Pending)) = provisioned w)"
proof -
  from clone_last_step [OF run] obtain s' c w1
    where len: "2 \<le> length cfgs" and p: "cfgs ! (length cfgs - 2) = (s', c, w1)"
      and nf: "s' \<noteq> C_finished" "s' \<noteq> C_failed"
      and l: "last cfgs = step (cloneMachine env) (onTransition_clone env) (s', c, w1)"
    by blast
  from len have ne: "cfgs \<noteq> []" by auto
  with failed len p have s': "s' = s" and lf: "fst (last cfgs) = C_failed"
    by (auto simp: failed_in_def last_map)
  from service_of_clone [OF nf] s' obtain src
    where src: "service_of (cloneMachine env) s = Some src" by blast
  from step_clone_to_failed [OF src, of c w1] lf l s' obtain e
    where fe: "fst (src c w1) = Inl e"
      and st: "last cfgs = (if s \<in> after_setup then clone_failure env e c (snd (src c w1))
                           else clone_base_failure env e c (snd (src c w1)))"
    by auto
  have at: "P (s, c, w1)" if "list_all P cfgs" for P
    using that len p s' by (auto simp: list_all_length dest!: spec [of _ "length cfgs - 2"])
  from at [OF clone_run_context [OF run]] have base: "c_baseSite c = co_baseSite opts" by simp
  from at [OF clone_run_invariants(1) [OF run]] have su: "set_up_clone (s, c, w1)" .
  from at [OF clone_run_untouched [OF run]] have un: "untouched_clone w (s, c, w1)" .
  have a: "(\<exists>dest earlier.
               c_destinationSite (fst (snd (last cfgs))) = Some dest
             \<and> ipc (snd (onStop (last cfgs) Pending)) =
                 earlier @ [DeleteSite (Some dest) True,
                            GoToRoute (''/main/site-info/'' @ site_id (co_baseSite opts)),
                            ShowSiteBanner (errored_banner_clone (site_id (co_baseSite opts))),
                            BACKUP_STARTED, BACKUP_COMPLETED]
             \<and> map_of (sites (snd (onStop (last cfgs) Pending))) (site_id dest) = Some dest)
          \<and> set (fs (snd (snd (cfgs ! (length cfgs - 2)))))
               \<subseteq> set (fs (snd (onStop (last cfgs) Pending)))"
    if "s \<in> after_setup"
  proof -
    from that su obtain dest where d: "c_destinationSite c = Some dest"
      "map_of (sites w1) (site_id dest) = Some dest" by (auto simp: set_up_clone_def)
    from that have "s \<noteq> C_setupDestinationSite" by (auto simp: after_setup_def)
    from sites_service_of_clone [OF src this, of c w1] have "sites (snd (src c w1)) = sites w1" .
    with that st d base
    have one: "\<exists>dest earlier.
               c_destinationSite (fst (snd (last cfgs))) = Some dest
             \<and> ipc (snd (onStop (last cfgs) Pending)) =
                 earlier @ [DeleteSite (Some dest) True,
                            GoToRoute (''/main/site-info/'' @ site_id (co_baseSite opts)),
                            ShowSiteBanner (errored_banner_clone (site_id (co_baseSite opts))),
                            BACKUP_STARTED, BACKUP_COMPLETED]
             \<and> map_of (sites (snd (onStop (last cfgs) Pending))) (site_id dest) = Some dest"
      by (simp add: clone_failure_ipc onStop_world)
    from fs_kept_after_setup [OF src that, of _ w1 c] that st p
    have "set (fs (snd (snd (cfgs ! (length cfgs - 2)))))
               \<subseteq> set (fs (snd (onStop (last cfgs) Pending)))"
      by (auto simp: onStop_world)
    with one show ?thesis by blast
  qed
  have b: "filter is_DeleteSite (ipc (snd (onStop (last cfgs) Pending))) = filter is_DeleteSite (ipc w)
          \<and> (\<exists>earlier.
               ipc (snd (onStop (last cfgs) Pending)) =
                 earlier @ [GoToRoute (''/main/site-info/'' @ site_id (co_baseSite opts)),
                            ShowSiteBanner (errored_banner_base (site_id (co_baseSite opts))),
                            BACKUP_STARTED, BACKUP_COMPLETED])
          \<and> c_destinationSite (fst (snd (last cfgs))) = None
          \<and> c_tmpDirData (fst (snd (last cfgs))) = None
          \<and> sites (snd (onStop (last cfgs) Pending)) = sites w
          \<and> fs (snd (onStop (last cfgs) Pending)) = fs w
          \<and> provisioned (snd (onStop (last cfgs) Pending)) = provisioned w"
    if "s \<notin> after_setup"
  proof -
    from that nf s' have "s \<in> {C_gettingBackupCredentials, C_setupDestinationSite}"
      by (cases s) (auto simp: after_setup_def)
    with un have u: "filter is_DeleteSite (ipc w1) = filter is_DeleteSite (ipc w)"
      "c_destinationSite c = None" "c_tmpDirData c = None" "sites w1 = sites w"
      "fs w1 = fs w" "provisioned w1 = provisioned w"
      by (auto simp: untouched_clone_def)
    with failing_early_world [OF src that fe] that st base show ?thesis
      by (simp add: clone_failure_ipc onStop_world base_failure_world)
  qed
  from a b show ?thesis by blast
qed

text \<open>
  The claim as stated fails: a clone whose database import fails sends the request, and
  when its promise settles the destination site is still in the registry and its files
  are still on disk.
\<close>

theorem destination_not_removed_counterexample:
  "map_option (map fst) (clone_run ex_env_import_fails ex_clone_opts ex_world)
     = Some [C_gettingBackupCredentials, C_setupDestinationSite, C_creatingTmpDir,
             C_cloningBackup, C_movingSiteFromTmpDir, C_provisioningSite,
             C_restoringDatabase, C_failed]
   \<and> map_option (filter is_DeleteSite \<circ> ipc \<circ> snd)
       (cloneFromBackup ex_env_import_fails ex_clone_opts ex_world)
     = Some [DeleteSite
               (Some \<lparr>site_id = ''n1'', site_name = ''Copy'', site_path = [''sites'', ''copy''],
                      site_domain = ''copy.local'', site_mysql_database = Some ''local'',
                      site_localBackupRepoID = Some ''repo1''\<rparr>) True]
   \<and> map_option (sites \<circ> snd) (cloneFromBackup ex_env_import_fails ex_clone_opts ex_world)
     = Some [(''n1'',
              \<lparr>site_id = ''n1'', site_name = ''Copy'', site_path = [''sites'', ''copy''],
                site_domain = ''copy.local'', site_mysql_database = Some ''local'',
                site_localBackupRepoID = Some ''repo1''\<rparr>),
             (''s1'', ex_site)]
   \<and> map_option (fs \<circ> snd) (cloneFromBackup ex_env_import_fails ex_clone_opts ex_world)
     = Some [[''tmp'', ''t1'', ''app'', ''sql'', ''dump.sql''],
             [''tmp'', ''t1'', ''app'', ''sql''], [''tmp'', ''t1'', ''app''],
             [''tmp'', ''t1''], [''sites'', ''blog''],
             [''sites'', ''blog'', ''conf''], [''sites'', ''blog'', ''app''],
             [''sites'', ''blog'', ''.htaccess''], [''sites'', ''copy''],
             [''sites'', ''copy'', ''app''], [''sites'', ''copy'', ''app'', ''sql''],
             [''sites'', ''copy'', ''app'', ''sql'', ''dump.sql'']]"
  by (simp add: cloneFromBackup_def onStop_def State_error_def truthy_def resolve_def
      interpret_machine.simps model_defs ex_defs)

theorem clone_rollback_witness:
  "(\<exists>cfgs. clone_run ex_env_import_fails ex_clone_opts ex_world = Some cfgs
        \<and> failed_in C_failed C_restoringDatabase (map fst cfgs)
        \<and> C_restoringDatabase \<in> after_setup
        \<and> (\<exists>dest earlier.
               c_destinationSite (fst (snd (last cfgs))) = Some dest
             \<and> ipc (snd (onStop (last cfgs) Pending)) =
                 earlier @ [DeleteSite (Some dest) True,
                            GoToRoute (''/main/site-info/'' @ site_id (co_baseSite ex_clone_opts)),
                            ShowSiteBanner (errored_banner_clone (site_id (co_baseSite ex_clone_opts))),
                            BACKUP_STARTED, BACKUP_COMPLETED]
             \<and> map_of (sites (snd (onStop (last cfgs) Pending))) (site_id dest) = Some dest))
   \<and> (\<exists>cfgs. clone_run ex_env ex_clone_opts_taken ex_world = Some cfgs
        \<and> failed_in C_failed C_setupDestinationSite (map fst cfgs)
        \<and> C_setupDestinationSite \<notin> after_setup
        \<and> filter is_DeleteSite (ipc (snd (onStop (last cfgs) Pending)))
            = filter is_DeleteSite (ipc ex_world)
        \<and> sites (snd (onStop (last cfgs) Pending)) = sites ex_world
        \<and> fs (snd (onStop (last cfgs) Pending)) = fs ex_world)
   \<and> (\<exists>cfgs. clone_run ex_env_no_hub ex_clone_opts ex_world = Some cfgs
        \<and> failed_in C_failed C_gettingBackupCredentials (map fst cfgs)
        \<and> C_gettingBackupCredentials \<notin> after_setup
        \<and> sites (snd (onStop (last cfgs) Pending)) = sites ex_world
        \<and> fs (snd (onStop (last cfgs) Pending)) = fs ex_world)"
proof -
  from clone_run_follows_order [of ex_env_import_fails ex_clone_opts ex_world]
  obtain a where a: "clone_run ex_env_import_fails ex_clone_opts ex_world = Some a" by blast
  from ex_clone_import_fails [OF a]
  have fa: "failed_in C_failed C_restoringDatabase (map fst a)"
    by (simp add: failed_in_def)
  from clone_run_follows_order [of ex_env ex_clone_opts_taken ex_world]
  obtain b where b: "clone_run ex_env ex_clone_opts_taken ex_world = Some b" by blast
  from ex_clone_taken [OF b]
  have fb: "failed_in C_failed C_setupDestinationSite (map fst b)"
    by (simp add: failed_in_def)
  from clone_run_follows_order [of ex_env_no_hub ex_clone_opts ex_world]
  obtain c where c: "clone_run ex_env_no_hub ex_clone_opts ex_world = Some c" by blast
  from ex_clone_no_hub [OF c]
  have fc: "failed_in C_failed C_gettingBackupCredentials (map fst c)"
    by (simp add: failed_in_def)
  have m: "C_restoringDatabase \<in> after_setup" "C_setupDestinationSite \<notin> after_setup"
    "C_gettingBackupCredentials \<notin> after_setup"
    by (simp_all add: after_setup_def)
  from clone_rollback [OF a fa] clone_rollback [OF b fb] clone_rollback [OF c fc] a b c fa fb fc m
  show ?thesis by blast
qed

lemma fs_onStop [simp]: "fs (snd (onStop cfg p)) = fs (snd (snd cfg))"
  by (simp add: onStop_world)

lemma last_state:
  "map fst cfgs = pre @ [s] \<Longrightarrow> fst (last cfgs) = s"
  by (metis append_is_Nil_conv last_map last_snoc list.distinct(1) map_is_Nil_conv)

lemma clone_staging_asymmetry:
  assumes run: "clone_run env opts w = Some cfgs"
    and tmp: "tmp_dirSync env = Inr d"
  shows "(fst (last cfgs) = C_finished \<longrightarrow>
            (emptyDirSync_error env d = None \<and> removeCallback_error env d = None \<longrightarrow>
               (\<forall>p \<in> set (fs (snd (snd (last cfgs)))). \<not> prefix d p))
          \<and> (emptyDirSync_error env d \<noteq> None \<or> removeCallback_error env d \<noteq> None \<longrightarrow>
               d \<in> set (fs (snd (snd (last cfgs))))))
       \<and> (failed_in C_failed s (map fst cfgs) \<and> s \<in> after_staging
          \<longrightarrow> d \<in> set (fs (snd (snd (last cfgs)))))"
proof -
  from clone_last_step [OF run] obtain s' c w1
    where len: "2 \<le> length cfgs" and p: "cfgs ! (length cfgs - 2) = (s', c, w1)"
      and nf: "s' \<noteq> C_finished" "s' \<noteq> C_failed"
      and l: "last cfgs = step (cloneMachine env) (onTransition_clone env) (s', c, w1)"
    by blast
  from clone_run_invariants(2) [OF run] len p
  have inv: "staged_clone env (s', c, w1)"
    by (auto simp: list_all_length dest!: spec [of _ "length cfgs - 2"])
  have fin: "(emptyDirSync_error env d = None \<and> removeCallback_error env d = None \<longrightarrow>
               (\<forall>p \<in> set (fs (snd (snd (last cfgs)))). \<not> prefix d p))
          \<and> (emptyDirSync_error env d \<noteq> None \<or> removeCallback_error env d \<noteq> None \<longrightarrow>
               d \<in> set (fs (snd (snd (last cfgs)))))"
    if "fst (last cfgs) = C_finished"
  proof -
    from that l nf have s': "s' = C_searchReplaceDomain"
      by (cases s') (auto simp: step_clone_simps split_beta split: sum.splits)
    with inv tmp have t: "c_tmpDirData c = Some \<lparr>dir_name = d\<rparr>" and d: "d \<in> set (fs w1)"
      by (auto simp: staged_clone_def after_staging_def)
    from d have d': "d \<in> set (fs (snd (searchReplace env c w1)))"
      by (rule fs_kept_clone_services(5))
    from that l s' t
    have "fs (snd (snd (last cfgs)))
            = fs (removeTmpDir env (Some \<lparr>dir_name = d\<rparr>) (snd (searchReplace env c w1)))"
      by (auto simp: step_clone_simps split_beta split: sum.splits)
    with removeTmpDir_removes [where env = env, OF _ _ d']
      removeTmpDir_swallows [where env = env, OF _ d']
    show ?thesis by auto
  qed
  have fl: "d \<in> set (fs (snd (snd (last cfgs))))"
    if "failed_in C_failed s (map fst cfgs)" and "s \<in> after_staging"
  proof -
    from len have "cfgs \<noteq> []" by auto
    with that(1) len p have s': "s' = s" and lf: "fst (last cfgs) = C_failed"
      by (auto simp: failed_in_def last_map)
    from that(2) s' inv tmp have d: "d \<in> set (fs w1)" by (auto simp: staged_clone_def)
    from service_of_clone [OF nf] s' obtain src
      where src: "service_of (cloneMachine env) s = Some src" by blast
    from step_clone_to_failed [OF src, of c w1] lf l s' obtain e
      where st: "last cfgs = (if s \<in> after_setup then clone_failure env e c (snd (src c w1))
                           else clone_base_failure env e c (snd (src c w1)))"
      by auto
    from fs_kept_service_of_clone [OF src that(2) d, of c] st show ?thesis
      by (simp split: if_splits)
  qed
  from fin fl show ?thesis by blast
qed

text \<open>
  Claim C6 (asymmetry of the clean-up), as amended. Let d be the directory that
  \<^verbatim>\<open>tmp.dirSync\<close> creates. Every restore and every clone stops. When it stops in
  the finished state and neither \<^verbatim>\<open>fs.emptyDirSync\<close> nor the remove callback
  throws, nothing at or inside d exists afterwards: the entry action of that state has
  emptied and removed it. When one of the two throws, the error is swallowed, the run is
  finished all the same and d is still on disk. When the run fails in a state that comes
  after the creation of the staging directory, d still exists afterwards (the failed
  state has no entry action and no error action removes anything), provided, for a
  restore, that d is not at or inside one of the paths that the file-system step chooses
  for removal.
\<close>

theorem failure_cleanup_asymmetry:
  assumes tmp: "tmp_dirSync env = Inr d"
  shows "(\<exists>cfgs. restore_run env ropts w = Some cfgs
           \<and> (fst (last cfgs) = R_finished \<longrightarrow>
                (emptyDirSync_error env d = None \<and> removeCallback_error env d = None \<longrightarrow>
                   (\<forall>p \<in> set (fs (snd (onStop (last cfgs) Pending))). \<not> prefix d p))
              \<and> (emptyDirSync_error env d \<noteq> None \<or> removeCallback_error env d \<noteq> None \<longrightarrow>
                   d \<in> set (fs (snd (onStop (last cfgs) Pending)))))
           \<and> (\<forall>s. failed_in R_failed s (map fst cfgs) \<and> s \<in> after_staging_restore
                  \<and> list_all (staging_spared env d) cfgs
                \<longrightarrow> d \<in> set (fs (snd (onStop (last cfgs) Pending)))))
       \<and> (\<exists>cfgs. clone_run env copts w' = Some cfgs
           \<and> (fst (last cfgs) = C_finished \<longrightarrow>
                (emptyDirSync_error env d = None \<and> removeCallback_error env d = None \<longrightarrow>
                   (\<forall>p \<in> set (fs (snd (onStop (last cfgs) Pending))). \<not> prefix d p))
              \<and> (emptyDirSync_error env d \<noteq> None \<or> removeCallback_error env d \<noteq> None \<longrightarrow>
                   d \<in> set (fs (snd (onStop (last cfgs) Pending)))))
           \<and> (\<forall>s. failed_in C_failed s (map fst cfgs) \<and> s \<in> after_staging
                \<longrightarrow> d \<in> set (fs (snd (onStop (last cfgs) Pending)))))
       \<and> restoreMachine env R_failed = Final [] \<and> cloneMachine env C_failed = Final []"
proof -
  from restore_run_follows_order [of env ropts w]
  obtain a where a: "restore_run env ropts w = Some a" by blast
  from clone_run_follows_order [of env copts w']
  obtain b where b: "clone_run env copts w' = Some b" by blast
  from restore_staging_asymmetry [OF a tmp] clone_staging_asymmetry [OF b tmp] a b
  show ?thesis
    by (simp add: restoreMachine_simps cloneMachine_simps) blast
qed


text \<open>
  The claim as stated fails twice. A restore whose clean-up throws is finished with the
  staging directory and its content still on disk. A restore whose staging directory was
  created inside the directory of the site removes it in the file-system step, fails there
  and leaves no staging directory behind.
\<close>

theorem cleanup_asymmetry_counterexample:
  "map_option (map fst) (restore_run ex_env_cleanup_fails ex_restore_opts ex_world)
     = Some [R_gettingBackupCredentials, R_creatingTmpDir, R_restoringBackup,
             R_movingSiteFromTmpDir, R_restoringDatabase, R_finished]
   \<and> map_option (fs \<circ> snd) (restoreFromBackup ex_env_cleanup_fails ex_restore_opts ex_world)
     = Some [[''tmp'', ''t1'', ''app'', ''sql'', ''dump.sql''],
             [''tmp'', ''t1'', ''app'', ''sql''], [''tmp'', ''t1'', ''app''],
             [''tmp'', ''t1''], [''sites'', ''blog'', ''conf''],
             [''sites'', ''blog''], [''sites'', ''blog'', ''app''],
             [''sites'', ''blog'', ''app'', ''sql''],
             [''sites'', ''blog'', ''app'', ''sql'', ''dump.sql'']]
   \<and> tmp_dirSync ex_env_tmp_in_site = Inr [''sites'', ''blog'', ''t1'']
   \<and> map_option (map fst) (restore_run ex_env_tmp_in_site ex_restore_opts ex_world)
     = Some [R_gettingBackupCredentials, R_creatingTmpDir, R_restoringBackup,
             R_movingSiteFromTmpDir, R_failed]
   \<and> map_option (fs \<circ> snd) (restoreFromBackup ex_env_tmp_in_site ex_restore_opts ex_world)
     = Some [[''sites'', ''blog'', ''conf''], [''sites'', ''blog'']]"
  by (simp add: restoreFromBackup_def onStop_def State_error_def truthy_def resolve_def
      interpret_machine.simps model_defs ex_defs)

theorem failure_cleanup_asymmetry_witness:
  "tmp_dirSync ex_env_import_fails = Inr [''tmp'', ''t1'']
   \<and> (\<exists>cfgs. restore_run ex_env_import_fails ex_restore_opts ex_world = Some cfgs
         \<and> failed_in R_failed R_restoringDatabase (map fst cfgs)
         \<and> R_restoringDatabase \<in> after_staging_restore
         \<and> list_all (staging_spared ex_env_import_fails [''tmp'', ''t1'']) cfgs
         \<and> [''tmp'', ''t1''] \<in> set (fs (snd (onStop (last cfgs) Pending))))
   \<and> (\<exists>cfgs. clone_run ex_env_import_fails ex_clone_opts ex_world = Some cfgs
         \<and> failed_in C_failed C_restoringDatabase (map fst cfgs)
         \<and> C_restoringDatabase \<in> after_staging
         \<and> [''tmp'', ''t1''] \<in> set (fs (snd (onStop (last cfgs) Pending))))
   \<and> emptyDirSync_error ex_env [''tmp'', ''t1''] = None
   \<and> removeCallback_error ex_env [''tmp'', ''t1''] = None
   \<and> (\<exists>cfgs. restore_run ex_env ex_restore_opts ex_world = Some cfgs
         \<and> fst (last cfgs) = R_finished
         \<and> list_all (\<lambda>p. \<not> prefix [''tmp'', ''t1''] p) (fs (snd (onStop (last cfgs) Pending))))
   \<and> (\<exists>cfgs. clone_run ex_env ex_clone_opts ex_world = Some cfgs
         \<and> fst (last cfgs) = C_finished
         \<and> list_all (\<lambda>p. \<not> prefix [''tmp'', ''t1''] p) (fs (snd (onStop (last cfgs) Pending))))
   \<and> emptyDirSync_error ex_env_cleanup_fails [''tmp'', ''t1'']
       = Some (Error ''EPERM: operation not permitted'')
   \<and> (\<exists>cfgs. restore_run ex_env_cleanup_fails ex_restore_opts ex_world = Some cfgs
         \<and> fst (last cfgs) = R_finished
         \<and> [''tmp'', ''t1''] \<in> set (fs (snd (onStop (last cfgs) Pending))))
   \<and> (\<exists>cfgs. clone_run ex_env_cleanup_fails ex_clone_opts ex_world = Some cfgs
         \<and> fst (last cfgs) = C_finished
         \<and> [''tmp'', ''t1''] \<in> set (fs (snd (onStop (last cfgs) Pending))))"
proof -
  have t1: "tmp_dirSync ex_env_import_fails = Inr [''tmp'', ''t1'']"
    and t2: "tmp_dirSync ex_env = Inr [''tmp'', ''t1'']"
    and t3: "tmp_dirSync ex_env_cleanup_fails = Inr [''tmp'', ''t1'']"
    by (simp_all add: ex_env_import_fails_def ex_env_cleanup_fails_def ex_env_def)
  have e2: "emptyDirSync_error ex_env [''tmp'', ''t1''] = None"
    "removeCallback_error ex_env [''tmp'', ''t1''] = None"
    and e3: "emptyDirSync_error ex_env_cleanup_fails [''tmp'', ''t1'']
               = Some (Error ''EPERM: operation not permitted'')"
    by (simp_all add: ex_env_cleanup_fails_def ex_env_def)
  have m: "R_restoringDatabase \<in> after_staging_restore" "C_restoringDatabase \<in> after_staging"
    by (simp_all add: after_staging_restore_def after_staging_def)
  from failure_cleanup_asymmetry [OF t1, of ex_restore_opts ex_world ex_clone_opts ex_world]
  obtain a b where a: "restore_run ex_env_import_fails ex_restore_opts ex_world = Some a"
    and a': "\<forall>s. failed_in R_failed s (map fst a) \<and> s \<in> after_staging_restore
                  \<and> list_all (staging_spared ex_env_import_fails [''tmp'', ''t1'']) a
                \<longrightarrow> [''tmp'', ''t1''] \<in> set (fs (snd (onStop (last a) Pending)))"
    and b: "clone_run ex_env_import_fails ex_clone_opts ex_world = Some b"
    and b': "\<forall>s. failed_in C_failed s (map fst b) \<and> s \<in> after_staging
                \<longrightarrow> [''tmp'', ''t1''] \<in> set (fs (snd (onStop (last b) Pending)))"
    by blast
  from ex_restore_import_fails [OF a] have fa: "failed_in R_failed R_restoringDatabase (map fst a)"
    by (simp add: failed_in_def)
  note sa = ex_restore_spared [OF a]
  from ex_clone_import_fails [OF b] have fb: "failed_in C_failed C_restoringDatabase (map fst b)"
    by (simp add: failed_in_def)
  from failure_cleanup_asymmetry [OF t2, of ex_restore_opts ex_world ex_clone_opts ex_world] e2
  obtain c d where c: "restore_run ex_env ex_restore_opts ex_world = Some c"
    and c': "fst (last c) = R_finished
               \<longrightarrow> (\<forall>p \<in> set (fs (snd (onStop (last c) Pending))). \<not> prefix [''tmp'', ''t1''] p)"
    and d: "clone_run ex_env ex_clone_opts ex_world = Some d"
    and d': "fst (last d) = C_finished
               \<longrightarrow> (\<forall>p \<in> set (fs (snd (onStop (last d) Pending))). \<not> prefix [''tmp'', ''t1''] p)"
    by auto
  from ex_restore_ok [OF c] have fc: "fst (last c) = R_finished" by (rule last_state)
  from ex_clone_ok [OF d] have fd: "fst (last d) = C_finished" by (rule last_state)
  from failure_cleanup_asymmetry [OF t3, of ex_restore_opts ex_world ex_clone_opts ex_world] e3
  obtain f g where f: "restore_run ex_env_cleanup_fails ex_restore_opts ex_world = Some f"
    and f': "fst (last f) = R_finished
               \<longrightarrow> [''tmp'', ''t1''] \<in> set (fs (snd (onStop (last f) Pending)))"
    and g: "clone_run ex_env_cleanup_fails ex_clone_opts ex_world = Some g"
    and g': "fst (last g) = C_finished
               \<longrightarrow> [''tmp'', ''t1''] \<in> set (fs (snd (onStop (last g) Pending)))"
    by auto
  from ex_restore_cleanup_fails [OF f] have ff: "fst (last f) = R_finished" by (rule last_state)
  from ex_clone_cleanup_fails [OF g] have fg: "fst (last g) = C_finished" by (rule last_state)
  from c' fc d' fd
  have c'': "list_all (\<lambda>p. \<not> prefix [''tmp'', ''t1''] p) (fs (snd (onStop (last c) Pending)))"
    and d'': "list_all (\<lambda>p. \<not> prefix [''tmp'', ''t1''] p) (fs (snd (onStop (last d) Pending)))"
    by (simp_all add: list_all_iff)
  from t1 m a a' fa sa b b' fb e2 c c'' fc d d'' fd e3 f f' ff g g' fg show ?thesis by blast
qed

lemma checkForDuplicateSiteName_sites:
  "sites w1 = sites w \<Longrightarrow>
   checkForDuplicateSiteName env w1 a b = checkForDuplicateSiteName env w a b"
  by (simp add: checkForDuplicateSiteName_def)

lemma setupDestinationSite_duplicate:
  assumes "checkForDuplicateSiteName env w (c_newSiteName c) (formatSiteNicename env (c_newSiteName c))"
  shows "setupDestinationSite env c w =
           (Inl (Error siteDomainTakenError),
            showErrorBox ''Invalid Site Name''
              (c_newSiteName c @ '' is already taken by another site. Please choose a different name.'') w)"
  using assms by (simp add: setupDestinationSite_def Let_def)

lemma nothing_created_step:
  assumes dup: "checkForDuplicateSiteName env w0 name (formatSiteNicename env name)"
    and inv: "nothing_created w0 (s, c, w) \<and> c_newSiteName c = name"
  shows "nothing_created w0 (step (cloneMachine env) (onTransition_clone env) (s, c, w))"
proof (cases s)
  case C_gettingBackupCredentials
  with inv show ?thesis
    by (auto simp: nothing_created_def step_clone_simps split_beta getCredentials_clone_def
        assign_credentials_clone_def base_failure_world onTransition_clone_def world_ops
        split: sum.splits option.splits event_data.splits)
next
  case C_setupDestinationSite
  from inv have "sites w = sites w0" "c_newSiteName c = name" by (simp_all add: nothing_created_def)
  with dup checkForDuplicateSiteName_sites [of w w0 env]
  have "checkForDuplicateSiteName env w (c_newSiteName c) (formatSiteNicename env (c_newSiteName c))"
    by simp
  from setupDestinationSite_duplicate [OF this] C_setupDestinationSite inv show ?thesis
    by (simp add: nothing_created_def step_clone_simps base_failure_world showErrorBox_def)
next
  case C_failed
  with inv show ?thesis by (simp add: step_clone_simps)
qed (use inv in \<open>simp_all add: nothing_created_def\<close>)

text \<open>
  Claim C5 (short circuit on a name that is taken). When the requested name collides
  with the name of a registered site (equal without regard to case, or equal in the
  formatted form), the clone stops in the failed state; in every configuration it goes
  through, the registry and the disk are as they were before the call, nothing was
  provisioned, and the context holds no destination site and no staging directory; when
  it fails in the set-up state the error is the one of the taken name. The set-up step
  itself, whenever it runs on that registry, shows the error box and throws that error,
  and the machine goes to the failed state through the error transition of the base site.
\<close>

theorem name_collision_short_circuit:
  assumes dup: "checkForDuplicateSiteName env w (co_newSiteName opts)
                  (formatSiteNicename env (co_newSiteName opts))"
  shows "(\<exists>cfgs. clone_run env opts w = Some cfgs
           \<and> list_all (nothing_created w) cfgs
           \<and> fst (last cfgs) = C_failed
           \<and> sites (snd (onStop (last cfgs) Pending)) = sites w
           \<and> fs (snd (onStop (last cfgs) Pending)) = fs w
           \<and> (failed_in C_failed C_setupDestinationSite (map fst cfgs) \<longrightarrow>
                c_error (fst (snd (last cfgs))) = Some (ErrorData (Error siteDomainTakenError))))
       \<and> (c_newSiteName c = co_newSiteName opts \<and> sites w1 = sites w \<longrightarrow>
            setupDestinationSite env c w1 =
              (Inl (Error siteDomainTakenError),
               showErrorBox ''Invalid Site Name''
                 (co_newSiteName opts @ '' is already taken by another site. Please choose a different name.'') w1)
          \<and> step (cloneMachine env) (onTransition_clone env) (C_setupDestinationSite, c, w1)
              = clone_base_failure env (Error siteDomainTakenError) c
                  (showErrorBox ''Invalid Site Name''
                     (co_newSiteName opts @ '' is already taken by another site. Please choose a different name.'') w1))"
proof -
  let ?m = "cloneMachine env" and ?L = "onTransition_clone env"
  from clone_run_follows_order [of env opts w]
  obtain cfgs where run: "clone_run env opts w = Some cfgs" by blast
  have inv: "list_all (\<lambda>cfg. nothing_created w cfg \<and> c_newSiteName (fst (snd cfg)) = co_newSiteName opts) cfgs"
  proof (rule interpret_invariant [OF run [unfolded clone_run_def]])
    show "nothing_created w (start ?m ?L C_gettingBackupCredentials (clone_initial_context opts)
            (w\<lparr>inProgressStateMachine := Some CloneService\<rparr>))
          \<and> c_newSiteName (fst (snd (start ?m ?L C_gettingBackupCredentials
               (clone_initial_context opts) (w\<lparr>inProgressStateMachine := Some CloneService\<rparr>))))
             = co_newSiteName opts"
      by (simp add: start_clone nothing_created_def clone_initial_context_def
          onTransition_clone_def world_ops)
  next
    fix cfg :: "(clone_state, CloneContext) config"
    assume a: "nothing_created w cfg \<and> c_newSiteName (fst (snd cfg)) = co_newSiteName opts"
    with nothing_created_step [OF dup, of "fst cfg" "fst (snd cfg)" "snd (snd cfg)"]
      context_step_clone [of env "fst cfg" "fst (snd cfg)" "snd (snd cfg)"]
    show "nothing_created w (step ?m ?L cfg)
          \<and> c_newSiteName (fst (snd (step ?m ?L cfg))) = co_newSiteName opts"
      by simp
  qed
  then have nc: "list_all (nothing_created w) cfgs" by (simp add: list_all_iff)
  from interpret_chain [OF run [unfolded clone_run_def]]
  have ne: "cfgs \<noteq> []" and fin: "is_final ?m (fst (last cfgs))" by auto
  from nc ne have lnc: "nothing_created w (last cfgs)" by (simp add: list_all_iff)
  with fin have lf: "fst (last cfgs) = C_failed"
    by (auto simp: is_final_clone nothing_created_def)
  have err: "c_error (fst (snd (last cfgs))) = Some (ErrorData (Error siteDomainTakenError))"
    if f: "failed_in C_failed C_setupDestinationSite (map fst cfgs)"
  proof -
    from clone_last_step [OF run] obtain s' c' w'
      where len: "2 \<le> length cfgs" and p: "cfgs ! (length cfgs - 2) = (s', c', w')"
        and l: "last cfgs = step ?m ?L (s', c', w')"
      by blast
    from f len p ne have s': "s' = C_setupDestinationSite" by (auto simp: failed_in_def)
    from inv len p have "nothing_created w (s', c', w')" "c_newSiteName c' = co_newSiteName opts"
      by (auto simp: list_all_length dest!: spec [of _ "length cfgs - 2"])
    then have "sites w' = sites w" "c_newSiteName c' = co_newSiteName opts"
      by (simp_all add: nothing_created_def)
    with dup checkForDuplicateSiteName_sites [of w' w env]
    have "checkForDuplicateSiteName env w' (c_newSiteName c') (formatSiteNicename env (c_newSiteName c'))"
      by simp
    from setupDestinationSite_duplicate [OF this] l s' show ?thesis
      by (simp add: step_clone_simps)
  qed
  have stp: "setupDestinationSite env c w1 =
              (Inl (Error siteDomainTakenError),
               showErrorBox ''Invalid Site Name''
                 (co_newSiteName opts @ '' is already taken by another site. Please choose a different name.'') w1)
          \<and> step ?m ?L (C_setupDestinationSite, c, w1)
              = clone_base_failure env (Error siteDomainTakenError) c
                  (showErrorBox ''Invalid Site Name''
                     (co_newSiteName opts @ '' is already taken by another site. Please choose a different name.'') w1)"
    if "c_newSiteName c = co_newSiteName opts \<and> sites w1 = sites w"
  proof -
    from that dup checkForDuplicateSiteName_sites [of w1 w env]
    have "checkForDuplicateSiteName env w1 (c_newSiteName c) (formatSiteNicename env (c_newSiteName c))"
      by simp
    from setupDestinationSite_duplicate [OF this] that show ?thesis
      by (simp add: step_clone_simps)
  qed
  from run nc lf lnc err stp show ?thesis
    by (auto simp: nothing_created_def onStop_world)
qed


theorem name_collision_short_circuit_witness:
  "checkForDuplicateSiteName ex_env ex_world (co_newSiteName ex_clone_opts_taken)
     (formatSiteNicename ex_env (co_newSiteName ex_clone_opts_taken))
   \<and> (\<exists>cfgs. clone_run ex_env ex_clone_opts_taken ex_world = Some cfgs
         \<and> failed_in C_failed C_setupDestinationSite (map fst cfgs)
         \<and> c_error (fst (snd (last cfgs))) = Some (ErrorData (Error siteDomainTakenError))
         \<and> sites (snd (onStop (last cfgs) Pending)) = sites ex_world
         \<and> fs (snd (onStop (last cfgs) Pending)) = fs ex_world)"
proof -
  have dup: "checkForDuplicateSiteName ex_env ex_world (co_newSiteName ex_clone_opts_taken)
               (formatSiteNicename ex_env (co_newSiteName ex_clone_opts_taken))"
    by (simp add: checkForDuplicateSiteName_def toLowerCase_def ex_defs)
  from name_collision_short_circuit [OF dup]
  obtain cfgs where run: "clone_run ex_env ex_clone_opts_taken ex_world = Some cfgs"
    and s: "sites (snd (onStop (last cfgs) Pending)) = sites ex_world"
      "fs (snd (onStop (last cfgs) Pending)) = fs ex_world"
    and e: "failed_in C_failed C_setupDestinationSite (map fst cfgs) \<longrightarrow>
              c_error (fst (snd (last cfgs))) = Some (ErrorData (Error siteDomainTakenError))"
    by blast
  from ex_clone_taken [OF run] have "failed_in C_failed C_setupDestinationSite (map fst cfgs)"
    by (simp add: failed_in_def)
  with dup run s e show ?thesis by blast
qed

lemma step_target:
  assumes "m s = Invoke src (t, acts) (fl, eacts)"
  shows "fst (step m L (s, c, v)) = (case fst (src c v) of Inr _ \<Rightarrow> t | Inl _ \<Rightarrow> fl)"
  using assms fst_step [of m L s c v] by (simp split: sum.splits)

lemma service_of_table:
  assumes "m s = Invoke src' (t, acts) (fl, eacts)" and "service_of m s = Some src"
  shows "fst (step m L (s, c, v)) = (case fst (src c v) of Inr _ \<Rightarrow> t | Inl _ \<Rightarrow> fl)"
  using assms step_target [of m s src' t acts fl eacts L c v] by (simp add: service_of_def)

lemma run_chain:
  assumes "interpret_machine m L cfg = Some cfgs"
  shows "\<forall>i. Suc i < length cfgs \<longrightarrow> cfgs ! Suc i = step m L (cfgs ! i)"
  using interpret_chain [OF assms] by blast

text \<open>
  Claim C4 (sequential determinism). Every restore and every clone stops, and the states
  it visits follow the documented order: all of them and then finished, or a non-empty
  initial part of them and then failed. Each configuration of a run is the step of the
  configuration before it, so that the service of a state is invoked on the context and
  the world that the service and the transition of the state before it have left. From a
  state of the order the machine moves to the next state (finished after the last) when
  the state's service resolves and to failed when it rejects; finished and failed are
  final.
\<close>

theorem sequential_determinism:
  "(\<exists>cfgs. restore_run env ropts w = Some cfgs
       \<and> follows_order restore_order R_finished R_failed (map fst cfgs)
       \<and> (\<forall>i. Suc i < length cfgs \<longrightarrow>
              cfgs ! Suc i = step (restoreMachine env) (onTransition_restore env) (cfgs ! i)))
   \<and> (\<exists>cfgs. clone_run env copts w' = Some cfgs
       \<and> follows_order clone_order C_finished C_failed (map fst cfgs)
       \<and> (\<forall>i. Suc i < length cfgs \<longrightarrow>
              cfgs ! Suc i = step (cloneMachine env) (onTransition_clone env) (cfgs ! i)))
   \<and> (\<forall>i src c v. i < length restore_order
          \<and> service_of (restoreMachine env) (restore_order ! i) = Some src \<longrightarrow>
          fst (step (restoreMachine env) (onTransition_restore env) (restore_order ! i, c, v))
            = (case fst (src c v) of
                 Inr _ \<Rightarrow> (restore_order @ [R_finished]) ! Suc i
               | Inl _ \<Rightarrow> R_failed))
   \<and> (\<forall>i src c v. i < length clone_order
          \<and> service_of (cloneMachine env) (clone_order ! i) = Some src \<longrightarrow>
          fst (step (cloneMachine env) (onTransition_clone env) (clone_order ! i, c, v))
            = (case fst (src c v) of
                 Inr _ \<Rightarrow> (clone_order @ [C_finished]) ! Suc i
               | Inl _ \<Rightarrow> C_failed))
   \<and> is_final (restoreMachine env) R_finished \<and> is_final (restoreMachine env) R_failed
   \<and> is_final (cloneMachine env) C_finished \<and> is_final (cloneMachine env) C_failed"
proof -
  from restore_run_follows_order [of env ropts w]
  obtain a where a: "restore_run env ropts w = Some a"
    "follows_order restore_order R_finished R_failed (map fst a)" by blast
  from clone_run_follows_order [of env copts w']
  obtain b where b: "clone_run env copts w' = Some b"
    "follows_order clone_order C_finished C_failed (map fst b)" by blast
  have r: "fst (step (restoreMachine env) (onTransition_restore env) (restore_order ! i, c, v))
            = (case fst (src c v) of
                 Inr _ \<Rightarrow> (restore_order @ [R_finished]) ! Suc i
               | Inl _ \<Rightarrow> R_failed)"
    if "i < length restore_order \<and> service_of (restoreMachine env) (restore_order ! i) = Some src"
    for i src c v
  proof -
    from restore_table [of i env] that obtain src' acts eacts
      where "restoreMachine env (restore_order ! i) =
               Invoke src' ((restore_order @ [R_finished]) ! Suc i, acts) (R_failed, eacts)"
      by blast
    from service_of_table [of "restoreMachine env" "restore_order ! i" src' _ acts R_failed eacts src
        "onTransition_restore env" c v] this that
    show ?thesis by blast
  qed
  have k: "fst (step (cloneMachine env) (onTransition_clone env) (clone_order ! i, c, v))
            = (case fst (src c v) of
                 Inr _ \<Rightarrow> (clone_order @ [C_finished]) ! Suc i
               | Inl _ \<Rightarrow> C_failed)"
    if "i < length clone_order \<and> service_of (cloneMachine env) (clone_order ! i) = Some src"
    for i src c v
  proof -
    from clone_table [of i env] that obtain src' acts eacts
      where "cloneMachine env (clone_order ! i) =
               Invoke src' ((clone_order @ [C_finished]) ! Suc i, acts) (C_failed, eacts)"
      by blast
    from service_of_table [of "cloneMachine env" "clone_order ! i" src' _ acts C_failed eacts src
        "onTransition_clone env" c v] this that
    show ?thesis by blast
  qed
  from a b run_chain [OF a(1) [unfolded restore_run_def]] run_chain [OF b(1) [unfolded clone_run_def]]
    r k
  show ?thesis
    by (simp add: is_final_restore is_final_clone)
qed

theorem sequential_determinism_witness:
  "(\<exists>cfgs. restore_run ex_env ex_restore_opts ex_world = Some cfgs
       \<and> map fst cfgs = restore_order @ [R_finished]
       \<and> Suc 0 < length cfgs
       \<and> cfgs ! Suc 0 = step (restoreMachine ex_env) (onTransition_restore ex_env) (cfgs ! 0))
   \<and> (\<exists>cfgs. clone_run ex_env ex_clone_opts ex_world = Some cfgs
       \<and> map fst cfgs = clone_order @ [C_finished]
       \<and> Suc 0 < length cfgs
       \<and> cfgs ! Suc 0 = step (cloneMachine ex_env) (onTransition_clone ex_env) (cfgs ! 0))
   \<and> 0 < length restore_order
   \<and> service_of (restoreMachine ex_env) (restore_order ! 0) = Some (getCredentials_restore ex_env)
   \<and> fst (step (restoreMachine ex_env) (onTransition_restore ex_env)
           (restore_order ! 0, restore_initial_context ex_env ex_restore_opts, ex_world))
       = R_creatingTmpDir
   \<and> 1 < length clone_order
   \<and> service_of (cloneMachine ex_env) (clone_order ! 1) = Some (setupDestinationSite ex_env)
   \<and> fst (step (cloneMachine ex_env) (onTransition_clone ex_env)
           (clone_order ! 1, clone_initial_context ex_clone_opts_taken, ex_world))
       = C_failed"
proof -
  note inst = sequential_determinism [of ex_env ex_restore_opts ex_world ex_clone_opts ex_world]
  from inst obtain a where a: "restore_run ex_env ex_restore_opts ex_world = Some a"
    and ac: "\<forall>i. Suc i < length a \<longrightarrow>
              a ! Suc i = step (restoreMachine ex_env) (onTransition_restore ex_env) (a ! i)"
    by blast
  from inst obtain b where b: "clone_run ex_env ex_clone_opts ex_world = Some b"
    and bc: "\<forall>i. Suc i < length b \<longrightarrow>
              b ! Suc i = step (cloneMachine ex_env) (onTransition_clone ex_env) (b ! i)"
    by blast
  from ex_restore_ok [OF a] have va: "map fst a = restore_order @ [R_finished]" .
  then have "length a = length (restore_order @ [R_finished])" by (metis length_map)
  then have la: "Suc 0 < length a" by (simp add: restore_order_def)
  from ex_clone_ok [OF b] have vb: "map fst b = clone_order @ [C_finished]" .
  then have "length b = length (clone_order @ [C_finished])" by (metis length_map)
  then have lb: "Suc 0 < length b" by (simp add: clone_order_def)
  have r0: "0 < length restore_order"
    "service_of (restoreMachine ex_env) (restore_order ! 0) = Some (getCredentials_restore ex_env)"
    by (simp_all add: restore_order_def service_of_def restoreMachine_simps)
  have k1: "1 < length clone_order"
    "service_of (cloneMachine ex_env) (clone_order ! 1) = Some (setupDestinationSite ex_env)"
    by (simp_all add: clone_order_def service_of_def cloneMachine_simps)
  have e1: "fst (getCredentials_restore ex_env (restore_initial_context ex_env ex_restore_opts) ex_world)
              = Inr (CredentialsData \<lparr>cr_encryptionPassword = ''pw'', cr_localBackupRepoID = ''repo1'',
                                       cr_backupSiteID = 7\<rparr>)"
    by (simp add: model_defs ex_defs)
  have e2: "fst (setupDestinationSite ex_env (clone_initial_context ex_clone_opts_taken) ex_world)
              = Inl (Error siteDomainTakenError)"
    by (simp add: model_defs ex_defs)
  from inst r0 have "fst (step (restoreMachine ex_env) (onTransition_restore ex_env)
           (restore_order ! 0, restore_initial_context ex_env ex_restore_opts, ex_world))
       = (case fst (getCredentials_restore ex_env (restore_initial_context ex_env ex_restore_opts) ex_world) of
                 Inr _ \<Rightarrow> (restore_order @ [R_finished]) ! Suc 0
               | Inl _ \<Rightarrow> R_failed)"
    by blast
  with e1 have s1: "fst (step (restoreMachine ex_env) (onTransition_restore ex_env)
           (restore_order ! 0, restore_initial_context ex_env ex_restore_opts, ex_world))
       = R_creatingTmpDir"
    by (simp add: restore_order_def)
  from inst k1 have "fst (step (cloneMachine ex_env) (onTransition_clone ex_env)
           (clone_order ! 1, clone_initial_context ex_clone_opts_taken, ex_world))
       = (case fst (setupDestinationSite ex_env (clone_initial_context ex_clone_opts_taken) ex_world) of
                 Inr _ \<Rightarrow> (clone_order @ [C_finished]) ! Suc 1
               | Inl _ \<Rightarrow> C_failed)"
    by blast
  with e2 have s2: "fst (step (cloneMachine ex_env) (onTransition_clone ex_env)
           (clone_order ! 1, clone_initial_context ex_clone_opts_taken, ex_world))
       = C_failed"
    by simp
  from a ac va la b bc vb lb r0 k1 s1 s2 show ?thesis by blast
qed

lemma restore_run_slot:
  assumes run: "restore_run env opts w = Some cfgs"
  shows "list_all (\<lambda>cfg. inProgressStateMachine (snd (snd cfg)) = Some RestoreService) cfgs"
proof (rule interpret_invariant [OF run [unfolded restore_run_def]])
  show "inProgressStateMachine (snd (snd (start (restoreMachine env) (onTransition_restore env)
          R_gettingBackupCredentials (restore_initial_context env opts)
          (w\<lparr>inProgressStateMachine := Some RestoreService\<rparr>)))) = Some RestoreService"
    by (simp add: start_restore slot_restore_services)
next
  fix cfg :: "(restore_state, RestoreContext) config"
  assume "inProgressStateMachine (snd (snd cfg)) = Some RestoreService"
  then show "inProgressStateMachine (snd (snd (step (restoreMachine env) (onTransition_restore env) cfg)))
          = Some RestoreService"
    by (cases cfg) (simp add: slot_step_restore)
qed

lemma clone_run_slot:
  assumes run: "clone_run env opts w = Some cfgs"
  shows "list_all (\<lambda>cfg. inProgressStateMachine (snd (snd cfg)) = Some CloneService) cfgs"
proof (rule interpret_invariant [OF run [unfolded clone_run_def]])
  show "inProgressStateMachine (snd (snd (start (cloneMachine env) (onTransition_clone env)
          C_gettingBackupCredentials (clone_initial_context opts)
          (w\<lparr>inProgressStateMachine := Some CloneService\<rparr>)))) = Some CloneService"
    by (simp add: start_clone slot_clone_services)
next
  fix cfg :: "(clone_state, CloneContext) config"
  assume "inProgressStateMachine (snd (snd cfg)) = Some CloneService"
  then show "inProgressStateMachine (snd (snd (step (cloneMachine env) (onTransition_clone env) cfg)))
          = Some CloneService"
    by (cases cfg) (simp add: slot_step_clone)
qed

lemma rejected_when_busy:
  assumes "inProgressStateMachine w \<noteq> None"
  shows "restoreFromBackup env ropts w = Some (Resolved JSUndefined, logger busy_warning w)"
    and "cloneFromBackup env copts w = Some (Resolved JSUndefined, logger busy_warning w)"
  using assms by (simp_all add: restoreFromBackup_def cloneFromBackup_def busy_warning_def)

lemma logger_only_logs:
  "logger e w = w\<lparr>logs := logs w @ [e]\<rparr>" "eq_upto_logs w (logger e w)"
  by (simp_all add: logger_def)

text \<open>
  Claim C1 (single-flight guard). A call of \<^verbatim>\<open>restoreFromBackup\<close> or of
  \<^verbatim>\<open>cloneFromBackup\<close> made while the slot is occupied returns at once with
  no result: no context is built and no machine is run, and the world it leaves is the
  world it found with the warning added to the log. The workflow in flight is
  unaffected: a machine of either kind continued from any state and context in the
  world with the warning visits the same states with the same contexts, and leaves the
  same worlds up to the log, as in the world without it. A call made while the slot is
  free runs its machine to the end; the slot holds that machine in every configuration
  of the run, whether it ends in finished or in failed, and is empty once the stop
  listener has run.
\<close>

theorem single_flight_guard:
  "(inProgressStateMachine w \<noteq> None \<longrightarrow>
      restoreFromBackup env ropts w = Some (Resolved JSUndefined, w\<lparr>logs := logs w @ [busy_warning]\<rparr>)
    \<and> cloneFromBackup env copts w = Some (Resolved JSUndefined, w\<lparr>logs := logs w @ [busy_warning]\<rparr>)
    \<and> (\<forall>cfgs. interpret_machine (restoreMachine env') (onTransition_restore env') (rs, rc, w) = Some cfgs
          \<longrightarrow> (\<exists>cfgs'. interpret_machine (restoreMachine env') (onTransition_restore env')
                          (rs, rc, w\<lparr>logs := logs w @ [busy_warning]\<rparr>) = Some cfgs'
                      \<and> list_all2 eq_config_upto_logs cfgs cfgs'))
    \<and> (\<forall>cfgs. interpret_machine (cloneMachine env') (onTransition_clone env') (cs, cc, w) = Some cfgs
          \<longrightarrow> (\<exists>cfgs'. interpret_machine (cloneMachine env') (onTransition_clone env')
                          (cs, cc, w\<lparr>logs := logs w @ [busy_warning]\<rparr>) = Some cfgs'
                      \<and> list_all2 eq_config_upto_logs cfgs cfgs')))
   \<and> (inProgressStateMachine w = None \<longrightarrow>
        (\<exists>cfgs. restore_run env ropts w = Some cfgs
           \<and> list_all (\<lambda>cfg. inProgressStateMachine (snd (snd cfg)) = Some RestoreService) cfgs
           \<and> restoreFromBackup env ropts w = Some (onStop (last cfgs) Pending)
           \<and> inProgressStateMachine (snd (onStop (last cfgs) Pending)) = None)
      \<and> (\<exists>cfgs. clone_run env copts w = Some cfgs
           \<and> list_all (\<lambda>cfg. inProgressStateMachine (snd (snd cfg)) = Some CloneService) cfgs
           \<and> cloneFromBackup env copts w = Some (onStop (last cfgs) Pending)
           \<and> inProgressStateMachine (snd (onStop (last cfgs) Pending)) = None))"
proof -
  have busy: "restoreFromBackup env ropts w = Some (Resolved JSUndefined, w\<lparr>logs := logs w @ [busy_warning]\<rparr>)
      \<and> cloneFromBackup env copts w = Some (Resolved JSUndefined, w\<lparr>logs := logs w @ [busy_warning]\<rparr>)"
    if "inProgressStateMachine w \<noteq> None"
    using rejected_when_busy [OF that] by (simp add: logger_def)
  have nr: "\<exists>cfgs'. interpret_machine (restoreMachine env') (onTransition_restore env')
                          (rs, rc, w\<lparr>logs := logs w @ [busy_warning]\<rparr>) = Some cfgs'
                      \<and> list_all2 eq_config_upto_logs cfgs cfgs'"
    if "interpret_machine (restoreMachine env') (onTransition_restore env') (rs, rc, w) = Some cfgs"
    for cfgs
    by (rule interpret_ni [OF ni_step_restore that]) simp_all
  have nk: "\<exists>cfgs'. interpret_machine (cloneMachine env') (onTransition_clone env')
                          (cs, cc, w\<lparr>logs := logs w @ [busy_warning]\<rparr>) = Some cfgs'
                      \<and> list_all2 eq_config_upto_logs cfgs cfgs'"
    if "interpret_machine (cloneMachine env') (onTransition_clone env') (cs, cc, w) = Some cfgs"
    for cfgs
    by (rule interpret_ni [OF ni_step_clone that]) simp_all
  have free: "(\<exists>cfgs. restore_run env ropts w = Some cfgs
           \<and> list_all (\<lambda>cfg. inProgressStateMachine (snd (snd cfg)) = Some RestoreService) cfgs
           \<and> restoreFromBackup env ropts w = Some (onStop (last cfgs) Pending)
           \<and> inProgressStateMachine (snd (onStop (last cfgs) Pending)) = None)
      \<and> (\<exists>cfgs. clone_run env copts w = Some cfgs
           \<and> list_all (\<lambda>cfg. inProgressStateMachine (snd (snd cfg)) = Some CloneService) cfgs
           \<and> cloneFromBackup env copts w = Some (onStop (last cfgs) Pending)
           \<and> inProgressStateMachine (snd (onStop (last cfgs) Pending)) = None)"
    if f: "inProgressStateMachine w = None"
  proof -
    from restore_run_follows_order [of env ropts w]
    obtain a where a: "restore_run env ropts w = Some a" by blast
    from clone_run_follows_order [of env copts w]
    obtain b where b: "clone_run env copts w = Some b" by blast
    from a b restore_run_slot [OF a] clone_run_slot [OF b]
      restoreFromBackup_admitted [OF f a] cloneFromBackup_admitted [OF f b]
    show ?thesis by (simp add: onStop_world)
  qed
  from busy nr nk free show ?thesis by blast
qed

theorem single_flight_guard_witness:
  "inProgressStateMachine ex_world_busy \<noteq> None
   \<and> restoreFromBackup ex_env ex_restore_opts ex_world_busy
       = Some (Resolved JSUndefined, ex_world_busy\<lparr>logs := [busy_warning]\<rparr>)
   \<and> cloneFromBackup ex_env ex_clone_opts ex_world_busy
       = Some (Resolved JSUndefined, ex_world_busy\<lparr>logs := [busy_warning]\<rparr>)
   \<and> (\<exists>a b. interpret_machine (restoreMachine ex_env_no_hub) (onTransition_restore ex_env_no_hub)
                (R_gettingBackupCredentials, ex_restore_context, ex_world_busy) = Some a
            \<and> interpret_machine (restoreMachine ex_env_no_hub) (onTransition_restore ex_env_no_hub)
                (R_gettingBackupCredentials, ex_restore_context,
                 ex_world_busy\<lparr>logs := [busy_warning]\<rparr>) = Some b
            \<and> list_all2 eq_config_upto_logs a b)
   \<and> (\<exists>a b. interpret_machine (cloneMachine ex_env_no_hub) (onTransition_clone ex_env_no_hub)
                (C_gettingBackupCredentials, ex_clone_context, ex_world_busy) = Some a
            \<and> interpret_machine (cloneMachine ex_env_no_hub) (onTransition_clone ex_env_no_hub)
                (C_gettingBackupCredentials, ex_clone_context,
                 ex_world_busy\<lparr>logs := [busy_warning]\<rparr>) = Some b
            \<and> list_all2 eq_config_upto_logs a b)
   \<and> inProgressStateMachine ex_world = None
   \<and> (\<exists>cfgs. restore_run ex_env ex_restore_opts ex_world = Some cfgs
         \<and> list_all (\<lambda>cfg. inProgressStateMachine (snd (snd cfg)) = Some RestoreService) cfgs
         \<and> restoreFromBackup ex_env ex_restore_opts ex_world = Some (onStop (last cfgs) Pending)
         \<and> inProgressStateMachine (snd (onStop (last cfgs) Pending)) = None)
   \<and> (\<exists>cfgs. clone_run ex_env ex_clone_opts ex_world = Some cfgs
         \<and> list_all (\<lambda>cfg. inProgressStateMachine (snd (snd cfg)) = Some CloneService) cfgs
         \<and> cloneFromBackup ex_env ex_clone_opts ex_world = Some (onStop (last cfgs) Pending)
         \<and> inProgressStateMachine (snd (onStop (last cfgs) Pending)) = None)"
proof -
  have busy: "inProgressStateMachine ex_world_busy \<noteq> None"
    by (simp add: ex_world_busy_def)
  have free: "inProgressStateMachine ex_world = None"
    by (simp add: ex_world_def)
  have l: "logs ex_world_busy = []"
    by (simp add: ex_world_busy_def ex_world_def)
  have ra: "\<exists>a. interpret_machine (restoreMachine ex_env_no_hub) (onTransition_restore ex_env_no_hub)
                (R_gettingBackupCredentials, ex_restore_context, ex_world_busy) = Some a"
    by (simp add: interpret_machine.simps model_defs ex_defs ex_world_busy_def
        ex_restore_context_def)
  have ca: "\<exists>a. interpret_machine (cloneMachine ex_env_no_hub) (onTransition_clone ex_env_no_hub)
                (C_gettingBackupCredentials, ex_clone_context, ex_world_busy) = Some a"
    by (simp add: interpret_machine.simps model_defs ex_defs ex_world_busy_def
        ex_clone_context_def)
  note busy_inst = single_flight_guard [where w = ex_world_busy and env = ex_env
      and ropts = ex_restore_opts and copts = ex_clone_opts and env' = ex_env_no_hub
      and rs = R_gettingBackupCredentials and rc = ex_restore_context
      and cs = C_gettingBackupCredentials and cc = ex_clone_context]
  note free_inst = single_flight_guard [where w = ex_world and env = ex_env
      and ropts = ex_restore_opts and copts = ex_clone_opts and env' = ex_env_no_hub
      and rs = R_gettingBackupCredentials and rc = ex_restore_context
      and cs = C_gettingBackupCredentials and cc = ex_clone_context]
  from busy_inst busy have b1: "restoreFromBackup ex_env ex_restore_opts ex_world_busy
       = Some (Resolved JSUndefined, ex_world_busy\<lparr>logs := [busy_warning]\<rparr>)"
    and b2: "cloneFromBackup ex_env ex_clone_opts ex_world_busy
       = Some (Resolved JSUndefined, ex_world_busy\<lparr>logs := [busy_warning]\<rparr>)"
    by (simp_all add: l)
  from busy_inst busy ra have b3: "\<exists>a b. interpret_machine (restoreMachine ex_env_no_hub) (onTransition_restore ex_env_no_hub)
                (R_gettingBackupCredentials, ex_restore_context, ex_world_busy) = Some a
            \<and> interpret_machine (restoreMachine ex_env_no_hub) (onTransition_restore ex_env_no_hub)
                (R_gettingBackupCredentials, ex_restore_context,
                 ex_world_busy\<lparr>logs := [busy_warning]\<rparr>) = Some b
            \<and> list_all2 eq_config_upto_logs a b"
    unfolding l by (metis append_Nil)
  from busy_inst busy ca have b4: "\<exists>a b. interpret_machine (cloneMachine ex_env_no_hub) (onTransition_clone ex_env_no_hub)
                (C_gettingBackupCredentials, ex_clone_context, ex_world_busy) = Some a
            \<and> interpret_machine (cloneMachine ex_env_no_hub) (onTransition_clone ex_env_no_hub)
                (C_gettingBackupCredentials, ex_clone_context,
                 ex_world_busy\<lparr>logs := [busy_warning]\<rparr>) = Some b
            \<and> list_all2 eq_config_upto_logs a b"
    unfolding l by (metis append_Nil)
  from free_inst free have f: "(\<exists>cfgs. restore_run ex_env ex_restore_opts ex_world = Some cfgs
         \<and> list_all (\<lambda>cfg. inProgressStateMachine (snd (snd cfg)) = Some RestoreService) cfgs
         \<and> restoreFromBackup ex_env ex_restore_opts ex_world = Some (onStop (last cfgs) Pending)
         \<and> inProgressStateMachine (snd (onStop (last cfgs) Pending)) = None)
   \<and> (\<exists>cfgs. clone_run ex_env ex_clone_opts ex_world = Some cfgs
         \<and> list_all (\<lambda>cfg. inProgressStateMachine (snd (snd cfg)) = Some CloneService) cfgs
         \<and> cloneFromBackup ex_env ex_clone_opts ex_world = Some (onStop (last cfgs) Pending)
         \<and> inProgressStateMachine (snd (onStop (last cfgs) Pending)) = None)"
    by blast
  from busy free b1 b2 b3 b4 f show ?thesis by blast
qed

lemma onStop_resolves_null:
  "fst (onStop cfg Pending) = Resolved JSNull"
  by (simp add: onStop_def State_error_def truthy_def resolve_def Let_def)

lemma admitted_run_resolves_null:
  assumes "inProgressStateMachine w = None"
  shows "\<exists>w'. restoreFromBackup env ropts w = Some (Resolved JSNull, w')"
    and "\<exists>w'. cloneFromBackup env copts w = Some (Resolved JSNull, w')"
proof -
  from restore_run_follows_order [of env ropts w]
  obtain a where a: "restore_run env ropts w = Some a" by blast
  from clone_run_follows_order [of env copts w]
  obtain b where b: "clone_run env copts w = Some b" by blast
  from restoreFromBackup_admitted [OF assms a] onStop_resolves_null [of "last a"]
  show "\<exists>w'. restoreFromBackup env ropts w = Some (Resolved JSNull, w')"
    by (cases "onStop (last a) Pending") simp
  from cloneFromBackup_admitted [OF assms b] onStop_resolves_null [of "last b"]
  show "\<exists>w'. cloneFromBackup env copts w = Some (Resolved JSNull, w')"
    by (cases "onStop (last b) Pending") simp
qed

text \<open>
  Claim C2 (result totality). The promise of an admitted run is settled once, by the
  stop listener, and is never rejected. The value it is resolved with is always null,
  also when the machine ends in failed: the stop listener reads the error from the
  interpreter's state object and not from its context, where
  \<^verbatim>\<open>setErrorOnContext\<close> has put it. A restore and a clone of the example
  site with a hub that cannot be reached end in failed with the hub's error on the
  context, and their promises are resolved with null, not with an object carrying the
  error.
\<close>

theorem failed_run_resolves_null:
  "map_option (map fst) (restore_run ex_env_no_hub ex_restore_opts ex_world)
     = Some [R_gettingBackupCredentials, R_failed]
   \<and> map_option (r_error \<circ> fst \<circ> snd \<circ> last) (restore_run ex_env_no_hub ex_restore_opts ex_world)
     = Some (Some (ErrorData (Error ''hub unreachable'')))
   \<and> map_option fst (restoreFromBackup ex_env_no_hub ex_restore_opts ex_world)
     = Some (Resolved JSNull)
   \<and> map_option (map fst) (clone_run ex_env_no_hub ex_clone_opts ex_world)
     = Some [C_gettingBackupCredentials, C_failed]
   \<and> map_option (c_error \<circ> fst \<circ> snd \<circ> last) (clone_run ex_env_no_hub ex_clone_opts ex_world)
     = Some (Some (ErrorData (Error ''hub unreachable'')))
   \<and> map_option fst (cloneFromBackup ex_env_no_hub ex_clone_opts ex_world)
     = Some (Resolved JSNull)"
  by (simp add: restoreFromBackup_def cloneFromBackup_def onStop_def State_error_def truthy_def
      resolve_def interpret_machine.simps model_defs ex_defs)

end
